theory Spec2Isabelle
  imports Main "HOL-Library.AList" "HOL-Library.Char_ord" "HOL-Library.List_Lexorder"
begin

section \<open>Go values as reflection sees them\<close>

text \<open>
  \<^verbatim>\<open>StructToQueryString\<close> receives an \<^verbatim>\<open>interface{}\<close> and inspects it with package
  \<^verbatim>\<open>reflect\<close>. A value is modelled by its kind and by what the accessors of
  \<^verbatim>\<open>reflect.Value\<close> return for it: \<^verbatim>\<open>String()\<close>, \<^verbatim>\<open>Int()\<close> (an \<^verbatim>\<open>int64\<close>, here an
  \<open>int\<close>: the encoder performs no arithmetic on it), \<^verbatim>\<open>Bool()\<close>, \<^verbatim>\<open>Len()\<close> and
  \<^verbatim>\<open>Index(j)\<close> of a slice, \<^verbatim>\<open>NumField()\<close> and \<^verbatim>\<open>Field(i)\<close> of a struct. Strings are byte
  sequences, as Go's are. A value of any remaining kind carries the text that
  \<^verbatim>\<open>fmt.Sprintf("%v", ...)\<close> prints for it, the only thing the encoder can ask of it
  (when it is the element of a slice).
\<close>

datatype int_size = Size_default | Size8 | Size16 | Size32 | Size64

datatype other_kind =
  Uintptr | Float32 | Float64 | Complex64 | Complex128 | Array | Chan | Func
  | Interface | Map | Pointer | UnsafePointer

datatype kind =
  KInvalid | KBool | KInt int_size | KUint int_size | KString | KSlice | KStruct
  | KOther other_kind

datatype val =
    VInvalid
  | VBool bool
  | VInt int_size int
  | VUint int_size nat
  | VString string
  | VSlice "val list"
  | VStruct "field list"
  | VOther other_kind string
and field =
    Field (Name: string) (Tag: "(string \<times> string) list") (Value: val)

fun Kind :: "val \<Rightarrow> kind" where
  "Kind VInvalid = KInvalid"
| "Kind (VBool b) = KBool"
| "Kind (VInt w i) = KInt w"
| "Kind (VUint w n) = KUint w"
| "Kind (VString s) = KString"
| "Kind (VSlice xs) = KSlice"
| "Kind (VStruct fs) = KStruct"
| "Kind (VOther k t) = KOther k"

text \<open>\<^verbatim>\<open>StructTag.Get(key)\<close>: the value of the key in the field's tag, the empty string
  when the tag has no such key.\<close>

definition Tag_Get :: "(string \<times> string) list \<Rightarrow> string \<Rightarrow> string" where
  "Tag_Get tag key = (case map_of tag key of None \<Rightarrow> [] | Some v \<Rightarrow> v)"

section \<open>Text conversions of the standard library\<close>

definition digit_char :: "nat \<Rightarrow> char" where
  "digit_char d = ''0123456789'' ! d"

function FormatUint :: "nat \<Rightarrow> string" where
  "FormatUint n = (if n < 10 then [digit_char n] else FormatUint (n div 10) @ [digit_char (n mod 10)])"
  by pat_completeness auto
termination
  by (relation "measure id") auto

declare FormatUint.simps [simp del]

text \<open>\<^verbatim>\<open>strconv.FormatInt(i, 10)\<close>\<close>

definition FormatInt :: "int \<Rightarrow> string" where
  "FormatInt i = (if i < 0 then CHR ''-'' # FormatUint (nat (- i)) else FormatUint (nat i))"

text \<open>\<^verbatim>\<open>strconv.FormatBool\<close>\<close>

definition FormatBool :: "bool \<Rightarrow> string" where
  "FormatBool b = (if b then ''true'' else ''false'')"

fun join :: "string \<Rightarrow> string list \<Rightarrow> string" where
  "join sep [] = []"
| "join sep [x] = x"
| "join sep (x # y # ys) = x @ sep @ join sep (y # ys)"

text \<open>\<^verbatim>\<open>fmt.Sprintf("%v", x)\<close> for a value whose type has no formatting method of its own:
  a string prints as itself, integers in base 10, booleans as \<^verbatim>\<open>true\<close>/\<^verbatim>\<open>false\<close>, a
  slice as \<^verbatim>\<open>[a b]\<close>, a struct as \<^verbatim>\<open>{a b}\<close>, an invalid value as \<^verbatim>\<open><invalid reflect.Value>\<close>.
  An element whose type formats itself (a \<^verbatim>\<open>String\<close>, \<^verbatim>\<open>Error\<close> or \<^verbatim>\<open>Format\<close> method) is
  given, like the values of the remaining kinds, by the text that is printed for it.\<close>

fun Sprintf_v :: "val \<Rightarrow> string"
and Sprintf_field :: "field \<Rightarrow> string" where
  "Sprintf_v VInvalid = ''<invalid reflect.Value>''"
| "Sprintf_v (VBool b) = FormatBool b"
| "Sprintf_v (VInt w i) = FormatInt i"
| "Sprintf_v (VUint w n) = FormatUint n"
| "Sprintf_v (VString s) = s"
| "Sprintf_v (VSlice xs) = ''['' @ join '' '' (map Sprintf_v xs) @ '']''"
| "Sprintf_v (VStruct fs) = ''{'' @ join '' '' (map Sprintf_field fs) @ ''}''"
| "Sprintf_v (VOther k t) = t"
| "Sprintf_field (Field n t v) = Sprintf_v v"

section \<open>\<^verbatim>\<open>url.Values\<close> and its encoding\<close>

text \<open>\<^verbatim>\<open>url.Values\<close> is a \<^verbatim>\<open>map[string][]string\<close>: an association list with one entry
  per key.\<close>

type_synonym Values = "(string \<times> string list) list"

text \<open>Indexing the Go map: a missing key reads as the nil slice.\<close>

definition index :: "Values \<Rightarrow> string \<Rightarrow> string list" where
  "index v key = (case map_of v key of None \<Rightarrow> [] | Some vs \<Rightarrow> vs)"

text \<open>\<^verbatim>\<open>func (v Values) Add(key, value string) { v[key] = append(v[key], value) }\<close>\<close>

definition Add :: "Values \<Rightarrow> string \<Rightarrow> string \<Rightarrow> Values" where
  "Add v key value = AList.update key (index v key @ [value]) v"

definition upperhex :: string where
  "upperhex = ''0123456789ABCDEF''"

text \<open>\<^verbatim>\<open>shouldEscape(c, encodeQueryComponent)\<close>: letters, digits and \<^verbatim>\<open>- _ . ~\<close> are kept.\<close>

definition shouldEscape :: "char \<Rightarrow> bool" where
  "shouldEscape c \<longleftrightarrow>
     \<not> ((CHR ''a'' \<le> c \<and> c \<le> CHR ''z'') \<or> (CHR ''A'' \<le> c \<and> c \<le> CHR ''Z'')
        \<or> (CHR ''0'' \<le> c \<and> c \<le> CHR ''9'')
        \<or> c = CHR ''-'' \<or> c = CHR ''_'' \<or> c = CHR ''.'' \<or> c = CHR ''~'')"

definition escape_char :: "char \<Rightarrow> string" where
  "escape_char c =
     (if c = CHR '' '' then ''+''
      else if shouldEscape c
        then [CHR ''%'', upperhex ! (of_char c div 16), upperhex ! (of_char c mod 16)]
      else [c])"

text \<open>\<^verbatim>\<open>url.QueryEscape\<close>\<close>

definition QueryEscape :: "string \<Rightarrow> string" where
  "QueryEscape s = concat (map escape_char s)"

text \<open>One round of the inner loop of \<^verbatim>\<open>Values.Encode\<close>: an ampersand when the buffer
  already holds something, then \<^verbatim>\<open>key=value\<close>.\<close>

definition write_pair :: "string \<Rightarrow> string \<Rightarrow> string \<Rightarrow> string" where
  "write_pair keyEscaped buf v =
     (if buf \<noteq> [] then buf @ ''&'' else buf) @ keyEscaped @ ''='' @ QueryEscape v"

definition write_key :: "Values \<Rightarrow> string \<Rightarrow> string \<Rightarrow> string" where
  "write_key v buf k = foldl (write_pair (QueryEscape k)) buf (index v k)"

text \<open>\<^verbatim>\<open>Values.Encode\<close>: the keys sorted bytewise, the values of a key in the order they
  were added.\<close>

definition Encode :: "Values \<Rightarrow> string" where
  "Encode v = (if v = [] then [] else foldl (write_key v) [] (sort (map fst v)))"

section \<open>Errors\<close>

text \<open>
  A Go \<^verbatim>\<open>error\<close>: the four sentinels of the package (each \<^verbatim>\<open>errors.New\<close> at package
  level, so a value of its own), an error made at run time from a text
  (\<^verbatim>\<open>errors.New\<close>, or \<^verbatim>\<open>fmt.Errorf\<close> without \<^verbatim>\<open>%w\<close>), and what \<^verbatim>\<open>fmt.Errorf\<close> builds
  from a format with \<^verbatim>\<open>%w\<close> verbs: the formatted text and the wrapped operands.
\<close>

datatype error =
    ErrRequestFailed
  | ErrReadResponseBody
  | ErrApiReturnedError
  | ErrDecodeResponse
  | ErrorString string
  | WrapError string "error list"

text \<open>The method \<^verbatim>\<open>Error()\<close>.\<close>

fun Error :: "error \<Rightarrow> string" where
  "Error ErrRequestFailed = ''http request execution failed''"
| "Error ErrReadResponseBody = ''failed to read response body''"
| "Error ErrApiReturnedError = ''api returned an error status''"
| "Error ErrDecodeResponse = ''failed to decode api response''"
| "Error (ErrorString s) = s"
| "Error (WrapError s es) = s"

text \<open>\<^verbatim>\<open>errors.Is\<close>: the error itself or, through \<^verbatim>\<open>Unwrap\<close>, one it wraps.\<close>

fun Is :: "error \<Rightarrow> error \<Rightarrow> bool" where
  "Is (WrapError s es) target = (WrapError s es = target \<or> list_ex (\<lambda>e. Is e target) es)"
| "Is err target = (err = target)"

section \<open>The query encoder (utils.go)\<close>

text \<open>The loop over the elements of a slice field.\<close>

fun slice_loop :: "Values \<Rightarrow> string \<Rightarrow> val list \<Rightarrow> Values" where
  "slice_loop queryParams tag [] = queryParams"
| "slice_loop queryParams tag (x # xs) = slice_loop (Add queryParams tag (Sprintf_v x)) tag xs"

text \<open>The body of the loop over the fields.\<close>

definition field_step :: "Values \<Rightarrow> field \<Rightarrow> Values" where
  "field_step queryParams fieldType =
     (let tag = Tag_Get (Tag fieldType) ''query'';
          tag = (if tag = [] \<or> tag = ''-'' then Name fieldType else tag)
      in case Value fieldType of
           VString s \<Rightarrow> if s \<noteq> [] then Add queryParams tag s else queryParams
         | VInt w i \<Rightarrow> if i \<noteq> 0 then Add queryParams tag (FormatInt i) else queryParams
         | VBool b \<Rightarrow> if b then Add queryParams tag (FormatBool b) else queryParams
         | VSlice xs \<Rightarrow> slice_loop queryParams tag xs
         | _ \<Rightarrow> queryParams)"

fun fields_loop :: "Values \<Rightarrow> field list \<Rightarrow> Values" where
  "fields_loop queryParams [] = queryParams"
| "fields_loop queryParams (f # fs) = fields_loop (field_step queryParams f) fs"

definition StructToQueryString :: "val \<Rightarrow> error + string" where
  "StructToQueryString data =
     (case data of
        VStruct fs \<Rightarrow> Inr (Encode (fields_loop [] fs))
      | _ \<Rightarrow> Inl (ErrorString ''input is not a struct''))"

section \<open>The request pipeline (client and resource files)\<close>

text \<open>The filter structs of the two listing calls; every field is a string.\<close>

record ListContactsFilterRequest =
  Token :: string
  Page :: string
  Limit :: string
  Order :: string
  Direction :: string
  Email :: string
  Q :: string
  Phone :: string
  Title :: string

record ListDealsFilterRequest =
  Token :: string
  Page :: string
  Limit :: string
  Order :: string
  Direction :: string
  Name :: string
  ExactName :: string
  Win :: string
  UserID :: string
  ClosedAt :: string
  ClosedAtPeriod :: string
  CreatedAtPeriod :: string
  PredictionDatePeriod :: string
  StartDate :: string
  EndDate :: string
  CampaignID :: string
  DealStageID :: string
  DealLostReasonID :: string
  DealPipelineID :: string
  Organization :: string
  Hold :: string
  ProductPresence :: string
  NextPage :: string

text \<open>\<^verbatim>\<open>reflect.ValueOf(filter)\<close>: the fields in declaration order, each with its name,
  its tag and its value.\<close>

definition filter_field :: "string \<Rightarrow> string \<Rightarrow> string \<Rightarrow> string \<Rightarrow> field" where
  "filter_field name form query v = Field name [(''form'', form), (''query'', query)] (VString v)"

definition reflect_ListContactsFilterRequest :: "ListContactsFilterRequest \<Rightarrow> val" where
  "reflect_ListContactsFilterRequest f = VStruct
     [filter_field ''Token'' ''token'' ''token'' (ListContactsFilterRequest.Token f),
      filter_field ''Page'' ''page,omitempty'' ''page'' (ListContactsFilterRequest.Page f),
      filter_field ''Limit'' ''limit,omitempty'' ''limit'' (ListContactsFilterRequest.Limit f),
      filter_field ''Order'' ''order,omitempty'' ''order'' (ListContactsFilterRequest.Order f),
      filter_field ''Direction'' ''direction,omitempty'' ''direction'' (ListContactsFilterRequest.Direction f),
      filter_field ''Email'' ''email,omitempty'' ''email'' (Email f),
      filter_field ''Q'' ''q,omitempty'' ''q'' (Q f),
      filter_field ''Phone'' ''phone,omitempty'' ''phone'' (Phone f),
      filter_field ''Title'' ''title,omitempty'' ''title'' (Title f)]"

definition reflect_ListDealsFilterRequest :: "ListDealsFilterRequest \<Rightarrow> val" where
  "reflect_ListDealsFilterRequest f = VStruct
     [filter_field ''Token'' ''token'' ''token'' (ListDealsFilterRequest.Token f),
      filter_field ''Page'' ''page,omitempty'' ''page'' (ListDealsFilterRequest.Page f),
      filter_field ''Limit'' ''limit,omitempty'' ''limit'' (ListDealsFilterRequest.Limit f),
      filter_field ''Order'' ''order,omitempty'' ''order'' (ListDealsFilterRequest.Order f),
      filter_field ''Direction'' ''direction,omitempty'' ''direction'' (ListDealsFilterRequest.Direction f),
      filter_field ''Name'' ''name,omitempty'' ''name'' (ListDealsFilterRequest.Name f),
      filter_field ''ExactName'' ''exact_name,omitempty'' ''exact_name'' (ExactName f),
      filter_field ''Win'' ''win,omitempty'' ''win'' (Win f),
      filter_field ''UserID'' ''user_id,omitempty'' ''user_id'' (UserID f),
      filter_field ''ClosedAt'' ''closed_at,omitempty'' ''closed_at'' (ClosedAt f),
      filter_field ''ClosedAtPeriod'' ''closed_at_period,omitempty'' ''closed_at_period'' (ClosedAtPeriod f),
      filter_field ''CreatedAtPeriod'' ''created_at_period,omitempty'' ''created_at_period'' (CreatedAtPeriod f),
      filter_field ''PredictionDatePeriod'' ''prediction_date_period,omitempty'' ''prediction_date_period''
        (PredictionDatePeriod f),
      filter_field ''StartDate'' ''start_date,omitempty'' ''start_date'' (StartDate f),
      filter_field ''EndDate'' ''end_date,omitempty'' ''end_date'' (EndDate f),
      filter_field ''CampaignID'' ''campaign_id,omitempty'' ''campaign_id'' (CampaignID f),
      filter_field ''DealStageID'' ''deal_stage_id,omitempty'' ''deal_stage_id'' (DealStageID f),
      filter_field ''DealLostReasonID'' ''deal_lost_reason_id,omitempty'' ''deal_lost_reason_id''
        (DealLostReasonID f),
      filter_field ''DealPipelineID'' ''deal_pipeline_id,omitempty'' ''deal_pipeline_id'' (DealPipelineID f),
      filter_field ''Organization'' ''organization,omitempty'' ''organization'' (Organization f),
      filter_field ''Hold'' ''hold,omitempty'' ''hold'' (Hold f),
      filter_field ''ProductPresence'' ''product_presence,omitempty'' ''product_presence'' (ProductPresence f),
      filter_field ''NextPage'' ''next_page,omitempty'' ''next_page'' (NextPage f)]"

text \<open>The client's configuration, as \<^verbatim>\<open>request\<close> reads it. Its \<^verbatim>\<open>httpClient\<close> is the
  transport of the environment below.\<close>

record Client =
  baseUrl :: string
  token :: string

text \<open>An outgoing \<^verbatim>\<open>*http.Request\<close> and an incoming \<^verbatim>\<open>*http.Response\<close>, whose body is a
  stream of a type left open.\<close>

record Request =
  Method :: string
  URL :: string
  ReqBody :: "string option"
  Header :: "(string \<times> string) list"

record 'b Response =
  StatusCode :: int
  Body :: 'b

text \<open>
  What the pipeline takes from outside the files under verification: the endpoint
  constants of the package (declared in a file that is not part of the sources at hand;
  the two update endpoints are formats applied to an identifier), and the results of the
  library calls: \<^verbatim>\<open>json.Marshal\<close> of a request payload, the check
  \<^verbatim>\<open>http.NewRequestWithContext\<close> makes of a method and a URL, the round trip
  \<^verbatim>\<open>httpClient.Do\<close> (under the caller's context), \<^verbatim>\<open>io.ReadAll\<close> of a response body
  and the JSON decoding of a response body into the target type.
\<close>

record ('p, 'b, 'r) env =
  listContactsEndpoint :: string
  createContactEndpoint :: string
  updateContactByIDEndpoint :: "string \<Rightarrow> string"
  listDealsEndpoint :: string
  createDealEndpoint :: string
  updateDealByIDEndpoint :: "string \<Rightarrow> string"
  Marshal :: "'p \<Rightarrow> error + string"
  NewRequest_rejects :: "string \<Rightarrow> string \<Rightarrow> error option"
  Do :: "Request \<Rightarrow> error + 'b Response"
  ReadAll :: "'b \<Rightarrow> error + string"
  Decode :: "'b \<Rightarrow> error + 'r"

text \<open>The calls a pipeline function makes on the network and on the response body, in
  order.\<close>

datatype event = EvDo Request | EvReadAll | EvDecode | EvClose

definition StatusOK :: int where "StatusOK = 200"
definition StatusCreated :: int where "StatusCreated = 201"
definition MethodGet :: string where "MethodGet = ''GET''"
definition MethodPost :: string where "MethodPost = ''POST''"
definition MethodPut :: string where "MethodPut = ''PUT''"

text \<open>\<^verbatim>\<open>strings.Contains\<close>\<close>

fun Contains :: "string \<Rightarrow> string \<Rightarrow> bool" where
  "Contains [] substr = (substr = [])"
| "Contains (c # s) substr = (take (length substr) (c # s) = substr \<or> Contains s substr)"

definition NewRequestWithContext ::
  "('p, 'b, 'r) env \<Rightarrow> string \<Rightarrow> string \<Rightarrow> string option \<Rightarrow> error + Request" where
  "NewRequestWithContext env method url body =
     (case NewRequest_rejects env method url of
        Some err \<Rightarrow> Inl err
      | None \<Rightarrow> Inr \<lparr>Method = method, URL = url, ReqBody = body, Header = []\<rparr>)"

text \<open>\<^verbatim>\<open>func (s *Client) request(ctx, reqBody any, method, endpoint string)\<close>\<close>

definition request ::
  "('p, 'b, 'r) env \<Rightarrow> Client \<Rightarrow> 'p option \<Rightarrow> string \<Rightarrow> string
     \<Rightarrow> (error + 'b Response) \<times> event list" where
  "request env s reqBody method endpoint =
     (case (case reqBody of
              None \<Rightarrow> Inr None
            | Some b \<Rightarrow> (case Marshal env b of
                          Inl err \<Rightarrow> Inl err
                        | Inr marshalledBody \<Rightarrow> Inr (Some marshalledBody))) of
        Inl err \<Rightarrow> (Inl err, [])
      | Inr bodyReader \<Rightarrow>
          (let url = baseUrl s @ ''/'' @ endpoint;
               separator = (if Contains url ''?'' then ''&'' else ''?'');
               url = url @ separator @ ''token='' @ token s
           in case NewRequestWithContext env method url bodyReader of
                Inl err \<Rightarrow> (Inl err, [])
              | Inr req \<Rightarrow>
                  (let req = req\<lparr>Header := AList.update ''Content-Type'' ''application/json'' (Header req)\<rparr>
                   in (Do env req, [EvDo req]))))"

text \<open>\<^verbatim>\<open>func (s *Client) ListContactsFilter(ctx, filter ListContactsFilterRequest)\<close>\<close>

definition ListContactsFilter ::
  "('p, 'b, 'r) env \<Rightarrow> Client \<Rightarrow> ListContactsFilterRequest \<Rightarrow> (error + 'r) \<times> event list" where
  "ListContactsFilter env s filter' =
     (case StructToQueryString (reflect_ListContactsFilterRequest filter') of
        Inl err \<Rightarrow> (Inl (WrapError (''error creating query string from filter: '' @ Error err) [err]), [])
      | Inr queryString \<Rightarrow>
          (let fullPath = listContactsEndpoint env @ (if queryString \<noteq> [] then ''?'' @ queryString else [])
           in case request env s None MethodGet fullPath of
                (Inl err, log) \<Rightarrow>
                  (Inl (WrapError (Error ErrRequestFailed @ '': error making request to list contacts: ''
                          @ Error err) [ErrRequestFailed, err]), log)
              | (Inr resp, log) \<Rightarrow>
                  if StatusCode resp \<noteq> StatusOK then
                    (case ReadAll env (Body resp) of
                       Inl readErr \<Rightarrow>
                         (Inl (WrapError (Error ErrReadResponseBody @ '': failed to list contacts (status: ''
                                 @ FormatInt (StatusCode resp) @ ''), read response body error: '' @ Error readErr)
                               [ErrReadResponseBody, readErr]),
                          log @ [EvReadAll, EvClose])
                     | Inr bodyBytes \<Rightarrow>
                         (Inl (WrapError (Error ErrApiReturnedError @ '': failed to list contacts (status: ''
                                 @ FormatInt (StatusCode resp) @ ''): '' @ bodyBytes)
                               [ErrApiReturnedError, ErrorString bodyBytes]),
                          log @ [EvReadAll, EvClose]))
                  else
                    (case Decode env (Body resp) of
                       Inl err \<Rightarrow>
                         (Inl (WrapError (Error ErrDecodeResponse @ '': error decoding list contacts response: ''
                                 @ Error err) [ErrDecodeResponse, err]),
                          log @ [EvDecode, EvClose])
                     | Inr responsePayload \<Rightarrow> (Inr responsePayload, log @ [EvDecode, EvClose]))))"

text \<open>\<^verbatim>\<open>func (s *Client) CreateContact(ctx, contact CreateContactRequest)\<close>\<close>

definition CreateContact ::
  "('p, 'b, 'r) env \<Rightarrow> Client \<Rightarrow> 'p \<Rightarrow> (error + 'r) \<times> event list" where
  "CreateContact env s contact =
     (case request env s (Some contact) MethodPost (createContactEndpoint env) of
        (Inl err, log) \<Rightarrow>
          (Inl (WrapError (Error ErrRequestFailed @ '': error making request to create contact: ''
                  @ Error err) [ErrRequestFailed, err]), log)
      | (Inr resp, log) \<Rightarrow>
          if StatusCode resp \<noteq> StatusOK \<and> StatusCode resp \<noteq> StatusCreated then
            (case ReadAll env (Body resp) of
               Inl readErr \<Rightarrow>
                 (Inl (WrapError (Error ErrReadResponseBody @ '': failed to create contact (status: ''
                         @ FormatInt (StatusCode resp) @ ''), read response body error: '' @ Error readErr)
                       [ErrReadResponseBody, readErr]),
                  log @ [EvReadAll, EvClose])
             | Inr bodyBytes \<Rightarrow>
                 (Inl (WrapError (Error ErrApiReturnedError @ '': failed to create contact (status: ''
                         @ FormatInt (StatusCode resp) @ ''): '' @ bodyBytes)
                       [ErrApiReturnedError, ErrorString bodyBytes]),
                  log @ [EvReadAll, EvClose]))
          else
            (case Decode env (Body resp) of
               Inl err \<Rightarrow>
                 (Inl (WrapError (Error ErrDecodeResponse @ '': error decoding create contact response: ''
                         @ Error err) [ErrDecodeResponse, err]),
                  log @ [EvDecode, EvClose])
             | Inr responsePayload \<Rightarrow> (Inr responsePayload, log @ [EvDecode, EvClose])))"

text \<open>\<^verbatim>\<open>func (s *Client) UpdateContact(ctx, contactID string, contact UpdateContactRequest)\<close>\<close>

definition UpdateContact ::
  "('p, 'b, 'r) env \<Rightarrow> Client \<Rightarrow> string \<Rightarrow> 'p \<Rightarrow> (error + 'r) \<times> event list" where
  "UpdateContact env s contactID contact =
     (case request env s (Some contact) MethodPut (updateContactByIDEndpoint env contactID) of
        (Inl err, log) \<Rightarrow>
          (Inl (WrapError (Error ErrRequestFailed @ '': error making request to update contact: ''
                  @ Error err) [ErrRequestFailed, err]), log)
      | (Inr resp, log) \<Rightarrow>
          if StatusCode resp \<noteq> StatusOK then
            (case ReadAll env (Body resp) of
               Inl readErr \<Rightarrow>
                 (Inl (WrapError (Error ErrReadResponseBody @ '': failed to update contact (status: ''
                         @ FormatInt (StatusCode resp) @ ''), read response body error: '' @ Error readErr)
                       [ErrReadResponseBody, readErr]),
                  log @ [EvReadAll, EvClose])
             | Inr bodyBytes \<Rightarrow>
                 (Inl (WrapError (Error ErrApiReturnedError @ '': failed to update contact (status: ''
                         @ FormatInt (StatusCode resp) @ ''): '' @ bodyBytes)
                       [ErrApiReturnedError, ErrorString bodyBytes]),
                  log @ [EvReadAll, EvClose]))
          else
            (case Decode env (Body resp) of
               Inl err \<Rightarrow>
                 (Inl (WrapError (Error ErrDecodeResponse @ '': error decoding update contact response: ''
                         @ Error err) [ErrDecodeResponse, err]),
                  log @ [EvDecode, EvClose])
             | Inr responsePayload \<Rightarrow> (Inr responsePayload, log @ [EvDecode, EvClose])))"

text \<open>\<^verbatim>\<open>func (s *Client) ListDealsFilter(ctx, filter ListDealsFilterRequest)\<close>\<close>

definition ListDealsFilter ::
  "('p, 'b, 'r) env \<Rightarrow> Client \<Rightarrow> ListDealsFilterRequest \<Rightarrow> (error + 'r) \<times> event list" where
  "ListDealsFilter env s filter' =
     (case StructToQueryString (reflect_ListDealsFilterRequest filter') of
        Inl err \<Rightarrow> (Inl (WrapError (''error creating query string from filter: '' @ Error err) [err]), [])
      | Inr queryString \<Rightarrow>
          (let fullPath = listDealsEndpoint env @ (if queryString \<noteq> [] then ''?'' @ queryString else [])
           in case request env s None MethodGet fullPath of
                (Inl err, log) \<Rightarrow>
                  (Inl (WrapError (Error ErrRequestFailed @ '': error making request to list deals: ''
                          @ Error err) [ErrRequestFailed, err]), log)
              | (Inr resp, log) \<Rightarrow>
                  if StatusCode resp \<noteq> StatusOK then
                    (case ReadAll env (Body resp) of
                       Inl readErr \<Rightarrow>
                         (Inl (WrapError (Error ErrReadResponseBody @ '': failed to list deals (status: ''
                                 @ FormatInt (StatusCode resp) @ ''), read response body error: '' @ Error readErr)
                               [ErrReadResponseBody, readErr]),
                          log @ [EvReadAll, EvClose])
                     | Inr bodyBytes \<Rightarrow>
                         (Inl (WrapError (Error ErrApiReturnedError @ '': failed to list deals (status: ''
                                 @ FormatInt (StatusCode resp) @ ''): '' @ bodyBytes)
                               [ErrApiReturnedError, ErrorString bodyBytes]),
                          log @ [EvReadAll, EvClose]))
                  else
                    (case Decode env (Body resp) of
                       Inl err \<Rightarrow>
                         (Inl (WrapError (Error ErrDecodeResponse @ '': error decoding list deals response: ''
                                 @ Error err) [ErrDecodeResponse, err]),
                          log @ [EvDecode, EvClose])
                     | Inr responsePayload \<Rightarrow> (Inr responsePayload, log @ [EvDecode, EvClose]))))"

text \<open>\<^verbatim>\<open>func (s *Client) CreateDeal(ctx, deal CreateDealRequest)\<close>\<close>

definition CreateDeal ::
  "('p, 'b, 'r) env \<Rightarrow> Client \<Rightarrow> 'p \<Rightarrow> (error + 'r) \<times> event list" where
  "CreateDeal env s deal =
     (case request env s (Some deal) MethodPost (createDealEndpoint env) of
        (Inl err, log) \<Rightarrow>
          (Inl (WrapError (Error ErrRequestFailed @ '': error making request to create deal: ''
                  @ Error err) [ErrRequestFailed, err]), log)
      | (Inr resp, log) \<Rightarrow>
          if StatusCode resp \<noteq> StatusOK \<and> StatusCode resp \<noteq> StatusCreated then
            (case ReadAll env (Body resp) of
               Inl readErr \<Rightarrow>
                 (Inl (WrapError (Error ErrReadResponseBody @ '': failed to create deal (status: ''
                         @ FormatInt (StatusCode resp) @ ''), read response body error: '' @ Error readErr)
                       [ErrReadResponseBody, readErr]),
                  log @ [EvReadAll, EvClose])
             | Inr bodyBytes \<Rightarrow>
                 (Inl (WrapError (Error ErrApiReturnedError @ '': failed to create deal (status: ''
                         @ FormatInt (StatusCode resp) @ ''): '' @ bodyBytes)
                       [ErrApiReturnedError, ErrorString bodyBytes]),
                  log @ [EvReadAll, EvClose]))
          else
            (case Decode env (Body resp) of
               Inl err \<Rightarrow>
                 (Inl (WrapError (Error ErrDecodeResponse @ '': error decoding create deal response: ''
                         @ Error err) [ErrDecodeResponse, err]),
                  log @ [EvDecode, EvClose])
             | Inr responsePayload \<Rightarrow> (Inr responsePayload, log @ [EvDecode, EvClose])))"

text \<open>\<^verbatim>\<open>func (s *Client) UpdateDeal(ctx, dealID string, deal UpdateDealRequest)\<close>\<close>

definition UpdateDeal ::
  "('p, 'b, 'r) env \<Rightarrow> Client \<Rightarrow> string \<Rightarrow> 'p \<Rightarrow> (error + 'r) \<times> event list" where
  "UpdateDeal env s dealID deal =
     (case request env s (Some deal) MethodPut (updateDealByIDEndpoint env dealID) of
        (Inl err, log) \<Rightarrow>
          (Inl (WrapError (Error ErrRequestFailed @ '': error making request to update deal: ''
                  @ Error err) [ErrRequestFailed, err]), log)
      | (Inr resp, log) \<Rightarrow>
          if StatusCode resp \<noteq> StatusOK then
            (case ReadAll env (Body resp) of
               Inl readErr \<Rightarrow>
                 (Inl (WrapError (Error ErrReadResponseBody @ '': failed to update deal (status: ''
                         @ FormatInt (StatusCode resp) @ ''), read response body error: '' @ Error readErr)
                       [ErrReadResponseBody, readErr]),
                  log @ [EvReadAll, EvClose])
             | Inr bodyBytes \<Rightarrow>
                 (Inl (WrapError (Error ErrApiReturnedError @ '': failed to update deal (status: ''
                         @ FormatInt (StatusCode resp) @ ''): '' @ bodyBytes)
                       [ErrApiReturnedError, ErrorString bodyBytes]),
                  log @ [EvReadAll, EvClose]))
          else
            (case Decode env (Body resp) of
               Inl err \<Rightarrow>
                 (Inl (WrapError (Error ErrDecodeResponse @ '': error decoding update deal response: ''
                         @ Error err) [ErrDecodeResponse, err]),
                  log @ [EvDecode, EvClose])
             | Inr responsePayload \<Rightarrow> (Inr responsePayload, log @ [EvDecode, EvClose])))"

section \<open>The specification's vocabulary\<close>

text \<open>The parameter name the specification gives a field: its \<^verbatim>\<open>query\<close> tag when the tag
  is present, not empty and not the ignore marker \<^verbatim>\<open>-\<close>; otherwise its declared name.\<close>

definition spec_name :: "field \<Rightarrow> string" where
  "spec_name f =
     (case map_of (Tag f) ''query'' of
        Some t \<Rightarrow> if t \<noteq> [] \<and> t \<noteq> ''-'' then t else field.Name f
      | None \<Rightarrow> field.Name f)"

text \<open>The values the specification gives a field: a text when not empty, an integer when
  not zero (in base 10), a boolean when true (the text \<^verbatim>\<open>true\<close>), every element of a
  sequence; nothing for any other kind. The integers are those of the signed kinds and
  the sequences are the slices: the kinds the encoder has a case for.\<close>

fun spec_values :: "val \<Rightarrow> string list" where
  "spec_values (VString s) = (if s = [] then [] else [s])"
| "spec_values (VInt w i) = (if i = 0 then [] else [FormatInt i])"
| "spec_values (VBool b) = (if b then [''true''] else [])"
| "spec_values (VSlice xs) = map Sprintf_v xs"
| "spec_values v = []"

text \<open>The kinds the switch of the encoder has a case for.\<close>

fun encodable :: "kind \<Rightarrow> bool" where
  "encodable KString = True"
| "encodable (KInt w) = True"
| "encodable KBool = True"
| "encodable KSlice = True"
| "encodable k = False"

text \<open>What \<^verbatim>\<open>Add\<close> keeps true of a \<^verbatim>\<open>url.Values\<close>: one entry per key, and no key with an
  empty list of values.\<close>

definition wf_values :: "Values \<Rightarrow> bool" where
  "wf_values v \<longleftrightarrow> distinct (map fst v) \<and> (\<forall>k. map_of v k \<noteq> Some [])"

text \<open>One parameter of the query string: \<^verbatim>\<open>key=value\<close>, both escaped.\<close>

definition pair_text :: "string \<times> string \<Rightarrow> string" where
  "pair_text p = QueryEscape (fst p) @ ''='' @ QueryEscape (snd p)"

text \<open>The (key, value) pairs of a \<^verbatim>\<open>url.Values\<close> in the order \<^verbatim>\<open>Encode\<close> writes them.\<close>

definition pairs_of :: "Values \<Rightarrow> (string \<times> string) list" where
  "pairs_of v = concat (map (\<lambda>k. map (Pair k) (index v k)) (sort (map fst v)))"

text \<open>The values the specification puts under a key: those of the fields with that
  parameter name, in declaration order.\<close>

definition contrib :: "field list \<Rightarrow> string \<Rightarrow> string list" where
  "contrib fs k = concat (map (\<lambda>f. if spec_name f = k then spec_values (Value f) else []) fs)"

text \<open>The (key, value) pairs the specification gives a struct, keys in bytewise order.\<close>

definition spec_pairs :: "field list \<Rightarrow> (string \<times> string) list" where
  "spec_pairs fs = concat (map (\<lambda>k. map (Pair k) (contrib fs k)) (sort (remdups (map spec_name fs))))"

text \<open>The buffer of \<^verbatim>\<open>Encode\<close> after writing a list of texts, each after an ampersand
  unless the buffer is empty.\<close>

definition ext :: "string \<Rightarrow> string list \<Rightarrow> string" where
  "ext buf strs = foldl (\<lambda>b s. (if b \<noteq> [] then b @ ''&'' else b) @ s) buf strs"

text \<open>Reading a base-10 text: an optional minus sign, then one digit or more.\<close>

definition digit_value :: "char \<Rightarrow> nat option" where
  "digit_value c = (if CHR ''0'' \<le> c \<and> c \<le> CHR ''9'' then Some (of_char c - 48) else None)"

fun read_digits :: "nat \<Rightarrow> string \<Rightarrow> nat option" where
  "read_digits acc [] = Some acc"
| "read_digits acc (c # cs) =
     (case digit_value c of None \<Rightarrow> None | Some d \<Rightarrow> read_digits (10 * acc + d) cs)"

definition read_decimal :: "string \<Rightarrow> int option" where
  "read_decimal s =
     (case s of
        [] \<Rightarrow> None
      | c # cs \<Rightarrow>
          if c = CHR ''-'' then (if cs = [] then None else map_option (\<lambda>n. - int n) (read_digits 0 cs))
          else map_option int (read_digits 0 s))"

text \<open>The zero values the specification names: the empty text, the integer zero, false,
  the empty (or nil) sequence.\<close>

fun is_zero :: "val \<Rightarrow> bool" where
  "is_zero (VString s) = (s = [])"
| "is_zero (VInt w i) = (i = 0)"
| "is_zero (VUint w n) = (n = 0)"
| "is_zero (VBool b) = (\<not> b)"
| "is_zero (VSlice xs) = (xs = [])"
| "is_zero v = False"

text \<open>The fields the specification lets contribute parameters: non-empty texts, non-zero
  integers (of the signed kinds), true booleans, non-empty sequences (slices).\<close>

fun contributes :: "val \<Rightarrow> bool" where
  "contributes (VString s) = (s \<noteq> [])"
| "contributes (VInt w i) = (i \<noteq> 0)"
| "contributes (VBool b) = b"
| "contributes (VSlice xs) = (xs \<noteq> [])"
| "contributes v = False"

section \<open>The pipeline: vocabulary of the specification\<close>

text \<open>The six calls of the package under one name, so that a property of every call is one
  statement: the call with its arguments, the function it runs, the status codes it
  accepts, the words its error messages use, the payload it sends, its method and its
  endpoint.\<close>

datatype 'p call =
    ListContactsFilterCall ListContactsFilterRequest
  | CreateContactCall 'p
  | UpdateContactCall string 'p
  | ListDealsFilterCall ListDealsFilterRequest
  | CreateDealCall 'p
  | UpdateDealCall string 'p

fun run :: "('p, 'b, 'r) env \<Rightarrow> Client \<Rightarrow> 'p call \<Rightarrow> (error + 'r) \<times> event list" where
  "run env s (ListContactsFilterCall filter') = ListContactsFilter env s filter'"
| "run env s (CreateContactCall contact) = CreateContact env s contact"
| "run env s (UpdateContactCall contactID contact) = UpdateContact env s contactID contact"
| "run env s (ListDealsFilterCall filter') = ListDealsFilter env s filter'"
| "run env s (CreateDealCall deal) = CreateDeal env s deal"
| "run env s (UpdateDealCall dealID deal) = UpdateDeal env s dealID deal"

fun acceptable :: "'p call \<Rightarrow> int set" where
  "acceptable (CreateContactCall contact) = {200, 201}"
| "acceptable (CreateDealCall deal) = {200, 201}"
| "acceptable c = {200}"

fun action :: "'p call \<Rightarrow> string" where
  "action (ListContactsFilterCall filter') = ''list contacts''"
| "action (CreateContactCall contact) = ''create contact''"
| "action (UpdateContactCall contactID contact) = ''update contact''"
| "action (ListDealsFilterCall filter') = ''list deals''"
| "action (CreateDealCall deal) = ''create deal''"
| "action (UpdateDealCall dealID deal) = ''update deal''"

fun payload :: "'p call \<Rightarrow> 'p option" where
  "payload (CreateContactCall contact) = Some contact"
| "payload (UpdateContactCall contactID contact) = Some contact"
| "payload (CreateDealCall deal) = Some deal"
| "payload (UpdateDealCall dealID deal) = Some deal"
| "payload c = None"

text \<open>The classified errors of the specification, as the calls build them.\<close>

definition ApiError :: "string \<Rightarrow> int \<Rightarrow> string \<Rightarrow> error" where
  "ApiError act status body =
     WrapError (''api returned an error status: failed to '' @ act @ '' (status: '' @ FormatInt status
                @ ''): '' @ body)
       [ErrApiReturnedError, ErrorString body]"

definition BodyReadError :: "string \<Rightarrow> int \<Rightarrow> error \<Rightarrow> error" where
  "BodyReadError act status cause =
     WrapError (''failed to read response body: failed to '' @ act @ '' (status: '' @ FormatInt status
                @ ''), read response body error: '' @ Error cause)
       [ErrReadResponseBody, cause]"

definition DecodeError :: "string \<Rightarrow> error \<Rightarrow> error" where
  "DecodeError act cause =
     WrapError (''failed to decode api response: error decoding '' @ act @ '' response: '' @ Error cause)
       [ErrDecodeResponse, cause]"

definition RequestError :: "string \<Rightarrow> error \<Rightarrow> error" where
  "RequestError act cause =
     WrapError (''http request execution failed: error making request to '' @ act @ '': '' @ Error cause)
       [ErrRequestFailed, cause]"

text \<open>What the specification asks of a call once the response is there: an unacceptable
  status gives the API error with the body read in full, or the body-read error; an
  acceptable one gives the decoded value or the decode error. The body is closed in
  every case.\<close>

definition handled :: "('p, 'b, 'r) env \<Rightarrow> string \<Rightarrow> int set \<Rightarrow> 'b Response \<Rightarrow> (error + 'r) \<times> event list" where
  "handled env act ok resp =
     (if StatusCode resp \<notin> ok then
        (case ReadAll env (Body resp) of
           Inl cause \<Rightarrow> (Inl (BodyReadError act (StatusCode resp) cause), [EvReadAll, EvClose])
         | Inr body \<Rightarrow> (Inl (ApiError act (StatusCode resp) body), [EvReadAll, EvClose]))
      else
        (case Decode env (Body resp) of
           Inl cause \<Rightarrow> (Inl (DecodeError act cause), [EvDecode, EvClose])
         | Inr v \<Rightarrow> (Inr v, [EvDecode, EvClose])))"

text \<open>The same, after the outcome of \<^verbatim>\<open>request\<close>.\<close>

definition finish ::
  "('p, 'b, 'r) env \<Rightarrow> string \<Rightarrow> int set \<Rightarrow> (error + 'b Response) \<times> event list
     \<Rightarrow> (error + 'r) \<times> event list" where
  "finish env act ok res =
     (case res of
        (Inl err, log) \<Rightarrow> (Inl (RequestError act err), log)
      | (Inr resp, log) \<Rightarrow> (fst (handled env act ok resp), log @ snd (handled env act ok resp)))"

text \<open>The endpoint of a listing call: the query string after a question mark, when there
  is one.\<close>

definition fullPath :: "string \<Rightarrow> val \<Rightarrow> string" where
  "fullPath endpoint v =
     (case StructToQueryString v of
        Inl err \<Rightarrow> endpoint
      | Inr queryString \<Rightarrow> endpoint @ (if queryString \<noteq> [] then ''?'' @ queryString else []))"

fun method_of :: "'p call \<Rightarrow> string" where
  "method_of (ListContactsFilterCall filter') = ''GET''"
| "method_of (CreateContactCall contact) = ''POST''"
| "method_of (UpdateContactCall contactID contact) = ''PUT''"
| "method_of (ListDealsFilterCall filter') = ''GET''"
| "method_of (CreateDealCall deal) = ''POST''"
| "method_of (UpdateDealCall dealID deal) = ''PUT''"

fun endpoint_of :: "('p, 'b, 'r) env \<Rightarrow> 'p call \<Rightarrow> string" where
  "endpoint_of env (ListContactsFilterCall filter') =
     fullPath (listContactsEndpoint env) (reflect_ListContactsFilterRequest filter')"
| "endpoint_of env (CreateContactCall contact) = createContactEndpoint env"
| "endpoint_of env (UpdateContactCall contactID contact) = updateContactByIDEndpoint env contactID"
| "endpoint_of env (ListDealsFilterCall filter') =
     fullPath (listDealsEndpoint env) (reflect_ListDealsFilterRequest filter')"
| "endpoint_of env (CreateDealCall deal) = createDealEndpoint env"
| "endpoint_of env (UpdateDealCall dealID deal) = updateDealByIDEndpoint env dealID"

text \<open>A concrete environment, client and filter for evaluating the calls: a response body is
  the text it delivers or the error that reading it meets, and only \<^verbatim>\<open>{}\<close> decodes.\<close>

definition example_env ::
  "(unit \<Rightarrow> error + string) \<Rightarrow> (Request \<Rightarrow> error + (error + string) Response)
     \<Rightarrow> (unit, error + string, string) env" where
  "example_env marshal transport =
     \<lparr>listContactsEndpoint = ''contacts'', createContactEndpoint = ''contacts'',
      updateContactByIDEndpoint = (\<lambda>contactID. ''contacts/'' @ contactID),
      listDealsEndpoint = ''deals'', createDealEndpoint = ''deals'',
      updateDealByIDEndpoint = (\<lambda>dealID. ''deals/'' @ dealID),
      Marshal = marshal, NewRequest_rejects = (\<lambda>method url. None), Do = transport,
      ReadAll = (\<lambda>body. body),
      Decode = (\<lambda>body. case body of
                  Inl cause \<Rightarrow> Inl cause
                | Inr text \<Rightarrow> if text = ''{}'' then Inr ''{}''
                             else Inl (ErrorString ''invalid character''))\<rparr>"

definition example_contacts_filter :: ListContactsFilterRequest where
  "example_contacts_filter =
     \<lparr>ListContactsFilterRequest.Token = [], Page = ''1'', Limit = ''5'', Order = [], Direction = [],
      Email = [], Q = [], Phone = [], Title = []\<rparr>"

definition example_client :: Client where
  "example_client = \<lparr>baseUrl = ''https://crm.example/api/v1'', token = ''T0''\<rparr>"

definition example_deals_filter :: ListDealsFilterRequest where
  "example_deals_filter =
     \<lparr>ListDealsFilterRequest.Token = ''abc'', Page = [], Limit = ''5'', Order = [], Direction = [],
      Name = [], ExactName = [], Win = [], UserID = [], ClosedAt = [], ClosedAtPeriod = [],
      CreatedAtPeriod = [], PredictionDatePeriod = [], StartDate = [], EndDate = [], CampaignID = [],
      DealStageID = [], DealLostReasonID = [], DealPipelineID = [], Organization = [], Hold = [],
      ProductPresence = [], NextPage = []\<rparr>"

text \<open>The request a call builds from the body it serialized: the method of the call, the base
  URL joined with the endpoint by a slash, the token appended as the last query parameter, and
  the JSON content type.\<close>

definition built_request :: "('p, 'b, 'r) env \<Rightarrow> Client \<Rightarrow> 'p call \<Rightarrow> string option \<Rightarrow> Request" where
  "built_request env s c body =
     \<lparr>Method = method_of c,
      URL = baseUrl s @ ''/'' @ endpoint_of env c
            @ (if CHR ''?'' \<in> set (baseUrl s @ ''/'' @ endpoint_of env c) then ''&'' else ''?'')
            @ ''token='' @ token s,
      ReqBody = body,
      Header = [(''Content-Type'', ''application/json'')]\<rparr>"

text \<open>The body of the request of a call: none for a listing call, and what \<^verbatim>\<open>json.Marshal\<close>
  gives for the payload of the others.\<close>

definition serialized :: "('p, 'b, 'r) env \<Rightarrow> 'p call \<Rightarrow> string option \<Rightarrow> bool" where
  "serialized env c body \<longleftrightarrow>
     (case payload c of
        None \<Rightarrow> body = None
      | Some p \<Rightarrow> (case Marshal env p of Inl err \<Rightarrow> False | Inr b \<Rightarrow> body = Some b))"

section \<open>Decoding a query string\<close>

text \<open>\<^verbatim>\<open>ishex\<close> and \<^verbatim>\<open>unhex\<close> of package \<^verbatim>\<open>net/url\<close>.\<close>

definition ishex :: "char \<Rightarrow> bool" where
  "ishex c \<longleftrightarrow> (CHR ''0'' \<le> c \<and> c \<le> CHR ''9'') \<or> (CHR ''a'' \<le> c \<and> c \<le> CHR ''f'')
     \<or> (CHR ''A'' \<le> c \<and> c \<le> CHR ''F'')"

definition unhex :: "char \<Rightarrow> nat" where
  "unhex c =
     (if CHR ''0'' \<le> c \<and> c \<le> CHR ''9'' then of_char c - 48
      else if CHR ''a'' \<le> c \<and> c \<le> CHR ''f'' then of_char c - 97 + 10
      else if CHR ''A'' \<le> c \<and> c \<le> CHR ''F'' then of_char c - 65 + 10
      else 0)"

text \<open>\<^verbatim>\<open>url.QueryUnescape\<close>: \<^verbatim>\<open>%XX\<close> is the byte with that hexadecimal code, \<^verbatim>\<open>+\<close> a space;
  a percent sign not followed by two hexadecimal digits is an error (here \<open>None\<close>).\<close>

fun QueryUnescape :: "string \<Rightarrow> string option" where
  "QueryUnescape [] = Some []"
| "QueryUnescape (c # s) =
     (if c = CHR ''%'' then
        (case s of
           h1 # h2 # rest \<Rightarrow>
             if ishex h1 \<and> ishex h2
             then map_option ((#) (char_of (unhex h1 * 16 + unhex h2))) (QueryUnescape rest)
             else None
         | _ \<Rightarrow> None)
      else if c = CHR ''+'' then map_option ((#) CHR '' '') (QueryUnescape s)
      else map_option ((#) c) (QueryUnescape s))"

text \<open>\<^verbatim>\<open>strings.Cut\<close> at a one-byte separator: the text before the first separator and the
  text after it (empty when there is none).\<close>

definition Cut :: "string \<Rightarrow> char \<Rightarrow> string \<times> string" where
  "Cut s sep = (takeWhile (\<lambda>c. c \<noteq> sep) s, drop 1 (dropWhile (\<lambda>c. c \<noteq> sep) s))"

text \<open>The loop of \<^verbatim>\<open>url.ParseQuery\<close>, the decoder of query strings in Go's library: the
  state is the map built so far and the error to return. A part with a semicolon sets the
  error, an empty part is skipped, a part that does not unescape sets the error when
  there is none yet; every other part adds its value under its key.\<close>

function parseQuery :: "Values \<times> error option \<Rightarrow> string \<Rightarrow> Values \<times> error option" where
  "parseQuery (m, err) query =
     (if query = [] then (m, err)
      else
        (let (key, query') = Cut query CHR ''&'' in
         if CHR '';'' \<in> set key
           then parseQuery (m, Some (ErrorString ''invalid semicolon separator in query'')) query'
         else if key = [] then parseQuery (m, err) query'
         else
           (let (key, value) = Cut key CHR ''='' in
            case QueryUnescape key of
              None \<Rightarrow> parseQuery (m, if err = None then Some (ErrorString ''invalid URL escape'') else err) query'
            | Some key \<Rightarrow>
                (case QueryUnescape value of
                   None \<Rightarrow>
                     parseQuery (m, if err = None then Some (ErrorString ''invalid URL escape'') else err) query'
                 | Some value \<Rightarrow> parseQuery (Add m key value, err) query'))))"
  by pat_completeness auto
termination
proof -
  have shorter: "length (dropWhile P q) - Suc 0 < length q" if "q \<noteq> []" for P and q :: string
    using that
    by (cases q) (auto simp: less_Suc_eq_le intro: le_trans [OF diff_le_self length_dropWhile_le])
  show ?thesis
    by (relation "measure (\<lambda>(st, query). length query)") (auto simp: Cut_def shorter)
qed

definition ParseQuery :: "string \<Rightarrow> Values \<times> error option" where
  "ParseQuery query = parseQuery ([], None) query"

declare parseQuery.simps [simp del]

text \<open>A record equivalent to decoded parameters: one field per key, a slice of strings
  tagged with the key, the fields named \<^verbatim>\<open>F0\<close>, \<^verbatim>\<open>F1\<close>, ...\<close>

fun fields_of_values :: "nat \<Rightarrow> Values \<Rightarrow> field list" where
  "fields_of_values i [] = []"
| "fields_of_values i ((k, vs) # m) =
     Field (''F'' @ FormatUint i) [(''query'', k)] (VSlice (map VString vs)) # fields_of_values (Suc i) m"

definition equivalent_record :: "Values \<Rightarrow> val" where
  "equivalent_record m = VStruct (fields_of_values 0 m)"

section \<open>The JSON decoder\<close>

text \<open>Every call decodes the body with \<^verbatim>\<open>json.NewDecoder(resp.Body).Decode(&responsePayload)\<close>.
  The decoder of package \<^verbatim>\<open>encoding/json\<close> runs the scanner of the package over the stream
  until the first JSON value is complete, and unmarshals that value; the bytes after it stay
  in the stream for a later call of \<^verbatim>\<open>Decode\<close>, which the calls never make. The functions
  below follow the states of that scanner; each returns the input left after what it
  recognizes, or \<open>None\<close> where the scanner reports a syntax error or the input ends.\<close>

text \<open>\<^verbatim>\<open>isSpace\<close> of the scanner: space, tab, carriage return, line feed.\<close>

definition isSpace :: "char \<Rightarrow> bool" where
  "isSpace c \<longleftrightarrow> c = CHR '' '' \<or> c = CHR 0x09 \<or> c = CHR 0x0D \<or> c = CHR 0x0A"

definition isDigit :: "char \<Rightarrow> bool" where
  "isDigit c \<longleftrightarrow> CHR ''0'' \<le> c \<and> c \<le> CHR ''9''"

definition isHex :: "char \<Rightarrow> bool" where
  "isHex c \<longleftrightarrow> isDigit c \<or> (CHR ''a'' \<le> c \<and> c \<le> CHR ''f'') \<or> (CHR ''A'' \<le> c \<and> c \<le> CHR ''F'')"

text \<open>A string, after its opening quote (\<^verbatim>\<open>stateInString\<close>, \<^verbatim>\<open>stateInStringEsc\<close> and
  \<^verbatim>\<open>stateInStringEscU\<close> to \<^verbatim>\<open>stateInStringEscU123\<close>): up to the closing quote, with the
  escapes \<^verbatim>\<open>\" \\ \/ \b \f \n \r \t\<close> and \<^verbatim>\<open>\u\<close> with four hexadecimal digits; a control
  character is an error.\<close>

fun scan_string :: "string \<Rightarrow> string option" where
  "scan_string [] = None"
| "scan_string (c # cs) =
     (if c = CHR 0x22 then Some cs
      else if c = CHR 0x5C then
        (case cs of
           [] \<Rightarrow> None
         | e # es \<Rightarrow>
             if e \<in> set [CHR 0x22, CHR 0x5C, CHR ''/'', CHR ''b'', CHR ''f'', CHR ''n'', CHR ''r'', CHR ''t'']
               then scan_string es
             else if e = CHR ''u'' then
               (case es of
                  h1 # h2 # h3 # h4 # rest \<Rightarrow>
                    if isHex h1 \<and> isHex h2 \<and> isHex h3 \<and> isHex h4 then scan_string rest else None
                | _ \<Rightarrow> None)
             else None)
      else if (of_char c :: nat) < 32 then None
      else scan_string cs)"

text \<open>A number (\<^verbatim>\<open>stateNeg\<close>, \<^verbatim>\<open>state0\<close>, \<^verbatim>\<open>state1\<close>, \<^verbatim>\<open>stateDot\<close>, \<^verbatim>\<open>stateDot0\<close>, \<^verbatim>\<open>stateE\<close>,
  \<^verbatim>\<open>stateESign\<close>, \<^verbatim>\<open>stateE0\<close>): an optional minus sign, a zero or a digit from 1 to 9 followed
  by digits, an optional fraction, an optional exponent.\<close>

definition scan_digits :: "string \<Rightarrow> string option" where
  "scan_digits s = (case s of [] \<Rightarrow> None | c # cs \<Rightarrow> if isDigit c then Some (dropWhile isDigit cs) else None)"

definition scan_exponent :: "string \<Rightarrow> string option" where
  "scan_exponent s =
     (case s of
        [] \<Rightarrow> Some s
      | c # cs \<Rightarrow>
          if c = CHR ''e'' \<or> c = CHR ''E'' then
            (case cs of
               [] \<Rightarrow> None
             | d # ds \<Rightarrow> if d = CHR ''+'' \<or> d = CHR ''-'' then scan_digits ds else scan_digits cs)
          else Some s)"

definition scan_fraction :: "string \<Rightarrow> string option" where
  "scan_fraction s =
     (case s of
        [] \<Rightarrow> Some s
      | c # cs \<Rightarrow>
          if c = CHR ''.'' then (case scan_digits cs of None \<Rightarrow> None | Some rest \<Rightarrow> scan_exponent rest)
          else scan_exponent s)"

definition scan_number :: "string \<Rightarrow> string option" where
  "scan_number s =
     (case (case s of [] \<Rightarrow> s | c # cs \<Rightarrow> if c = CHR ''-'' then cs else s) of
        [] \<Rightarrow> None
      | c # cs \<Rightarrow>
          if c = CHR ''0'' then scan_fraction cs
          else if isDigit c then scan_fraction (dropWhile isDigit cs)
          else None)"

text \<open>The literals \<^verbatim>\<open>true\<close>, \<^verbatim>\<open>false\<close> and \<^verbatim>\<open>null\<close> (\<^verbatim>\<open>stateT\<close> to \<^verbatim>\<open>stateNul\<close>).\<close>

definition scan_literal :: "string \<Rightarrow> string option" where
  "scan_literal s =
     (if take 4 s = ''true'' then Some (drop 4 s)
      else if take 5 s = ''false'' then Some (drop 5 s)
      else if take 4 s = ''null'' then Some (drop 4 s)
      else None)"

text \<open>\<^verbatim>\<open>maxNestingDepth\<close>: opening an object or an array inside that many is an error.\<close>

definition maxNestingDepth :: nat where
  "maxNestingDepth = 10000"

text \<open>A value (\<^verbatim>\<open>stateBeginValue\<close>), the members of an object after its first key starts
  (\<^verbatim>\<open>stateBeginString\<close>, \<^verbatim>\<open>stateEndValue\<close>) and the elements of an array after its first
  element starts. The first argument bounds the number of nested calls, the second is the
  number of objects and arrays that are open. An object or an array is complete at its
  closing bracket; inside one, a value is followed by a comma or the closing bracket.\<close>

fun scan_value :: "nat \<Rightarrow> nat \<Rightarrow> string \<Rightarrow> string option"
and scan_members :: "nat \<Rightarrow> nat \<Rightarrow> string \<Rightarrow> string option"
and scan_elements :: "nat \<Rightarrow> nat \<Rightarrow> string \<Rightarrow> string option" where
  "scan_value 0 depth s = None"
| "scan_value (Suc n) depth s =
     (case dropWhile isSpace s of
        [] \<Rightarrow> None
      | c # cs \<Rightarrow>
          if c = CHR ''{'' then
            (if maxNestingDepth < Suc depth then None
             else case dropWhile isSpace cs of
                    [] \<Rightarrow> None
                  | d # ds \<Rightarrow> if d = CHR ''}'' then Some ds else scan_members n (Suc depth) (d # ds))
          else if c = CHR ''['' then
            (if maxNestingDepth < Suc depth then None
             else case dropWhile isSpace cs of
                    [] \<Rightarrow> None
                  | d # ds \<Rightarrow> if d = CHR '']'' then Some ds else scan_elements n (Suc depth) (d # ds))
          else if c = CHR 0x22 then scan_string cs
          else if c = CHR ''-'' \<or> isDigit c then scan_number (c # cs)
          else scan_literal (c # cs))"
| "scan_members 0 depth s = None"
| "scan_members (Suc n) depth s =
     (case dropWhile isSpace s of
        [] \<Rightarrow> None
      | c # cs \<Rightarrow>
          if c = CHR 0x22 then
            (case scan_string cs of
               None \<Rightarrow> None
             | Some r1 \<Rightarrow>
                 (case dropWhile isSpace r1 of
                    [] \<Rightarrow> None
                  | d # ds \<Rightarrow>
                      if d = CHR '':'' then
                        (case scan_value n depth ds of
                           None \<Rightarrow> None
                         | Some r2 \<Rightarrow>
                             (case dropWhile isSpace r2 of
                                [] \<Rightarrow> None
                              | e # es \<Rightarrow>
                                  if e = CHR '','' then scan_members n depth es
                                  else if e = CHR ''}'' then Some es
                                  else None))
                      else None))
          else None)"
| "scan_elements 0 depth s = None"
| "scan_elements (Suc n) depth s =
     (case scan_value n depth s of
        None \<Rightarrow> None
      | Some r \<Rightarrow>
          (case dropWhile isSpace r of
             [] \<Rightarrow> None
           | e # es \<Rightarrow>
               if e = CHR '','' then scan_elements n depth es
               else if e = CHR '']'' then Some es
               else None))"

text \<open>What \<^verbatim>\<open>Decoder.readValue\<close> isolates from a stream: the first value, white space before
  it skipped, and the rest of the stream. Of two nested calls one consumes a byte, so twice
  the length of the input and one call more are enough. A string, a number or a literal at
  top level ends at the first byte that cannot continue it (\<^verbatim>\<open>stateEndTop\<close> keeps its
  complaint about that byte for the next call) or at the end of the stream.\<close>

definition first_value :: "string \<Rightarrow> (string \<times> string) option" where
  "first_value stream =
     (let s = dropWhile isSpace stream in
      case scan_value (Suc (2 * length s)) 0 s of
        None \<Rightarrow> None
      | Some rest \<Rightarrow> Some (take (length s - length rest) s, rest))"

text \<open>\<^verbatim>\<open>json.Valid\<close>: the whole text is one JSON value, white space around it allowed.\<close>

definition Valid :: "string \<Rightarrow> bool" where
  "Valid data = (case first_value data of None \<Rightarrow> False | Some (v, rest) \<Rightarrow> dropWhile isSpace rest = [])"

text \<open>\<^verbatim>\<open>Decoder.Decode\<close> on a fresh decoder: the syntax error of the stream when it has no
  complete first value (\<open>failure\<close> names it), else what unmarshalling the first value into the
  target gives. The rest of the stream is not looked at.\<close>

definition Decoder_Decode :: "(string \<Rightarrow> error) \<Rightarrow> (string \<Rightarrow> error + 'r) \<Rightarrow> string \<Rightarrow> error + 'r" where
  "Decoder_Decode failure Unmarshal stream =
     (case first_value stream of
        None \<Rightarrow> Inl (failure stream)
      | Some (v, rest) \<Rightarrow> Unmarshal v)"

text \<open>Unmarshalling into a struct that is zero: \<^verbatim>\<open>null\<close> and the empty object store
  nothing, and the struct stays zero; \<open>other\<close> stands for every other value.\<close>

definition unmarshal_struct :: "'r \<Rightarrow> (string \<Rightarrow> error + 'r) \<Rightarrow> string \<Rightarrow> error + 'r" where
  "unmarshal_struct zero other v =
     (if v = ''null'' \<or> (case v of [] \<Rightarrow> False | c # cs \<Rightarrow> c = CHR ''{'' \<and> dropWhile isSpace cs = ''}'')
      then Inr zero else other v)"

text \<open>The target of the deals listing; the fields of a \<^verbatim>\<open>Deal\<close> play no role here.\<close>

typedecl Deal

record ListDealsFilterResponse =
  Deals :: "Deal list"
  HasMore :: bool
  NextPage :: string
  Total :: int

text \<open>An environment whose bodies are texts, read as they are and decoded by
  \<^verbatim>\<open>Decoder.Decode\<close>.\<close>

definition json_env ::
  "(Request \<Rightarrow> error + string Response) \<Rightarrow> (string \<Rightarrow> error) \<Rightarrow> (string \<Rightarrow> error + 'r)
     \<Rightarrow> (unit, string, 'r) env" where
  "json_env transport failure Unmarshal =
     \<lparr>listContactsEndpoint = ''contacts'', createContactEndpoint = ''contacts'',
      updateContactByIDEndpoint = (\<lambda>contactID. ''contacts/'' @ contactID),
      listDealsEndpoint = ''deals'', createDealEndpoint = ''deals'',
      updateDealByIDEndpoint = (\<lambda>dealID. ''deals/'' @ dealID),
      Marshal = (\<lambda>p. Inr ''{}''), NewRequest_rejects = (\<lambda>method url. None), Do = transport,
      ReadAll = Inr, Decode = Decoder_Decode failure Unmarshal\<rparr>"

section \<open>The query encoder: what each field adds\<close>

lemma index_Add: "index (Add v k x) k' = (if k' = k then index v k @ [x] else index v k')"
  by (simp add: index_def Add_def update_conv')

lemma index_slice_loop:
  "index (slice_loop q tag xs) k = index q k @ (if k = tag then map Sprintf_v xs else [])"
  by (induction xs arbitrary: q) (simp_all add: index_Add)

lemma index_field_step:
  "index (field_step q f) k = index q k @ (if k = spec_name f then spec_values (Value f) else [])"
  by (cases "Value f")
     (auto simp: field_step_def spec_name_def Tag_Get_def Let_def index_Add index_slice_loop FormatBool_def
           split: option.splits)

lemma index_fields_loop:
  "index (fields_loop q fs) k =
     index q k @ concat (map (\<lambda>f. if k = spec_name f then spec_values (Value f) else []) fs)"
  by (induction fs arbitrary: q) (simp_all add: index_field_step)

lemma wf_Add: "wf_values v \<Longrightarrow> wf_values (Add v k x)"
  unfolding wf_values_def Add_def
  by (simp add: distinct_update update_conv')

lemma wf_slice_loop: "wf_values q \<Longrightarrow> wf_values (slice_loop q tag xs)"
  by (induction xs arbitrary: q) (simp_all add: wf_Add)

lemma wf_field_step: "wf_values q \<Longrightarrow> wf_values (field_step q f)"
  by (cases "Value f") (auto simp: field_step_def Let_def wf_Add wf_slice_loop)

lemma wf_fields_loop: "wf_values q \<Longrightarrow> wf_values (fields_loop q fs)"
  by (induction fs arbitrary: q) (simp_all add: wf_field_step)

lemma wf_index_keys:
  assumes "wf_values v"
  shows "k \<in> fst ` set v \<longleftrightarrow> index v k \<noteq> []"
proof (cases "map_of v k")
  case None
  then have "k \<notin> fst ` set v" by (simp add: map_of_eq_None_iff)
  with None show ?thesis by (simp add: index_def)
next
  case (Some vs)
  then have "k \<in> fst ` set v" by (force dest: map_of_SomeD)
  moreover from assms Some have "vs \<noteq> []" by (auto simp: wf_values_def)
  ultimately show ?thesis using Some by (simp add: index_def)
qed

lemma field_step_skip: "\<not> encodable (Kind (Value f)) \<Longrightarrow> field_step q f = q"
  by (cases "Value f") (simp_all add: field_step_def Let_def)

lemma fields_loop_filter:
  "fields_loop q (filter (\<lambda>f. encodable (Kind (Value f))) fs) = fields_loop q fs"
  by (induction fs arbitrary: q) (simp_all add: field_step_skip)

section \<open>The encoded string\<close>

lemma ext_simps: "ext buf [] = buf" "ext buf (s # strs) = ext ((if buf \<noteq> [] then buf @ ''&'' else buf) @ s) strs"
  by (simp_all add: ext_def)

lemma ext_append: "ext buf (xs @ ys) = ext (ext buf xs) ys"
  by (simp add: ext_def)

lemma ext_nonempty:
  "buf \<noteq> [] \<Longrightarrow> ext buf strs = buf @ concat (map (\<lambda>s. ''&'' @ s) strs)"
  by (induction strs arbitrary: buf) (simp_all add: ext_simps)

lemma join_Cons: "join sep (x # xs) = x @ concat (map (\<lambda>s. sep @ s) xs)"
  by (induction xs arbitrary: x) simp_all

lemma ext_join: "\<forall>s \<in> set strs. s \<noteq> [] \<Longrightarrow> ext [] strs = join ''&'' strs"
  by (cases strs) (simp_all add: ext_simps ext_nonempty join_Cons)

lemma foldl_write_pair:
  "foldl (write_pair ke) buf xs = ext buf (map (\<lambda>x. ke @ ''='' @ QueryEscape x) xs)"
  by (induction xs arbitrary: buf) (simp_all add: ext_simps write_pair_def)

lemma foldl_write_key:
  "foldl (write_key v) buf ks = ext buf (map pair_text (concat (map (\<lambda>k. map (Pair k) (index v k)) ks)))"
  by (induction ks arbitrary: buf)
     (simp_all add: ext_simps ext_append write_key_def foldl_write_pair pair_text_def comp_def)

lemma Encode_join: "Encode v = join ''&'' (map pair_text (pairs_of v))"
proof (cases "v = []")
  case True
  then show ?thesis by (simp add: Encode_def pairs_of_def)
next
  case False
  have "\<forall>s \<in> set (map pair_text (pairs_of v)). s \<noteq> []"
    by (simp add: pair_text_def)
  then show ?thesis using False
    by (simp add: Encode_def foldl_write_key pairs_of_def ext_join)
qed

lemma concat_map_filter_empty:
  "(\<And>x. x \<in> set xs \<Longrightarrow> \<not> P x \<Longrightarrow> g x = []) \<Longrightarrow> concat (map g (filter P xs)) = concat (map g xs)"
  by (induction xs) simp_all

lemma sort_subset_filter:
  fixes L :: "'a::linorder list"
  assumes "distinct L" "set L \<subseteq> set A"
  shows "sort L = filter (\<lambda>k. k \<in> set L) (sort (remdups A))"
proof (rule sorted_distinct_set_unique)
  show "sorted (sort L)" by simp
  show "distinct (sort L)" using assms by simp
  show "sorted (filter (\<lambda>k. k \<in> set L) (sort (remdups A)))" by (simp add: sorted_wrt_filter)
  show "distinct (filter (\<lambda>k. k \<in> set L) (sort (remdups A)))" by simp
  show "set (sort L) = set (filter (\<lambda>k. k \<in> set L) (sort (remdups A)))" using assms by auto
qed

lemma index_fields_loop_contrib: "index (fields_loop [] fs) k = contrib fs k"
proof -
  have "(\<lambda>f. if k = spec_name f then spec_values (Value f) else [])
      = (\<lambda>f. if spec_name f = k then spec_values (Value f) else [])"
    by auto
  moreover have "index [] k = []" by (simp add: index_def)
  ultimately show ?thesis
    by (simp add: index_fields_loop contrib_def)
qed

lemma wf_empty: "wf_values []"
  by (simp add: wf_values_def)

lemma contrib_nonempty_name: "contrib fs k \<noteq> [] \<Longrightarrow> k \<in> set (map spec_name fs)"
  by (induction fs) (auto simp: contrib_def split: if_splits)

lemma pairs_of_fields_loop: "pairs_of (fields_loop [] fs) = spec_pairs fs"
proof -
  let ?v = "fields_loop [] fs"
  let ?L = "map fst ?v"
  have wf: "wf_values ?v" by (simp add: wf_fields_loop wf_empty)
  then have d: "distinct ?L" by (simp add: wf_values_def)
  have keys: "\<And>k. k \<in> set ?L \<longleftrightarrow> contrib fs k \<noteq> []"
    using wf_index_keys [OF wf] by (simp add: index_fields_loop_contrib)
  then have sub: "set ?L \<subseteq> set (map spec_name fs)"
    using contrib_nonempty_name by blast
  have "pairs_of ?v = concat (map (\<lambda>k. map (Pair k) (contrib fs k)) (sort ?L))"
    by (simp add: pairs_of_def index_fields_loop_contrib)
  also have "\<dots> = concat (map (\<lambda>k. map (Pair k) (contrib fs k))
                       (filter (\<lambda>k. k \<in> set ?L) (sort (remdups (map spec_name fs)))))"
    using sort_subset_filter [OF d sub] by simp
  also have "\<dots> = spec_pairs fs"
    unfolding spec_pairs_def
    by (rule concat_map_filter_empty) (use keys in auto)
  finally show ?thesis .
qed

lemma StructToQueryString_spec:
  "StructToQueryString (VStruct fs) = Inr (join ''&'' (map pair_text (spec_pairs fs)))"
  by (simp add: StructToQueryString_def Encode_join pairs_of_fields_loop)

section \<open>Base-10 texts\<close>

lemma digit_cases: "d < 10 \<Longrightarrow> d \<in> {0, 1, 2, 3, 4, 5, 6, 7, 8, 9::nat}"
  by auto

lemma digit_value_digit_char: "d < 10 \<Longrightarrow> digit_value (digit_char d) = Some d"
  by (drule digit_cases) (auto simp: digit_value_def digit_char_def)

lemma digit_char_keeps: "d < 10 \<Longrightarrow> escape_char (digit_char d) = [digit_char d]"
  by (drule digit_cases) (auto simp: escape_char_def shouldEscape_def digit_char_def)

lemma digit_char_not_minus: "d < 10 \<Longrightarrow> digit_char d \<noteq> CHR ''-''"
  by (drule digit_cases) (auto simp: digit_char_def)

lemma read_digits_snoc:
  "read_digits acc (cs @ [c]) =
     (case read_digits acc cs of
        None \<Rightarrow> None
      | Some a \<Rightarrow> (case digit_value c of None \<Rightarrow> None | Some d \<Rightarrow> Some (10 * a + d)))"
  by (induction cs arbitrary: acc) (simp_all split: option.splits)

lemma read_digits_FormatUint: "read_digits 0 (FormatUint n) = Some n"
proof (induction n rule: FormatUint.induct)
  case (1 n)
  show ?case
  proof (cases "n < 10")
    case True
    then show ?thesis
      by (subst FormatUint.simps) (simp add: digit_value_digit_char)
  next
    case False
    with 1 have "read_digits 0 (FormatUint (n div 10)) = Some (n div 10)" by simp
    with False show ?thesis
      by (subst FormatUint.simps) (simp add: read_digits_snoc digit_value_digit_char)
  qed
qed

lemma FormatUint_nonempty: "FormatUint n \<noteq> []"
  by (subst FormatUint.simps) simp

lemma hd_FormatUint_not_minus: "hd (FormatUint n) \<noteq> CHR ''-''"
proof (induction n rule: FormatUint.induct)
  case (1 n)
  show ?case
  proof (cases "n < 10")
    case True
    then show ?thesis by (subst FormatUint.simps) (simp add: digit_char_not_minus)
  next
    case False
    with 1 have "hd (FormatUint (n div 10)) \<noteq> CHR ''-''" by simp
    with False show ?thesis
      by (subst FormatUint.simps) (simp add: FormatUint_nonempty)
  qed
qed

lemma QueryEscape_FormatUint: "QueryEscape (FormatUint n) = FormatUint n"
proof (induction n rule: FormatUint.induct)
  case (1 n)
  show ?case
  proof (cases "n < 10")
    case True
    then show ?thesis
      by (subst (1 2) FormatUint.simps) (simp add: QueryEscape_def digit_char_keeps)
  next
    case False
    with 1 have "QueryEscape (FormatUint (n div 10)) = FormatUint (n div 10)" by simp
    with False show ?thesis
      by (subst (1 2) FormatUint.simps) (simp add: QueryEscape_def digit_char_keeps)
  qed
qed

lemma read_decimal_FormatInt: "read_decimal (FormatInt i) = Some i"
proof (cases "i < 0")
  case True
  then show ?thesis
    by (simp add: read_decimal_def FormatInt_def FormatUint_nonempty read_digits_FormatUint)
next
  case False
  obtain c cs where eq: "FormatUint (nat i) = c # cs"
    using FormatUint_nonempty [of "nat i"] by (cases "FormatUint (nat i)") auto
  with hd_FormatUint_not_minus [of "nat i"] have "c \<noteq> CHR ''-''" by simp
  with False eq read_digits_FormatUint [of "nat i"] show ?thesis
    by (simp add: read_decimal_def FormatInt_def)
qed

lemma QueryEscape_FormatInt: "QueryEscape (FormatInt i) = FormatInt i"
proof -
  have "QueryEscape (CHR ''-'' # s) = CHR ''-'' # QueryEscape s" for s
    by (simp add: QueryEscape_def escape_char_def shouldEscape_def)
  then show ?thesis
    by (simp add: FormatInt_def QueryEscape_FormatUint)
qed

section \<open>Fields that add nothing\<close>

lemma spec_values_empty_iff: "spec_values v = [] \<longleftrightarrow> \<not> contributes v"
  by (cases v) simp_all

lemma is_zero_not_contributes: "is_zero v \<Longrightarrow> \<not> contributes v"
  by (cases v) simp_all

lemma contrib_member:
  "f \<in> set fs \<Longrightarrow> contrib fs (spec_name f) = [] \<Longrightarrow> spec_values (Value f) = []"
  unfolding contrib_def by (induction fs) (auto split: if_splits)

lemma contrib_all_empty:
  assumes "\<forall>f \<in> set fs. spec_values (Value f) = []"
  shows "contrib fs k = []"
proof -
  have "\<And>f. f \<in> set fs \<Longrightarrow> (if spec_name f = k then spec_values (Value f) else []) = []"
    using assms by simp
  then show ?thesis
    unfolding contrib_def concat_eq_Nil_conv by auto
qed

lemma spec_pairs_empty_iff: "spec_pairs fs = [] \<longleftrightarrow> (\<forall>f \<in> set fs. spec_values (Value f) = [])"
proof
  assume "\<forall>f \<in> set fs. spec_values (Value f) = []"
  then have "\<And>k. contrib fs k = []" by (rule contrib_all_empty)
  then show "spec_pairs fs = []" by (simp add: spec_pairs_def)
next
  assume e: "spec_pairs fs = []"
  show "\<forall>f \<in> set fs. spec_values (Value f) = []"
  proof
    fix f assume f: "f \<in> set fs"
    from e have "\<forall>k \<in> set (map spec_name fs). contrib fs k = []"
      by (simp add: spec_pairs_def)
    with f have "contrib fs (spec_name f) = []" by simp
    with f show "spec_values (Value f) = []" by (rule contrib_member)
  qed
qed

lemma join_empty_iff: "\<forall>s \<in> set strs. s \<noteq> [] \<Longrightarrow> join sep strs = [] \<longleftrightarrow> strs = []"
  by (cases strs) (simp_all add: join_Cons)

lemma pair_text_nonempty: "pair_text p \<noteq> []"
  by (simp add: pair_text_def)

lemma query_empty_iff:
  "StructToQueryString (VStruct fs) = Inr [] \<longleftrightarrow> (\<forall>f \<in> set fs. \<not> contributes (Value f))"
proof -
  have "join ''&'' (map pair_text (spec_pairs fs)) = [] \<longleftrightarrow> map pair_text (spec_pairs fs) = []"
    by (rule join_empty_iff) (simp add: pair_text_nonempty)
  then show ?thesis
    by (simp add: StructToQueryString_spec spec_pairs_empty_iff spec_values_empty_iff)
qed

lemma Add_changes: "Add v k x \<noteq> v"
proof
  assume "Add v k x = v"
  then have "index (Add v k x) k = index v k" by (rule arg_cong)
  then show False by (simp add: index_Add)
qed

lemma field_step_unchanged_iff: "field_step q f = q \<longleftrightarrow> \<not> contributes (Value f)"
proof
  assume "field_step q f = q"
  then have "index (field_step q f) (spec_name f) = index q (spec_name f)" by (rule arg_cong)
  then show "\<not> contributes (Value f)"
    by (simp add: index_field_step spec_values_empty_iff)
next
  assume "\<not> contributes (Value f)"
  then show "field_step q f = q"
    by (cases "Value f") (simp_all add: field_step_def Let_def)
qed

section \<open>The parameters under one key\<close>

lemma contrib_filter:
  "contrib fs k = concat (map (\<lambda>f. spec_values (Value f)) (filter (\<lambda>f. spec_name f = k) fs))"
  unfolding contrib_def by (induction fs) simp_all

lemma same_block: "map snd (filter (\<lambda>p. fst p = k) (map (Pair a) xs)) = (if a = k then xs else [])"
  by (induction xs) auto

lemma filter_key_blocks:
  "distinct L \<Longrightarrow>
     map snd (filter (\<lambda>p. fst p = k) (concat (map (\<lambda>k'. map (Pair k') (g k')) L)))
       = (if k \<in> set L then g k else [])"
  by (induction L) (auto simp: same_block)

lemma spec_pairs_key: "map snd (filter (\<lambda>p. fst p = k) (spec_pairs fs)) = contrib fs k"
proof -
  have "map snd (filter (\<lambda>p. fst p = k) (spec_pairs fs))
          = (if k \<in> set (sort (remdups (map spec_name fs))) then contrib fs k else [])"
    unfolding spec_pairs_def by (rule filter_key_blocks) simp
  moreover have "k \<notin> set (map spec_name fs) \<Longrightarrow> contrib fs k = []"
    using contrib_nonempty_name by blast
  ultimately show ?thesis by auto
qed

lemma set_contrib:
  "set (contrib fs k) = {x. \<exists>f \<in> set fs. spec_name f = k \<and> x \<in> set (spec_values (Value f))}"
  unfolding contrib_def by auto

lemma in_spec_pairs:
  "(k, x) \<in> set (spec_pairs fs) \<longleftrightarrow> (\<exists>f \<in> set fs. spec_name f = k \<and> x \<in> set (spec_values (Value f)))"
proof -
  have "(k, x) \<in> set (spec_pairs fs) \<longleftrightarrow> k \<in> set (map spec_name fs) \<and> x \<in> set (contrib fs k)"
    unfolding spec_pairs_def by auto
  also have "\<dots> \<longleftrightarrow> (\<exists>f \<in> set fs. spec_name f = k \<and> x \<in> set (spec_values (Value f)))"
    unfolding set_contrib by auto
  finally show ?thesis .
qed

lemma fields_loop_append: "fields_loop q (xs @ ys) = fields_loop (fields_loop q xs) ys"
  by (induction xs arbitrary: q) simp_all

section \<open>Evaluation at concrete inputs\<close>

lemmas eval_defs = StructToQueryString_def field_step_def Tag_Get_def Add_def index_def Encode_def
      write_key_def write_pair_def QueryEscape_def escape_char_def shouldEscape_def upperhex_def
      FormatInt_def FormatUint.simps digit_char_def FormatBool_def spec_name_def

section \<open>Every call handles its response the same way\<close>

lemma request_cases:
  assumes "request env s reqBody method endpoint = (res, log)"
  shows "(log = [] \<and> (\<exists>err. res = Inl err)) \<or> (\<exists>req. log = [EvDo req] \<and> res = Do env req)"
  using assms
  by (auto simp: request_def Let_def split: option.splits sum.splits)

lemmas finish_defs = finish_def handled_def RequestError_def ApiError_def BodyReadError_def
  DecodeError_def StatusOK_def StatusCreated_def

lemma CreateContact_finish:
  "CreateContact env s contact =
     finish env ''create contact'' {200, 201} (request env s (Some contact) MethodPost (createContactEndpoint env))"
  by (simp add: CreateContact_def finish_defs split: prod.splits sum.splits)

lemma UpdateContact_finish:
  "UpdateContact env s contactID contact =
     finish env ''update contact'' {200}
       (request env s (Some contact) MethodPut (updateContactByIDEndpoint env contactID))"
  by (simp add: UpdateContact_def finish_defs split: prod.splits sum.splits)

lemma CreateDeal_finish:
  "CreateDeal env s deal =
     finish env ''create deal'' {200, 201} (request env s (Some deal) MethodPost (createDealEndpoint env))"
  by (simp add: CreateDeal_def finish_defs split: prod.splits sum.splits)

lemma UpdateDeal_finish:
  "UpdateDeal env s dealID deal =
     finish env ''update deal'' {200} (request env s (Some deal) MethodPut (updateDealByIDEndpoint env dealID))"
  by (simp add: UpdateDeal_def finish_defs split: prod.splits sum.splits)

lemma ListContactsFilter_finish:
  "ListContactsFilter env s filter' =
     finish env ''list contacts'' {200}
       (request env s None MethodGet
          (fullPath (listContactsEndpoint env) (reflect_ListContactsFilterRequest filter')))"
proof -
  obtain qs where "StructToQueryString (reflect_ListContactsFilterRequest filter') = Inr qs"
    by (simp add: StructToQueryString_def reflect_ListContactsFilterRequest_def)
  then show ?thesis
    by (simp add: ListContactsFilter_def fullPath_def finish_defs Let_def split: prod.splits sum.splits)
qed

lemma ListDealsFilter_finish:
  "ListDealsFilter env s filter' =
     finish env ''list deals'' {200}
       (request env s None MethodGet
          (fullPath (listDealsEndpoint env) (reflect_ListDealsFilterRequest filter')))"
proof -
  obtain qs where "StructToQueryString (reflect_ListDealsFilterRequest filter') = Inr qs"
    by (simp add: StructToQueryString_def reflect_ListDealsFilterRequest_def)
  then show ?thesis
    by (simp add: ListDealsFilter_def fullPath_def finish_defs Let_def split: prod.splits sum.splits)
qed

lemma run_finish:
  "run env s c =
     finish env (action c) (acceptable c) (request env s (payload c) (method_of c) (endpoint_of env c))"
  by (cases c)
     (simp_all add: CreateContact_finish UpdateContact_finish CreateDeal_finish UpdateDeal_finish
        ListContactsFilter_finish ListDealsFilter_finish MethodGet_def MethodPost_def MethodPut_def)

lemma Is_refl: "Is e e"
  by (cases e) simp_all

lemmas pipeline_defs = run.simps ListContactsFilter_def CreateContact_def UpdateContact_def
  ListDealsFilter_def CreateDeal_def UpdateDeal_def request_def NewRequestWithContext_def
  example_env_def example_client_def StatusOK_def StatusCreated_def MethodGet_def MethodPost_def
  MethodPut_def Let_def

section \<open>Failures before the response\<close>

lemma error_not_wrapped_in_itself: "WrapError msg [e0, cause] \<noteq> cause"
proof
  assume "WrapError msg [e0, cause] = cause"
  then have "size (WrapError msg [e0, cause]) = size cause" by (rule arg_cong)
  then show False by simp
qed

lemma request_marshal_fails:
  "Marshal env p = Inl cause \<Longrightarrow> request env s (Some p) method endpoint = (Inl cause, [])"
  by (simp add: request_def)

section \<open>The request that is sent\<close>

lemma Contains_char: "Contains s [c] \<longleftrightarrow> c \<in> set s"
  by (induction s) auto

lemma request_sent:
  assumes "request env s reqBody method endpoint = (res, log)" and "EvDo req \<in> set log"
  shows "req = \<lparr>Method = method,
                 URL = baseUrl s @ ''/'' @ endpoint
                       @ (if CHR ''?'' \<in> set (baseUrl s @ ''/'' @ endpoint) then ''&'' else ''?'')
                       @ ''token='' @ token s,
                 ReqBody = (case reqBody of None \<Rightarrow> None
                            | Some p \<Rightarrow> (case Marshal env p of Inl err \<Rightarrow> None | Inr b \<Rightarrow> Some b)),
                 Header = [(''Content-Type'', ''application/json'')]\<rparr>
         \<and> log = [EvDo req] \<and> res = Do env req"
  using assms
  by (auto simp: request_def NewRequestWithContext_def Let_def Contains_char
           split: option.splits sum.splits if_splits)

section \<open>The URL of a listing call\<close>

lemma filter_key_block: "filter (\<lambda>p. fst p = k) (map (Pair a) xs) = (if a = k then map (Pair a) xs else [])"
  by (induction xs) auto

lemma filter_key_concat:
  "distinct L \<Longrightarrow>
     filter (\<lambda>p. fst p = k) (concat (map (\<lambda>k'. map (Pair k') (g k')) L))
       = (if k \<in> set L then map (Pair k) (g k) else [])"
  by (induction L) (auto simp: filter_key_block)

lemma spec_pairs_filter_key: "filter (\<lambda>p. fst p = k) (spec_pairs fs) = map (Pair k) (contrib fs k)"
proof -
  have "filter (\<lambda>p. fst p = k) (spec_pairs fs)
          = (if k \<in> set (sort (remdups (map spec_name fs))) then map (Pair k) (contrib fs k) else [])"
    unfolding spec_pairs_def by (rule filter_key_concat) simp
  moreover have "k \<notin> set (map spec_name fs) \<Longrightarrow> contrib fs k = []"
    using contrib_nonempty_name by blast
  ultimately show ?thesis by auto
qed

lemma join_snoc: "xs \<noteq> [] \<Longrightarrow> join sep (xs @ [y]) = join sep xs @ sep @ y"
  by (cases xs) (simp_all add: join_Cons)

lemma listing_url:
  assumes q: "StructToQueryString v = Inr (join ''&'' (map pair_text pairs))" and ne: "pairs \<noteq> []"
    and rq: "request env s None method (fullPath endpoint v) = (res, log)" and ev: "EvDo req \<in> set log"
  shows "URL req = baseUrl s @ ''/'' @ endpoint @ ''?''
                   @ join ''&'' (map pair_text pairs @ [''token='' @ token s])"
proof -
  from ne have "join ''&'' (map pair_text pairs) \<noteq> []"
    using join_empty_iff [of "map pair_text pairs" "''&''"] by (simp add: pair_text_nonempty)
  with q have fp: "fullPath endpoint v = endpoint @ ''?'' @ join ''&'' (map pair_text pairs)"
    by (simp add: fullPath_def)
  from ne have "join ''&'' (map pair_text pairs @ [''token='' @ token s])
                  = join ''&'' (map pair_text pairs) @ ''&'' @ ''token='' @ token s"
    by (simp add: join_snoc)
  with request_sent [OF rq ev] fp show ?thesis by auto
qed

lemma contrib_deals_token:
  "ListDealsFilterRequest.Token fd \<noteq> [] \<Longrightarrow>
     reflect_ListDealsFilterRequest fd = VStruct fs \<Longrightarrow> contrib fs ''token'' = [ListDealsFilterRequest.Token fd]"
  by (auto simp: reflect_ListDealsFilterRequest_def filter_field_def contrib_def spec_name_def)

lemma contrib_contacts_token:
  "ListContactsFilterRequest.Token fc \<noteq> [] \<Longrightarrow>
     reflect_ListContactsFilterRequest fc = VStruct fs \<Longrightarrow> contrib fs ''token'' = [ListContactsFilterRequest.Token fc]"
  by (auto simp: reflect_ListContactsFilterRequest_def filter_field_def contrib_def spec_name_def)

lemma run_request_log:
  assumes run: "run env s c = (r, log)" and ev: "EvDo req \<in> set log"
  shows "\<exists>res log0. request env s (payload c) (method_of c) (endpoint_of env c) = (res, log0)
           \<and> EvDo req \<in> set log0"
proof -
  obtain res0 log0 where rq: "request env s (payload c) (method_of c) (endpoint_of env c) = (res0, log0)"
    by (cases "request env s (payload c) (method_of c) (endpoint_of env c)")
  have "EvDo req \<notin> set (snd (handled env (action c) (acceptable c) resp))" for resp
    by (simp add: handled_def split: sum.splits)
  with run ev rq have "EvDo req \<in> set log0"
    by (auto simp: run_finish finish_def split: sum.splits)
  with rq show ?thesis by blast
qed

section \<open>Decoding what was encoded\<close>

lemma hex_cases: "k < 16 \<Longrightarrow> k \<in> {0, 1, 2, 3, 4, 5, 6, 7, 8, 9, 10, 11, 12, 13, 14, 15::nat}"
  by simp arith

lemma upperhex_ishex: "k < 16 \<Longrightarrow> ishex (upperhex ! k)"
  by (drule hex_cases) (auto simp: upperhex_def ishex_def)

lemma upperhex_unhex: "k < 16 \<Longrightarrow> unhex (upperhex ! k) = k"
  by (drule hex_cases) (auto simp: upperhex_def unhex_def)

lemma upperhex_plain: "k < 16 \<Longrightarrow> upperhex ! k \<notin> {CHR ''&'', CHR ''='', CHR '';''}"
  by (drule hex_cases) (auto simp: upperhex_def)

lemma hi_nibble: "of_char (c::char) div 16 < (16::nat)"
  using nat_of_char_less_256 [of c] by (intro less_mult_imp_div_less) simp

lemma escape_char_plain: "c' \<in> set (escape_char c) \<Longrightarrow> c' \<notin> {CHR ''&'', CHR ''='', CHR '';''}"
  using upperhex_plain [OF hi_nibble, of c] upperhex_plain [of "of_char c mod 16"]
  by (auto simp: escape_char_def shouldEscape_def split: if_splits)

lemma QueryEscape_plain: "c' \<in> set (QueryEscape s) \<Longrightarrow> c' \<notin> {CHR ''&'', CHR ''='', CHR '';''}"
  unfolding QueryEscape_def using escape_char_plain by auto

lemma unescape_escape_char:
  "QueryUnescape (escape_char c @ rest) = map_option ((#) c) (QueryUnescape rest)"
proof (cases "c = CHR '' ''")
  case True
  then show ?thesis by (simp add: escape_char_def)
next
  case False
  show ?thesis
  proof (cases "shouldEscape c")
    case True
    have "char_of (of_char c div 16 * 16 + of_char c mod 16 :: nat) = c"
      by simp
    with True False show ?thesis
      by (simp add: escape_char_def upperhex_ishex upperhex_unhex hi_nibble)
  next
    case False
    then have "c \<noteq> CHR ''%''" "c \<noteq> CHR ''+''"
      by (auto simp: shouldEscape_def)
    with False \<open>c \<noteq> CHR '' ''\<close> show ?thesis
      by (simp add: escape_char_def)
  qed
qed

lemma QueryUnescape_QueryEscape_append:
  "QueryUnescape (QueryEscape s @ rest) = map_option ((@) s) (QueryUnescape rest)"
proof (induction s)
  case Nil
  show ?case by (simp add: QueryEscape_def option.map_ident)
next
  case (Cons c s)
  have "QueryUnescape (QueryEscape (c # s) @ rest) = QueryUnescape (escape_char c @ (QueryEscape s @ rest))"
    by (simp add: QueryEscape_def)
  also have "\<dots> = map_option ((#) c) (QueryUnescape (QueryEscape s @ rest))"
    by (rule unescape_escape_char)
  also have "\<dots> = map_option ((@) (c # s)) (QueryUnescape rest)"
  proof -
    have "(\<lambda>x. c # s @ x) = (@) (c # s)" by auto
    then show ?thesis by (simp add: Cons.IH option.map_comp comp_def)
  qed
  finally show ?case .
qed

lemma QueryUnescape_QueryEscape: "QueryUnescape (QueryEscape s) = Some s"
  using QueryUnescape_QueryEscape_append [of s "[]"] by simp

lemma Cut_found:
  assumes "sep \<notin> set a"
  shows "Cut (a @ sep # b) sep = (a, b)"
proof -
  from assms have "\<forall>x \<in> set a. x \<noteq> sep" by auto
  then show ?thesis by (simp add: Cut_def)
qed

lemma Cut_not_found:
  assumes "sep \<notin> set a"
  shows "Cut a sep = (a, [])"
proof -
  from assms have "\<forall>x \<in> set a. x \<noteq> sep" by auto
  then have "takeWhile (\<lambda>c. c \<noteq> sep) a = a" "dropWhile (\<lambda>c. c \<noteq> sep) a = []"
    by simp_all
  then show ?thesis by (simp only: Cut_def drop.simps)
qed

lemma Cut_tail:
  assumes "sep \<notin> set a" and "T = [] \<or> hd T = sep"
  shows "Cut (a @ T) sep = (a, drop 1 T)"
proof (cases T)
  case Nil
  with assms show ?thesis by (simp add: Cut_not_found)
next
  case (Cons c T')
  with assms have "c = sep" by simp
  with Cons assms show ?thesis by (simp add: Cut_found)
qed

lemma parse_one_pair:
  assumes "T = [] \<or> hd T = CHR ''&''"
  shows "parseQuery (m, err) (pair_text p @ T) = parseQuery (Add m (fst p) (snd p), err) (drop 1 T)"
proof -
  have amp: "CHR ''&'' \<notin> set (pair_text p)" and semi: "CHR '';'' \<notin> set (pair_text p)"
    using QueryEscape_plain [of _ "fst p"] QueryEscape_plain [of _ "snd p"]
    by (auto simp: pair_text_def)
  have eq: "CHR ''='' \<notin> set (QueryEscape (fst p))"
    using QueryEscape_plain [of _ "fst p"] by auto
  have c1: "Cut (pair_text p @ T) CHR ''&'' = (pair_text p, drop 1 T)"
    using amp assms by (rule Cut_tail)
  have c2: "Cut (pair_text p) CHR ''='' = (QueryEscape (fst p), QueryEscape (snd p))"
    unfolding pair_text_def using eq by (simp add: Cut_found)
  show ?thesis
    by (subst parseQuery.simps)
       (simp add: c1 c2 semi pair_text_nonempty QueryUnescape_QueryEscape)
qed

lemma parse_pairs:
  "parseQuery (m, err) (join ''&'' (map pair_text ps)) = (foldl (\<lambda>m p. Add m (fst p) (snd p)) m ps, err)"
proof (induction ps arbitrary: m)
  case Nil
  show ?case by (subst parseQuery.simps) simp
next
  case (Cons p ps)
  let ?T = "concat (map (\<lambda>s. ''&'' @ s) (map pair_text ps))"
  have T: "?T = [] \<or> hd ?T = CHR ''&''" by (cases ps) simp_all
  have d: "drop 1 ?T = join ''&'' (map pair_text ps)" by (cases ps) (simp_all add: join_Cons)
  have "parseQuery (m, err) (join ''&'' (map pair_text (p # ps))) = parseQuery (m, err) (pair_text p @ ?T)"
    by (simp add: join_Cons)
  also have "\<dots> = parseQuery (Add m (fst p) (snd p), err) (drop 1 ?T)"
    using T by (rule parse_one_pair)
  also have "\<dots> = parseQuery (Add m (fst p) (snd p), err) (join ''&'' (map pair_text ps))"
    by (simp only: d)
  also have "\<dots> = (foldl (\<lambda>m p. Add m (fst p) (snd p)) m (p # ps), err)"
    by (simp add: Cons.IH)
  finally show ?case .
qed

lemma index_foldl_Add:
  "index (foldl (\<lambda>m p. Add m (fst p) (snd p)) m ps) k = index m k @ map snd (filter (\<lambda>p. fst p = k) ps)"
  by (induction ps arbitrary: m) (auto simp: index_Add)

lemma wf_foldl_Add: "wf_values m \<Longrightarrow> wf_values (foldl (\<lambda>m p. Add m (fst p) (snd p)) m ps)"
  by (induction ps arbitrary: m) (simp_all add: wf_Add)

lemma pairs_of_cong:
  assumes "wf_values v" and "wf_values v'" and "\<And>k. index v k = index v' k"
  shows "pairs_of v = pairs_of v'"
proof -
  have "k \<in> fst ` set v \<longleftrightarrow> k \<in> fst ` set v'" for k
    using wf_index_keys [OF assms(1), of k] wf_index_keys [OF assms(2), of k] assms(3) [of k] by simp
  then have "set (map fst v) = set (map fst v')"
    by (simp only: set_map) blast
  moreover have "distinct (map fst v)" "distinct (map fst v')"
    using assms(1,2) by (simp_all add: wf_values_def)
  ultimately have "sort (map fst v) = sort (map fst v')"
    by (intro sorted_distinct_set_unique) simp_all
  with assms(3) show ?thesis by (simp add: pairs_of_def)
qed

lemma index_distinct:
  "distinct (map fst m) \<Longrightarrow> concat (map (\<lambda>(k', vs). if k' = k then vs else []) m) = index m k"
proof (induction m)
  case Nil
  show ?case by (simp add: index_def)
next
  case (Cons a m)
  obtain k' vs where a: "a = (k', vs)" by (cases a)
  show ?case
  proof (cases "k' = k")
    case True
    with Cons a have "k \<notin> fst ` set m" by auto
    then have "map_of m k = None" by (simp add: map_of_eq_None_iff)
    then have "index m k = []" by (simp add: index_def)
    with Cons a True show ?thesis by (simp add: index_def)
  next
    case False
    with Cons a show ?thesis by (simp add: index_def)
  qed
qed

lemma contrib_fields_of_values:
  assumes "\<forall>k' \<in> fst ` set m. k' \<noteq> [] \<and> k' \<noteq> ''-''"
  shows "contrib (fields_of_values i m) k = concat (map (\<lambda>(k', vs). if k' = k then vs else []) m)"
  using assms
proof (induction i m rule: fields_of_values.induct)
  case (1 i)
  show ?case by (simp add: contrib_def)
next
  case (2 i k' vs m)
  then have "contrib (fields_of_values (Suc i) m) k = concat (map (\<lambda>(k', vs). if k' = k then vs else []) m)"
    by simp
  moreover from 2 have "k' \<noteq> []" "k' \<noteq> ''-''" by simp_all
  then have "spec_name (Field (''F'' @ FormatUint i) [(''query'', k')] (VSlice (map VString vs))) = k'"
    by (simp add: spec_name_def)
  moreover have "map Sprintf_v (map VString vs) = vs"
    by (induction vs) simp_all
  ultimately show ?case
    by (simp add: contrib_def)
qed

lemma spec_name_usable:
  "field.Name f \<noteq> [] \<Longrightarrow> field.Name f \<noteq> ''-'' \<Longrightarrow> spec_name f \<noteq> [] \<and> spec_name f \<noteq> ''-''"
  by (simp add: spec_name_def split: option.splits)

lemma ParseQuery_Encode:
  "ParseQuery (join ''&'' (map pair_text ps)) = (foldl (\<lambda>m p. Add m (fst p) (snd p)) [] ps, None)"
  by (simp add: ParseQuery_def parse_pairs)

lemma index_Nil: "index [] k = []"
  by (simp add: index_def)

lemmas parse_defs = ParseQuery_def parseQuery.simps Cut_def ishex_def unhex_def equivalent_record_def
  pairs_of_def

section \<open>A call whose request is answered\<close>

lemma request_answered:
  assumes "serialized env c body"
    and "NewRequest_rejects env (method_of c) (URL (built_request env s c body)) = None"
  shows "request env s (payload c) (method_of c) (endpoint_of env c)
           = (Do env (built_request env s c body), [EvDo (built_request env s c body)])"
proof -
  let ?u = "baseUrl s @ ''/'' @ endpoint_of env c"
  let ?url = "?u @ (if Contains ?u ''?'' then ''&'' else ''?'') @ ''token='' @ token s"
  have url: "URL (built_request env s c body) = ?url"
    by (simp add: built_request_def Contains_char)
  have body: "(case payload c of
                 None \<Rightarrow> Inr None
               | Some b \<Rightarrow> (case Marshal env b of Inl err \<Rightarrow> Inl err | Inr m \<Rightarrow> Inr (Some m)))
              = Inr body"
    using assms(1) by (auto simp: serialized_def split: option.splits sum.splits)
  have new: "NewRequestWithContext env (method_of c) ?url body
               = Inr \<lparr>Method = method_of c, URL = ?url, ReqBody = body, Header = []\<rparr>"
    using assms(2) unfolding url by (simp add: NewRequestWithContext_def)
  have built: "built_request env s c body
                 = \<lparr>Method = method_of c, URL = ?url, ReqBody = body,
                    Header = [(''Content-Type'', ''application/json'')]\<rparr>"
    by (simp add: built_request_def Contains_char)
  show ?thesis
    unfolding request_def body Let_def sum.case new built
    by simp
qed

lemma run_answered:
  assumes "serialized env c body"
    and "NewRequest_rejects env (method_of c) (URL (built_request env s c body)) = None"
    and "Do env (built_request env s c body) = Inr resp"
  shows "run env s c = (fst (handled env (action c) (acceptable c) resp),
                        EvDo (built_request env s c body) # snd (handled env (action c) (acceptable c) resp))"
  using request_answered [OF assms(1,2)] assms(3)
  by (simp add: run_finish finish_def)

lemma first_value_empty_object: "first_value (''{}'' @ rest) = Some (''{}'', rest)"
  by (simp add: first_value_def isSpace_def maxNestingDepth_def)

lemma Decode_empty_object: "Decoder_Decode failure (unmarshal_struct zero other) (''{}'' @ rest) = Inr zero"
  unfolding Decoder_Decode_def first_value_empty_object
  by (simp add: unmarshal_struct_def isSpace_def)

section \<open>The scanner consumes its input\<close>

text \<open>What a scanner function returns is a proper end part of its input, and the bound on
  the nested calls in \<open>first_value\<close> never cuts a value short: what any bound recognizes, that
  bound recognizes too.\<close>

lemma dropWhile_le: "length (dropWhile P s) \<le> length s"
  by (induction s) simp_all

lemma scan_string_shorter: "scan_string s = Some r \<Longrightarrow> length r < length s"
proof (induction s arbitrary: r rule: length_induct)
  case (1 s)
  have IH: "scan_string ys = Some r \<Longrightarrow> length ys < length s \<Longrightarrow> length r < length s" for ys
    using 1(1) by fastforce
  show ?case
  proof (cases s)
    case Nil
    with 1(2) show ?thesis by simp
  next
    case (Cons c cs)
    show ?thesis
    proof (cases "c = CHR 0x22")
      case True
      with 1(2) Cons show ?thesis by simp
    next
      case nq: False
      show ?thesis
      proof (cases "c = CHR 0x5C")
        case nb: False
        with nq 1(2) Cons have "scan_string cs = Some r"
          by (simp split: if_splits)
        from IH [OF this] Cons show ?thesis by simp
      next
        case True
        show ?thesis
        proof (cases cs)
          case Nil
          with True nq 1(2) Cons show ?thesis by simp
        next
          case es: (Cons e es)
          let ?S = "set [CHR 0x22, CHR 0x5C, CHR ''/'', CHR ''b'', CHR ''f'', CHR ''n'', CHR ''r'', CHR ''t'']"
          show ?thesis
          proof (cases "e \<in> ?S")
            case True
            with \<open>c = CHR 0x5C\<close> 1(2) Cons es have "scan_string es = Some r"
              by (simp del: set_simps)
            from IH [OF this] Cons es show ?thesis by simp
          next
            case False
            with \<open>c = CHR 0x5C\<close> 1(2) Cons es
            obtain h1 h2 h3 h4 rest where "es = h1 # h2 # h3 # h4 # rest" "scan_string rest = Some r"
              by (auto simp del: set_simps split: if_splits list.splits)
            with IH [of rest] Cons es show ?thesis by simp
          qed
        qed
      qed
    qed
  qed
qed

lemma scan_digits_shorter: "scan_digits s = Some r \<Longrightarrow> length r < length s"
  using dropWhile_le [of isDigit "tl s"]
  by (cases s) (auto simp: scan_digits_def less_Suc_eq_le split: if_splits)

lemma scan_exponent_le: "scan_exponent s = Some r \<Longrightarrow> length r \<le> length s"
  by (auto simp: scan_exponent_def split: list.splits if_splits dest!: scan_digits_shorter)

lemma scan_fraction_le: "scan_fraction s = Some r \<Longrightarrow> length r \<le> length s"
  by (auto simp: scan_fraction_def split: list.splits if_splits option.splits
           dest!: scan_digits_shorter scan_exponent_le)

lemma scan_number_shorter: "scan_number s = Some r \<Longrightarrow> length r < length s"
proof -
  assume a: "scan_number s = Some r"
  define t where "t = (case s of [] \<Rightarrow> s | c # cs \<Rightarrow> if c = CHR ''-'' then cs else s)"
  have ts: "length t \<le> length s"
    by (simp add: t_def split: list.splits)
  from a obtain c cs where t: "t = c # cs"
    and r: "(if c = CHR ''0'' then scan_fraction cs
             else if isDigit c then scan_fraction (dropWhile isDigit cs) else None) = Some r"
    unfolding scan_number_def t_def [symmetric] by (cases t) simp_all
  from r have "length r \<le> length cs"
    using dropWhile_le [of isDigit cs]
    by (auto split: if_splits dest!: scan_fraction_le)
  with t ts show ?thesis by simp
qed

lemma scan_literal_shorter: "scan_literal s = Some r \<Longrightarrow> length r < length s"
  by (cases s) (auto simp: scan_literal_def split: if_splits)

lemma dropWhile_Cons_shorter: "dropWhile P x = a # y \<Longrightarrow> length y < length x"
  using dropWhile_le [of P x] by simp

lemma scan_shorter:
  "(scan_value n d s = Some r \<longrightarrow> length r < length s)
   \<and> (scan_members n d s = Some r \<longrightarrow> length r < length s)
   \<and> (scan_elements n d s = Some r \<longrightarrow> length r < length s)"
proof (induction n arbitrary: d s r)
  case 0
  show ?case by simp
next
  case (Suc n)
  have V: "scan_value n d s = Some r \<Longrightarrow> length r < length s" for d s r
    using Suc by blast
  have M: "scan_members n d s = Some r \<Longrightarrow> length r < length s" for d s r
    using Suc by blast
  have E: "scan_elements n d s = Some r \<Longrightarrow> length r < length s" for d s r
    using Suc by blast
  have 1: "length r < length s" if a: "scan_value (Suc n) d s = Some r"
  proof -
    from a obtain c cs where s': "dropWhile isSpace s = c # cs"
      by (cases "dropWhile isSpace s") simp_all
    note l1 = dropWhile_Cons_shorter [OF s']
    consider (obj) "c = CHR ''{''" | (arr) "c \<noteq> CHR ''{''" "c = CHR ''[''"
      | (str) "c \<noteq> CHR ''{''" "c \<noteq> CHR ''[''" "c = CHR 0x22"
      | (num) "c \<noteq> CHR ''{''" "c \<noteq> CHR ''[''" "c \<noteq> CHR 0x22" "c = CHR ''-'' \<or> isDigit c"
      | (lit) "c \<noteq> CHR ''{''" "c \<noteq> CHR ''[''" "c \<noteq> CHR 0x22" "\<not> (c = CHR ''-'' \<or> isDigit c)"
      by blast
    then show ?thesis
    proof cases
      case obj
      with a s' obtain e es where c': "dropWhile isSpace cs = e # es"
        and r: "(if e = CHR ''}'' then Some es else scan_members n (Suc d) (e # es)) = Some r"
        by (auto split: if_splits list.splits)
      note l2 = dropWhile_Cons_shorter [OF c']
      from r have "length r \<le> length es"
        by (auto split: if_splits dest!: M)
      with l1 l2 show ?thesis by simp
    next
      case arr
      with a s' obtain e es where c': "dropWhile isSpace cs = e # es"
        and r: "(if e = CHR '']'' then Some es else scan_elements n (Suc d) (e # es)) = Some r"
        by (auto split: if_splits list.splits)
      note l2 = dropWhile_Cons_shorter [OF c']
      from r have "length r \<le> length es"
        by (auto split: if_splits dest!: E)
      with l1 l2 show ?thesis by simp
    next
      case str
      with a s' have "scan_string cs = Some r" by simp
      from scan_string_shorter [OF this] l1 show ?thesis by simp
    next
      case num
      with a s' have "scan_number (c # cs) = Some r" by simp
      from scan_number_shorter [OF this] l1 show ?thesis by simp
    next
      case lit
      with a s' have "scan_literal (c # cs) = Some r" by simp
      from scan_literal_shorter [OF this] l1 show ?thesis by simp
    qed
  qed
  have 2: "length r < length s" if a: "scan_members (Suc n) d s = Some r"
  proof -
    from a obtain c cs where s': "dropWhile isSpace s = c # cs"
      by (cases "dropWhile isSpace s") simp_all
    from a s' have c: "c = CHR 0x22" by (simp split: if_splits)
    from a s' c obtain r1 where r1: "scan_string cs = Some r1"
      by (cases "scan_string cs") simp_all
    from a s' c r1 obtain e es where e: "dropWhile isSpace r1 = e # es"
      by (cases "dropWhile isSpace r1") simp_all
    from a s' c r1 e have e': "e = CHR '':''" by (simp split: if_splits)
    from a s' c r1 e e' obtain r2 where r2: "scan_value n d es = Some r2"
      by (cases "scan_value n d es") simp_all
    from a s' c r1 e e' r2 obtain f fs where f: "dropWhile isSpace r2 = f # fs"
      by (cases "dropWhile isSpace r2") simp_all
    from a s' c r1 e e' r2 f
    have r: "(if f = CHR '','' then scan_members n d fs else if f = CHR ''}'' then Some fs else None) = Some r"
      by simp
    then have "length r \<le> length fs"
      by (auto split: if_splits dest!: M)
    with dropWhile_Cons_shorter [OF s'] scan_string_shorter [OF r1] dropWhile_Cons_shorter [OF e]
      V [OF r2] dropWhile_Cons_shorter [OF f]
    show ?thesis by simp
  qed
  have 3: "length r < length s" if a: "scan_elements (Suc n) d s = Some r"
  proof -
    from a obtain r2 where r2: "scan_value n d s = Some r2"
      by (cases "scan_value n d s") simp_all
    from a r2 obtain f fs where f: "dropWhile isSpace r2 = f # fs"
      by (cases "dropWhile isSpace r2") simp_all
    from a r2 f
    have r: "(if f = CHR '','' then scan_elements n d fs else if f = CHR '']'' then Some fs else None) = Some r"
      by simp
    then have "length r \<le> length fs"
      by (auto split: if_splits dest!: E)
    with V [OF r2] dropWhile_Cons_shorter [OF f]
    show ?thesis by simp
  qed
  from 1 2 3 show ?case by blast
qed

lemma scan_value_shorter: "scan_value n d s = Some r \<Longrightarrow> length r < length s"
  using scan_shorter by blast

lemma scan_fuel:
  "(scan_value n d s = Some r \<longrightarrow> (\<forall>m. 2 * length s < m \<longrightarrow> scan_value m d s = Some r))
   \<and> (scan_members n d s = Some r \<longrightarrow> (\<forall>m. Suc (2 * length s) < m \<longrightarrow> scan_members m d s = Some r))
   \<and> (scan_elements n d s = Some r \<longrightarrow> (\<forall>m. Suc (2 * length s) < m \<longrightarrow> scan_elements m d s = Some r))"
proof (induction n arbitrary: d s r)
  case 0
  show ?case by simp
next
  case (Suc n)
  have V: "scan_value n d s = Some r \<Longrightarrow> 2 * length s < m \<Longrightarrow> scan_value m d s = Some r" for d s r m
    using Suc by blast
  have M: "scan_members n d s = Some r \<Longrightarrow> Suc (2 * length s) < m \<Longrightarrow> scan_members m d s = Some r" for d s r m
    using Suc by blast
  have E: "scan_elements n d s = Some r \<Longrightarrow> Suc (2 * length s) < m \<Longrightarrow> scan_elements m d s = Some r" for d s r m
    using Suc by blast
  have 1: "scan_value m d s = Some r" if a: "scan_value (Suc n) d s = Some r" and m: "2 * length s < m" for m
  proof -
    from m obtain k where k: "m = Suc k" and ks: "2 * length s \<le> k"
      by (cases m) simp_all
    from a obtain c cs where s': "dropWhile isSpace s = c # cs"
      by (cases "dropWhile isSpace s") simp_all
    note l1 = dropWhile_Cons_shorter [OF s']
    consider (obj) "c = CHR ''{''" | (arr) "c \<noteq> CHR ''{''" "c = CHR ''[''"
      | (other) "c \<noteq> CHR ''{''" "c \<noteq> CHR ''[''"
      by blast
    then show ?thesis
    proof cases
      case obj
      with a s' have dp: "\<not> maxNestingDepth < Suc d"
        by (auto split: if_splits)
      from obj a s' obtain e es where c': "dropWhile isSpace cs = e # es"
        and r: "(if e = CHR ''}'' then Some es else scan_members n (Suc d) (e # es)) = Some r"
        by (auto split: if_splits list.splits)
      note l2 = dropWhile_Cons_shorter [OF c']
      from l1 l2 ks have "Suc (2 * length (e # es)) < k" by simp
      with r have "(if e = CHR ''}'' then Some es else scan_members k (Suc d) (e # es)) = Some r"
        by (auto split: if_splits dest: M)
      with obj s' c' dp k show ?thesis by simp
    next
      case arr
      with a s' have dp: "\<not> maxNestingDepth < Suc d"
        by (auto split: if_splits)
      from arr a s' obtain e es where c': "dropWhile isSpace cs = e # es"
        and r: "(if e = CHR '']'' then Some es else scan_elements n (Suc d) (e # es)) = Some r"
        by (auto split: if_splits list.splits)
      note l2 = dropWhile_Cons_shorter [OF c']
      from l1 l2 ks have "Suc (2 * length (e # es)) < k" by simp
      with r have "(if e = CHR '']'' then Some es else scan_elements k (Suc d) (e # es)) = Some r"
        by (auto split: if_splits dest: E)
      with arr s' c' dp k show ?thesis by simp
    next
      case other
      with a s' k show ?thesis by simp
    qed
  qed
  have 2: "scan_members m d s = Some r" if a: "scan_members (Suc n) d s = Some r" and m: "Suc (2 * length s) < m" for m
  proof -
    from m obtain k where k: "m = Suc k" and ks: "Suc (2 * length s) \<le> k"
      by (cases m) simp_all
    from a obtain c cs where s': "dropWhile isSpace s = c # cs"
      by (cases "dropWhile isSpace s") simp_all
    from a s' have c: "c = CHR 0x22" by (simp split: if_splits)
    from a s' c obtain r1 where r1: "scan_string cs = Some r1"
      by (cases "scan_string cs") simp_all
    from a s' c r1 obtain e es where e: "dropWhile isSpace r1 = e # es"
      by (cases "dropWhile isSpace r1") simp_all
    from a s' c r1 e have e': "e = CHR '':''" by (simp split: if_splits)
    from a s' c r1 e e' obtain r2 where r2: "scan_value n d es = Some r2"
      by (cases "scan_value n d es") simp_all
    from a s' c r1 e e' r2 obtain f fs where f: "dropWhile isSpace r2 = f # fs"
      by (cases "dropWhile isSpace r2") simp_all
    from a s' c r1 e e' r2 f
    have r: "(if f = CHR '','' then scan_members n d fs else if f = CHR ''}'' then Some fs else None) = Some r"
      by simp
    from dropWhile_Cons_shorter [OF s'] scan_string_shorter [OF r1] dropWhile_Cons_shorter [OF e] ks
    have les: "2 * length es < k" by simp
    from scan_value_shorter [OF r2] dropWhile_Cons_shorter [OF f] les
    have lfs: "Suc (2 * length fs) < k" by simp
    from V [OF r2 les] have r2': "scan_value k d es = Some r2" .
    from r lfs
    have "(if f = CHR '','' then scan_members k d fs else if f = CHR ''}'' then Some fs else None) = Some r"
      by (auto split: if_splits dest: M)
    with s' c r1 e e' r2' f k show ?thesis by simp
  qed
  have 3: "scan_elements m d s = Some r" if a: "scan_elements (Suc n) d s = Some r" and m: "Suc (2 * length s) < m" for m
  proof -
    from m obtain k where k: "m = Suc k" and ks: "Suc (2 * length s) \<le> k"
      by (cases m) simp_all
    from a obtain r2 where r2: "scan_value n d s = Some r2"
      by (cases "scan_value n d s") simp_all
    from a r2 obtain f fs where f: "dropWhile isSpace r2 = f # fs"
      by (cases "dropWhile isSpace r2") simp_all
    from a r2 f
    have r: "(if f = CHR '','' then scan_elements n d fs else if f = CHR '']'' then Some fs else None) = Some r"
      by simp
    from scan_value_shorter [OF r2] dropWhile_Cons_shorter [OF f] ks
    have lfs: "Suc (2 * length fs) < k" by simp
    from ks have "2 * length s < k" by simp
    from V [OF r2 this] have r2': "scan_value k d s = Some r2" .
    from r lfs
    have "(if f = CHR '','' then scan_elements k d fs else if f = CHR '']'' then Some fs else None) = Some r"
      by (auto split: if_splits dest: E)
    with r2' f k show ?thesis by simp
  qed
  from 1 2 3 show ?case by blast
qed

lemma scan_value_fuel:
  "scan_value n d s = Some r \<Longrightarrow> 2 * length s < m \<Longrightarrow> scan_value m d s = Some r"
  using scan_fuel by blast

lemma scan_value_any_fuel:
  assumes "scan_value n d s = Some r"
  shows "scan_value (Suc (2 * length s)) d s = Some r"
  by (rule scan_value_fuel [OF assms]) simp

lemma scan_value_more_fuel:
  assumes "2 * length s < n"
  shows "scan_value n d s = scan_value (Suc (2 * length s)) d s"
proof (cases "scan_value n d s")
  case (Some r)
  with scan_value_any_fuel [OF Some] show ?thesis by (simp only:)
next
  case None
  show ?thesis
  proof (cases "scan_value (Suc (2 * length s)) d s")
    case (Some r)
    from scan_value_fuel [OF Some assms] None show ?thesis by (simp only:) simp
  next
    case n: None
    with None show ?thesis by (simp only:)
  qed
qed

lemma drop_Cons_ex: "\<exists>k. r = drop k xs \<Longrightarrow> \<exists>k. r = drop k (x # xs)"
  by (metis drop_Suc_Cons)

lemma drop_trans_ex: "\<exists>k. a = drop k b \<Longrightarrow> \<exists>k. b = drop k c \<Longrightarrow> \<exists>k. a = drop k c"
  by (metis drop_drop)

lemma drop_dropWhile_ex: "\<exists>k. dropWhile P xs = drop k xs"
  by (metis dropWhile_eq_drop)

lemma drop_dropWhile_Cons_ex: "dropWhile P x = a # y \<Longrightarrow> \<exists>k. y = drop k x"
  by (metis dropWhile_eq_drop drop_Suc_Cons drop_drop drop0)

lemma drop_refl_ex: "\<exists>k. r = drop k r"
  by (metis drop0)

lemma scan_string_drop: "scan_string s = Some r \<Longrightarrow> \<exists>k. r = drop k s"
proof (induction s arbitrary: r rule: length_induct)
  case (1 s)
  have IH: "scan_string ys = Some r \<Longrightarrow> length ys < length s \<Longrightarrow> \<exists>k. r = drop k ys" for ys
    using 1(1) by fastforce
  show ?case
  proof (cases s)
    case Nil
    with 1(2) show ?thesis by simp
  next
    case (Cons c cs)
    show ?thesis
    proof (cases "c = CHR 0x22")
      case True
      with 1(2) Cons have "r = drop 1 s" by simp
      then show ?thesis ..
    next
      case nq: False
      show ?thesis
      proof (cases "c = CHR 0x5C")
        case nb: False
        with nq 1(2) Cons have "scan_string cs = Some r"
          by (simp split: if_splits)
        from IH [OF this] Cons show ?thesis by (simp add: drop_Cons_ex)
      next
        case True
        show ?thesis
        proof (cases cs)
          case Nil
          with True nq 1(2) Cons show ?thesis by simp
        next
          case es: (Cons e es)
          let ?S = "set [CHR 0x22, CHR 0x5C, CHR ''/'', CHR ''b'', CHR ''f'', CHR ''n'', CHR ''r'', CHR ''t'']"
          show ?thesis
          proof (cases "e \<in> ?S")
            case True
            with \<open>c = CHR 0x5C\<close> 1(2) Cons es have "scan_string es = Some r"
              by (simp del: set_simps)
            from IH [OF this] Cons es show ?thesis by (simp add: drop_Cons_ex)
          next
            case False
            with \<open>c = CHR 0x5C\<close> 1(2) Cons es
            obtain h1 h2 h3 h4 rest where "es = h1 # h2 # h3 # h4 # rest" "scan_string rest = Some r"
              by (auto simp del: set_simps split: if_splits list.splits)
            with IH [of rest] Cons es show ?thesis by (simp add: drop_Cons_ex)
          qed
        qed
      qed
    qed
  qed
qed

lemma scan_digits_drop: "scan_digits s = Some r \<Longrightarrow> \<exists>k. r = drop k s"
  by (cases s) (auto simp: scan_digits_def drop_Cons_ex drop_dropWhile_ex split: if_splits)

lemma scan_exponent_drop: "scan_exponent s = Some r \<Longrightarrow> \<exists>k. r = drop k s"
proof (cases s)
  case Nil
  assume "scan_exponent s = Some r"
  with Nil show ?thesis by (simp add: scan_exponent_def)
next
  case (Cons c cs)
  assume a: "scan_exponent s = Some r"
  show ?thesis
  proof (cases "c = CHR ''e'' \<or> c = CHR ''E''")
    case False
    with a Cons have "r = s" by (auto simp: scan_exponent_def)
    then show ?thesis by (simp add: drop_refl_ex)
  next
    case True
    with a Cons obtain d ds where ds: "cs = d # ds"
      and r: "(if d = CHR ''+'' \<or> d = CHR ''-'' then scan_digits ds else scan_digits cs) = Some r"
      by (cases cs) (auto simp: scan_exponent_def)
    have "\<exists>k. r = drop k cs"
    proof (cases "d = CHR ''+'' \<or> d = CHR ''-''")
      case True
      with r have "scan_digits ds = Some r" by simp
      from scan_digits_drop [OF this] show ?thesis unfolding ds by (rule drop_Cons_ex)
    next
      case False
      with r have "scan_digits cs = Some r" by simp
      then show ?thesis by (rule scan_digits_drop)
    qed
    then show ?thesis unfolding Cons by (rule drop_Cons_ex)
  qed
qed

lemma scan_fraction_drop: "scan_fraction s = Some r \<Longrightarrow> \<exists>k. r = drop k s"
proof (cases s)
  case Nil
  assume "scan_fraction s = Some r"
  with Nil show ?thesis by (simp add: scan_fraction_def)
next
  case (Cons c cs)
  assume a: "scan_fraction s = Some r"
  show ?thesis
  proof (cases "c = CHR ''.''")
    case True
    with a Cons obtain r1 where "scan_digits cs = Some r1" "scan_exponent r1 = Some r"
      by (auto simp: scan_fraction_def split: option.splits)
    then have "\<exists>k. r = drop k cs"
      by (blast intro: drop_trans_ex dest: scan_digits_drop scan_exponent_drop)
    with Cons show ?thesis by (simp add: drop_Cons_ex)
  next
    case False
    with a Cons have "scan_exponent s = Some r" by (simp add: scan_fraction_def)
    then show ?thesis by (rule scan_exponent_drop)
  qed
qed

lemma scan_number_drop: "scan_number s = Some r \<Longrightarrow> \<exists>k. r = drop k s"
proof -
  assume a: "scan_number s = Some r"
  define t where "t = (case s of [] \<Rightarrow> s | c # cs \<Rightarrow> if c = CHR ''-'' then cs else s)"
  have ts: "\<exists>k. t = drop k s"
    by (auto simp: t_def drop_refl_ex split: list.splits intro: exI [of _ 1] exI [of _ 0])
  from a obtain c cs where t: "t = c # cs"
    and r: "(if c = CHR ''0'' then scan_fraction cs
             else if isDigit c then scan_fraction (dropWhile isDigit cs) else None) = Some r"
    unfolding scan_number_def t_def [symmetric] by (cases t) simp_all
  from r have "\<exists>k. r = drop k cs"
    by (auto split: if_splits dest!: scan_fraction_drop intro: drop_trans_ex drop_dropWhile_ex)
  then have "\<exists>k. r = drop k t" unfolding t by (rule drop_Cons_ex)
  from this ts show ?thesis by (rule drop_trans_ex)
qed

lemma scan_literal_drop: "scan_literal s = Some r \<Longrightarrow> \<exists>k. r = drop k s"
  by (auto simp: scan_literal_def split: if_splits)

lemma scan_drop:
  "(scan_value n d s = Some r \<longrightarrow> (\<exists>k. r = drop k s))
   \<and> (scan_members n d s = Some r \<longrightarrow> (\<exists>k. r = drop k s))
   \<and> (scan_elements n d s = Some r \<longrightarrow> (\<exists>k. r = drop k s))"
proof (induction n arbitrary: d s r)
  case 0
  show ?case by simp
next
  case (Suc n)
  have V: "scan_value n d s = Some r \<Longrightarrow> \<exists>k. r = drop k s" for d s r
    using Suc by blast
  have M: "scan_members n d s = Some r \<Longrightarrow> \<exists>k. r = drop k s" for d s r
    using Suc by blast
  have E: "scan_elements n d s = Some r \<Longrightarrow> \<exists>k. r = drop k s" for d s r
    using Suc by blast
  have 1: "\<exists>k. r = drop k s" if a: "scan_value (Suc n) d s = Some r"
  proof -
    from a obtain c cs where s': "dropWhile isSpace s = c # cs"
      by (cases "dropWhile isSpace s") simp_all
    note l1 = drop_dropWhile_Cons_ex [OF s']
    have l0: "\<exists>k. c # cs = drop k s"
      using drop_dropWhile_ex [of isSpace s] unfolding s' .
    consider (obj) "c = CHR ''{''" | (arr) "c \<noteq> CHR ''{''" "c = CHR ''[''"
      | (str) "c \<noteq> CHR ''{''" "c \<noteq> CHR ''[''" "c = CHR 0x22"
      | (num) "c \<noteq> CHR ''{''" "c \<noteq> CHR ''[''" "c \<noteq> CHR 0x22" "c = CHR ''-'' \<or> isDigit c"
      | (lit) "c \<noteq> CHR ''{''" "c \<noteq> CHR ''[''" "c \<noteq> CHR 0x22" "\<not> (c = CHR ''-'' \<or> isDigit c)"
      by blast
    then show ?thesis
    proof cases
      case obj
      with a s' obtain e es where c': "dropWhile isSpace cs = e # es"
        and r: "(if e = CHR ''}'' then Some es else scan_members n (Suc d) (e # es)) = Some r"
        by (auto split: if_splits list.splits)
      note l2 = drop_dropWhile_Cons_ex [OF c']
      have l3: "\<exists>k. e # es = drop k cs"
        using drop_dropWhile_ex [of isSpace cs] unfolding c' .
      have "\<exists>k. r = drop k cs"
      proof (cases "e = CHR ''}''")
        case True
        with r l2 show ?thesis by simp
      next
        case False
        with r have "scan_members n (Suc d) (e # es) = Some r" by simp
        from M [OF this] l3 show ?thesis by (rule drop_trans_ex)
      qed
      from this l1 show ?thesis by (rule drop_trans_ex)
    next
      case arr
      with a s' obtain e es where c': "dropWhile isSpace cs = e # es"
        and r: "(if e = CHR '']'' then Some es else scan_elements n (Suc d) (e # es)) = Some r"
        by (auto split: if_splits list.splits)
      note l2 = drop_dropWhile_Cons_ex [OF c']
      have l3: "\<exists>k. e # es = drop k cs"
        using drop_dropWhile_ex [of isSpace cs] unfolding c' .
      have "\<exists>k. r = drop k cs"
      proof (cases "e = CHR '']''")
        case True
        with r l2 show ?thesis by simp
      next
        case False
        with r have "scan_elements n (Suc d) (e # es) = Some r" by simp
        from E [OF this] l3 show ?thesis by (rule drop_trans_ex)
      qed
      from this l1 show ?thesis by (rule drop_trans_ex)
    next
      case str
      with a s' have "scan_string cs = Some r" by simp
      from scan_string_drop [OF this] l1 show ?thesis by (rule drop_trans_ex)
    next
      case num
      with a s' have "scan_number (c # cs) = Some r" by simp
      from scan_number_drop [OF this] l0 show ?thesis by (rule drop_trans_ex)
    next
      case lit
      with a s' have "scan_literal (c # cs) = Some r" by simp
      from scan_literal_drop [OF this] l0 show ?thesis by (rule drop_trans_ex)
    qed
  qed
  have 2: "\<exists>k. r = drop k s" if a: "scan_members (Suc n) d s = Some r"
  proof -
    from a obtain c cs where s': "dropWhile isSpace s = c # cs"
      by (cases "dropWhile isSpace s") simp_all
    from a s' have c: "c = CHR 0x22" by (simp split: if_splits)
    from a s' c obtain r1 where r1: "scan_string cs = Some r1"
      by (cases "scan_string cs") simp_all
    from a s' c r1 obtain e es where e: "dropWhile isSpace r1 = e # es"
      by (cases "dropWhile isSpace r1") simp_all
    from a s' c r1 e have e': "e = CHR '':''" by (simp split: if_splits)
    from a s' c r1 e e' obtain r2 where r2: "scan_value n d es = Some r2"
      by (cases "scan_value n d es") simp_all
    from a s' c r1 e e' r2 obtain f fs where f: "dropWhile isSpace r2 = f # fs"
      by (cases "dropWhile isSpace r2") simp_all
    from a s' c r1 e e' r2 f
    have r: "(if f = CHR '','' then scan_members n d fs else if f = CHR ''}'' then Some fs else None) = Some r"
      by simp
    then have "\<exists>k. r = drop k fs"
      by (auto split: if_splits simp: drop_refl_ex dest!: M)
    from this drop_dropWhile_Cons_ex [OF f] have "\<exists>k. r = drop k r2" by (rule drop_trans_ex)
    from this V [OF r2] have "\<exists>k. r = drop k es" by (rule drop_trans_ex)
    from this drop_dropWhile_Cons_ex [OF e] have "\<exists>k. r = drop k r1" by (rule drop_trans_ex)
    from this scan_string_drop [OF r1] have "\<exists>k. r = drop k cs" by (rule drop_trans_ex)
    from this drop_dropWhile_Cons_ex [OF s'] show ?thesis by (rule drop_trans_ex)
  qed
  have 3: "\<exists>k. r = drop k s" if a: "scan_elements (Suc n) d s = Some r"
  proof -
    from a obtain r2 where r2: "scan_value n d s = Some r2"
      by (cases "scan_value n d s") simp_all
    from a r2 obtain f fs where f: "dropWhile isSpace r2 = f # fs"
      by (cases "dropWhile isSpace r2") simp_all
    from a r2 f
    have r: "(if f = CHR '','' then scan_elements n d fs else if f = CHR '']'' then Some fs else None) = Some r"
      by simp
    then have "\<exists>k. r = drop k fs"
      by (auto split: if_splits simp: drop_refl_ex dest!: E)
    from this drop_dropWhile_Cons_ex [OF f] have "\<exists>k. r = drop k r2" by (rule drop_trans_ex)
    from this V [OF r2] show ?thesis by (rule drop_trans_ex)
  qed
  from 1 2 3 show ?case by blast
qed

lemma scan_value_drop: "scan_value n d s = Some r \<Longrightarrow> \<exists>k. r = drop k s"
  using scan_drop by blast

lemma first_value_splits:
  assumes "first_value stream = Some (v, rest)"
  shows "v @ rest = dropWhile isSpace stream \<and> v \<noteq> []"
proof -
  define s where "s = dropWhile isSpace stream"
  define res where "res = scan_value (Suc (2 * length s)) 0 s"
  from assms have "(case res of None \<Rightarrow> None
                    | Some r \<Rightarrow> Some (take (length s - length r) s, r)) = Some (v, rest)"
    unfolding first_value_def Let_def res_def s_def .
  then have "res = Some rest" and v: "v = take (length s - length rest) s"
    by (cases res; simp)+
  then have r: "scan_value (Suc (2 * length s)) 0 s = Some rest"
    unfolding res_def by (simp only:)
  from scan_value_shorter [OF r] v have ne: "v \<noteq> []" by auto
  from scan_value_drop [OF r] obtain k where k: "rest = drop k s" ..
  have "rest = drop (length s - length rest) s"
  proof (cases "k \<le> length s")
    case True
    with k have "length s - length rest = k" by simp
    with k show ?thesis by (simp only:)
  next
    case False
    with k scan_value_shorter [OF r] show ?thesis by simp
  qed
  with v have "v @ rest = s"
    by (metis append_take_drop_id)
  with ne show ?thesis unfolding s_def by (simp only: simp_thms)
qed

section \<open>Status codes outside the acceptable set\<close>

text \<open>
  Claim C1. Take any of the six calls, with the request it builds: its method, the base URL
  joined with its endpoint and the token, the serialized payload and the JSON content type.
  Let the transport answer that request with a response whose status code the call does
  not accept. If the body can be read, the call returns the error wrapping
  \<^verbatim>\<open>ErrApiReturnedError\<close> and an error whose text is the body, byte for byte, with the status
  code in decimal in its message. If reading the body fails, the call returns the error
  wrapping \<^verbatim>\<open>ErrReadResponseBody\<close> and the cause. In both cases the call sends that one
  request, reads the body and closes it, and never decodes it.
\<close>

theorem rejected_status_is_api_error:
  assumes "serialized env c body"
    and "NewRequest_rejects env (method_of c) (URL (built_request env s c body)) = None"
    and "Do env (built_request env s c body) = Inr resp"
    and "StatusCode resp \<notin> acceptable c"
  shows "(\<forall>content. ReadAll env (Body resp) = Inr content \<longrightarrow>
            (\<exists>e. run env s c = (Inl e, [EvDo (built_request env s c body), EvReadAll, EvClose])
               \<and> e = WrapError (''api returned an error status: failed to '' @ action c @ '' (status: ''
                         @ FormatInt (StatusCode resp) @ ''): '' @ content)
                       [ErrApiReturnedError, ErrorString content]
               \<and> Is e ErrApiReturnedError \<and> \<not> Is e ErrDecodeResponse \<and> \<not> Is e ErrReadResponseBody))
         \<and> (\<forall>cause. ReadAll env (Body resp) = Inl cause \<longrightarrow>
            (\<exists>e. run env s c = (Inl e, [EvDo (built_request env s c body), EvReadAll, EvClose])
               \<and> e = WrapError (''failed to read response body: failed to '' @ action c @ '' (status: ''
                         @ FormatInt (StatusCode resp) @ ''), read response body error: '' @ Error cause)
                       [ErrReadResponseBody, cause]
               \<and> Is e ErrReadResponseBody \<and> Is e cause))
         \<and> EvDecode \<notin> set (snd (run env s c))"
proof (cases "ReadAll env (Body resp)")
  case (Inl cause)
  with run_answered [OF assms(1-3)] assms(4) show ?thesis
    by (simp add: handled_def BodyReadError_def Is_refl)
next
  case (Inr content)
  with run_answered [OF assms(1-3)] assms(4) show ?thesis
    by (simp add: handled_def ApiError_def)
qed

text \<open>The six calls answered with status 404 and the body \<^verbatim>\<open>not found\<close>, and the deals
  listing answered with status 500 and a body that cannot be read.\<close>

theorem rejected_status_is_api_error_witness:
  "run (example_env (\<lambda>p. Inr ''{}'') (\<lambda>req. Inr \<lparr>StatusCode = 404, Body = Inr ''not found''\<rparr>))
       example_client (ListContactsFilterCall example_contacts_filter)
     = (Inl (WrapError ''api returned an error status: failed to list contacts (status: 404): not found''
               [ErrApiReturnedError, ErrorString ''not found'']),
        [EvDo \<lparr>Method = ''GET'', URL = ''https://crm.example/api/v1/contacts?limit=5&page=1&token=T0'',
                ReqBody = None, Header = [(''Content-Type'', ''application/json'')]\<rparr>,
         EvReadAll, EvClose])
   \<and> run (example_env (\<lambda>p. Inr ''{}'') (\<lambda>req. Inr \<lparr>StatusCode = 404, Body = Inr ''not found''\<rparr>))
       example_client (CreateContactCall ())
     = (Inl (WrapError ''api returned an error status: failed to create contact (status: 404): not found''
               [ErrApiReturnedError, ErrorString ''not found'']),
        [EvDo \<lparr>Method = ''POST'', URL = ''https://crm.example/api/v1/contacts?token=T0'',
                ReqBody = Some ''{}'', Header = [(''Content-Type'', ''application/json'')]\<rparr>,
         EvReadAll, EvClose])
   \<and> run (example_env (\<lambda>p. Inr ''{}'') (\<lambda>req. Inr \<lparr>StatusCode = 404, Body = Inr ''not found''\<rparr>))
       example_client (UpdateContactCall ''7'' ())
     = (Inl (WrapError ''api returned an error status: failed to update contact (status: 404): not found''
               [ErrApiReturnedError, ErrorString ''not found'']),
        [EvDo \<lparr>Method = ''PUT'', URL = ''https://crm.example/api/v1/contacts/7?token=T0'',
                ReqBody = Some ''{}'', Header = [(''Content-Type'', ''application/json'')]\<rparr>,
         EvReadAll, EvClose])
   \<and> run (example_env (\<lambda>p. Inr ''{}'') (\<lambda>req. Inr \<lparr>StatusCode = 404, Body = Inr ''not found''\<rparr>))
       example_client (ListDealsFilterCall example_deals_filter)
     = (Inl (WrapError ''api returned an error status: failed to list deals (status: 404): not found''
               [ErrApiReturnedError, ErrorString ''not found'']),
        [EvDo \<lparr>Method = ''GET'', URL = ''https://crm.example/api/v1/deals?limit=5&token=abc&token=T0'',
                ReqBody = None, Header = [(''Content-Type'', ''application/json'')]\<rparr>,
         EvReadAll, EvClose])
   \<and> run (example_env (\<lambda>p. Inr ''{}'') (\<lambda>req. Inr \<lparr>StatusCode = 404, Body = Inr ''not found''\<rparr>))
       example_client (CreateDealCall ())
     = (Inl (WrapError ''api returned an error status: failed to create deal (status: 404): not found''
               [ErrApiReturnedError, ErrorString ''not found'']),
        [EvDo \<lparr>Method = ''POST'', URL = ''https://crm.example/api/v1/deals?token=T0'',
                ReqBody = Some ''{}'', Header = [(''Content-Type'', ''application/json'')]\<rparr>,
         EvReadAll, EvClose])
   \<and> run (example_env (\<lambda>p. Inr ''{}'') (\<lambda>req. Inr \<lparr>StatusCode = 404, Body = Inr ''not found''\<rparr>))
       example_client (UpdateDealCall ''42'' ())
     = (Inl (WrapError ''api returned an error status: failed to update deal (status: 404): not found''
               [ErrApiReturnedError, ErrorString ''not found'']),
        [EvDo \<lparr>Method = ''PUT'', URL = ''https://crm.example/api/v1/deals/42?token=T0'',
                ReqBody = Some ''{}'', Header = [(''Content-Type'', ''application/json'')]\<rparr>,
         EvReadAll, EvClose])
   \<and> run (example_env (\<lambda>p. Inr ''{}'') (\<lambda>req. Inr \<lparr>StatusCode = 500, Body = Inl (ErrorString ''unexpected EOF'')\<rparr>))
       example_client (ListDealsFilterCall example_deals_filter)
     = (Inl (WrapError ''failed to read response body: failed to list deals (status: 500), read response body error: unexpected EOF''
               [ErrReadResponseBody, ErrorString ''unexpected EOF'']),
        [EvDo \<lparr>Method = ''GET'', URL = ''https://crm.example/api/v1/deals?limit=5&token=abc&token=T0'',
                ReqBody = None, Header = [(''Content-Type'', ''application/json'')]\<rparr>,
         EvReadAll, EvClose])
   \<and> serialized (example_env (\<lambda>p. Inr ''{}'') (\<lambda>req. Inr \<lparr>StatusCode = 404, Body = Inr ''not found''\<rparr>)) (CreateDealCall ()) (Some ''{}'')
   \<and> StatusCode \<lparr>StatusCode = 404, Body = Inr ''not found'' :: error + string\<rparr>
         \<notin> acceptable (CreateDealCall ())"
  using rejected_status_is_api_error
      [where env = "example_env (\<lambda>p. Inr ''{}'') (\<lambda>req. Inr \<lparr>StatusCode = 404, Body = Inr ''not found''\<rparr>)"
         and s = example_client and c = "ListContactsFilterCall example_contacts_filter" and body = "None"
         and resp = "\<lparr>StatusCode = 404, Body = Inr ''not found''\<rparr>"]
    rejected_status_is_api_error
      [where env = "example_env (\<lambda>p. Inr ''{}'') (\<lambda>req. Inr \<lparr>StatusCode = 404, Body = Inr ''not found''\<rparr>)"
         and s = example_client and c = "CreateContactCall ()" and body = "Some ''{}''"
         and resp = "\<lparr>StatusCode = 404, Body = Inr ''not found''\<rparr>"]
    rejected_status_is_api_error
      [where env = "example_env (\<lambda>p. Inr ''{}'') (\<lambda>req. Inr \<lparr>StatusCode = 404, Body = Inr ''not found''\<rparr>)"
         and s = example_client and c = "UpdateContactCall ''7'' ()" and body = "Some ''{}''"
         and resp = "\<lparr>StatusCode = 404, Body = Inr ''not found''\<rparr>"]
    rejected_status_is_api_error
      [where env = "example_env (\<lambda>p. Inr ''{}'') (\<lambda>req. Inr \<lparr>StatusCode = 404, Body = Inr ''not found''\<rparr>)"
         and s = example_client and c = "ListDealsFilterCall example_deals_filter" and body = "None"
         and resp = "\<lparr>StatusCode = 404, Body = Inr ''not found''\<rparr>"]
    rejected_status_is_api_error
      [where env = "example_env (\<lambda>p. Inr ''{}'') (\<lambda>req. Inr \<lparr>StatusCode = 404, Body = Inr ''not found''\<rparr>)"
         and s = example_client and c = "CreateDealCall ()" and body = "Some ''{}''"
         and resp = "\<lparr>StatusCode = 404, Body = Inr ''not found''\<rparr>"]
    rejected_status_is_api_error
      [where env = "example_env (\<lambda>p. Inr ''{}'') (\<lambda>req. Inr \<lparr>StatusCode = 404, Body = Inr ''not found''\<rparr>)"
         and s = example_client and c = "UpdateDealCall ''42'' ()" and body = "Some ''{}''"
         and resp = "\<lparr>StatusCode = 404, Body = Inr ''not found''\<rparr>"]
    rejected_status_is_api_error
      [where env = "example_env (\<lambda>p. Inr ''{}'') (\<lambda>req. Inr \<lparr>StatusCode = 500, Body = Inl (ErrorString ''unexpected EOF'')\<rparr>)"
         and s = example_client and c = "ListDealsFilterCall example_deals_filter" and body = "None"
         and resp = "\<lparr>StatusCode = 500, Body = Inl (ErrorString ''unexpected EOF'')\<rparr>"]
  by (simp add: pipeline_defs eval_defs reflect_ListContactsFilterRequest_def
        reflect_ListDealsFilterRequest_def filter_field_def example_contacts_filter_def
        example_deals_filter_def built_request_def serialized_def fullPath_def)

section \<open>Bodies that do not decode\<close>

text \<open>
  Claim C2, as the code has it. Take any of the six calls, with the request it builds, and
  let the transport answer that request with a response whose status code the call
  accepts. The call sends that one request, decodes the body and closes it. If
  \<^verbatim>\<open>Decoder.Decode\<close> fails, the call returns the error wrapping \<^verbatim>\<open>ErrDecodeResponse\<close> and the
  cause; if it succeeds, the call returns what was decoded. With the decoder of
  \<^verbatim>\<open>encoding/json\<close> this is a decode error exactly when the body has no complete first JSON
  value or that value does not unmarshal into the target; what follows the first value is
  ignored, so a body that starts with \<^verbatim>\<open>{}\<close> gives the zero-valued payload whatever comes
  after.
\<close>

theorem undecodable_body_is_decode_error:
  assumes "serialized env c body"
    and "NewRequest_rejects env (method_of c) (URL (built_request env s c body)) = None"
    and "Do env (built_request env s c body) = Inr resp"
    and "StatusCode resp \<in> acceptable c"
  shows "(\<forall>cause. Decode env (Body resp) = Inl cause \<longrightarrow>
            (\<exists>e. run env s c = (Inl e, [EvDo (built_request env s c body), EvDecode, EvClose])
               \<and> e = WrapError (''failed to decode api response: error decoding '' @ action c
                         @ '' response: '' @ Error cause)
                       [ErrDecodeResponse, cause]
               \<and> Is e ErrDecodeResponse \<and> Is e cause))
         \<and> (\<forall>v. Decode env (Body resp) = Inr v \<longrightarrow>
               run env s c = (Inr v, [EvDo (built_request env s c body), EvDecode, EvClose]))
         \<and> (\<forall>failure Unmarshal stream.
               Decode env (Body resp) = Decoder_Decode failure Unmarshal stream \<longrightarrow>
               run env s c =
                 (case first_value stream of
                    None \<Rightarrow> Inl (DecodeError (action c) (failure stream))
                  | Some (v, rest) \<Rightarrow>
                      (case Unmarshal v of
                         Inl cause \<Rightarrow> Inl (DecodeError (action c) cause)
                       | Inr p \<Rightarrow> Inr p),
                  [EvDo (built_request env s c body), EvDecode, EvClose]))
         \<and> (\<forall>failure zero other rest.
               Decode env (Body resp) = Decoder_Decode failure (unmarshal_struct zero other) (''{}'' @ rest) \<longrightarrow>
               run env s c = (Inr zero, [EvDo (built_request env s c body), EvDecode, EvClose]))"
proof -
  have run: "run env s c =
               (case Decode env (Body resp) of
                  Inl cause \<Rightarrow> Inl (DecodeError (action c) cause)
                | Inr v \<Rightarrow> Inr v,
                [EvDo (built_request env s c body), EvDecode, EvClose])"
    using run_answered [OF assms(1-3)] assms(4) by (simp add: handled_def split: sum.splits)
  have 1: "\<forall>v. Decode env (Body resp) = Inr v \<longrightarrow>
               run env s c = (Inr v, [EvDo (built_request env s c body), EvDecode, EvClose])"
    by (simp add: run)
  have 2: "\<forall>failure zero other rest.
               Decode env (Body resp) = Decoder_Decode failure (unmarshal_struct zero other) (''{}'' @ rest) \<longrightarrow>
               run env s c = (Inr zero, [EvDo (built_request env s c body), EvDecode, EvClose])"
  proof (intro allI impI)
    fix failure :: "string \<Rightarrow> error" and zero other rest
    assume "Decode env (Body resp) = Decoder_Decode failure (unmarshal_struct zero other) (''{}'' @ rest)"
    then have "Decode env (Body resp) = Inr zero"
      by (simp only: Decode_empty_object)
    with 1 show "run env s c = (Inr zero, [EvDo (built_request env s c body), EvDecode, EvClose])"
      by blast
  qed
  have 3: "\<forall>cause. Decode env (Body resp) = Inl cause \<longrightarrow>
            (\<exists>e. run env s c = (Inl e, [EvDo (built_request env s c body), EvDecode, EvClose])
               \<and> e = WrapError (''failed to decode api response: error decoding '' @ action c
                         @ '' response: '' @ Error cause)
                       [ErrDecodeResponse, cause]
               \<and> Is e ErrDecodeResponse \<and> Is e cause)"
    by (simp add: run DecodeError_def Is_refl)
  have 4: "\<forall>failure Unmarshal stream.
               Decode env (Body resp) = Decoder_Decode failure Unmarshal stream \<longrightarrow>
               run env s c =
                 (case first_value stream of
                    None \<Rightarrow> Inl (DecodeError (action c) (failure stream))
                  | Some (v, rest) \<Rightarrow>
                      (case Unmarshal v of
                         Inl cause \<Rightarrow> Inl (DecodeError (action c) cause)
                       | Inr p \<Rightarrow> Inr p),
                  [EvDo (built_request env s c body), EvDecode, EvClose])"
    by (simp add: run Decoder_Decode_def split: option.splits prod.splits)
  from 1 2 3 4 show ?thesis by blast
qed

text \<open>The six calls answered with status 200 and the body \<^verbatim>\<open><html>\<close>, which has no first
  value, and the contacts listing answered with an empty object and a line feed.\<close>

theorem undecodable_body_is_decode_error_witness:
  "run (json_env (\<lambda>req. Inr \<lparr>StatusCode = 200, Body = ''<html>''\<rparr>)
            (\<lambda>stream. ErrorString ''invalid character'')
            (unmarshal_struct \<lparr>Deals = [], HasMore = False, NextPage = [], Total = 0\<rparr>
               (\<lambda>v. Inl (ErrorString ''json: cannot unmarshal''))))
       example_client (ListContactsFilterCall example_contacts_filter)
     = (Inl (WrapError ''failed to decode api response: error decoding list contacts response: invalid character''
               [ErrDecodeResponse, ErrorString ''invalid character'']),
        [EvDo \<lparr>Method = ''GET'', URL = ''https://crm.example/api/v1/contacts?limit=5&page=1&token=T0'',
                ReqBody = None, Header = [(''Content-Type'', ''application/json'')]\<rparr>,
         EvDecode, EvClose])
   \<and> run (json_env (\<lambda>req. Inr \<lparr>StatusCode = 200, Body = ''<html>''\<rparr>)
            (\<lambda>stream. ErrorString ''invalid character'')
            (unmarshal_struct \<lparr>Deals = [], HasMore = False, NextPage = [], Total = 0\<rparr>
               (\<lambda>v. Inl (ErrorString ''json: cannot unmarshal''))))
       example_client (CreateContactCall ())
     = (Inl (WrapError ''failed to decode api response: error decoding create contact response: invalid character''
               [ErrDecodeResponse, ErrorString ''invalid character'']),
        [EvDo \<lparr>Method = ''POST'', URL = ''https://crm.example/api/v1/contacts?token=T0'',
                ReqBody = Some ''{}'', Header = [(''Content-Type'', ''application/json'')]\<rparr>,
         EvDecode, EvClose])
   \<and> run (json_env (\<lambda>req. Inr \<lparr>StatusCode = 200, Body = ''<html>''\<rparr>)
            (\<lambda>stream. ErrorString ''invalid character'')
            (unmarshal_struct \<lparr>Deals = [], HasMore = False, NextPage = [], Total = 0\<rparr>
               (\<lambda>v. Inl (ErrorString ''json: cannot unmarshal''))))
       example_client (UpdateContactCall ''7'' ())
     = (Inl (WrapError ''failed to decode api response: error decoding update contact response: invalid character''
               [ErrDecodeResponse, ErrorString ''invalid character'']),
        [EvDo \<lparr>Method = ''PUT'', URL = ''https://crm.example/api/v1/contacts/7?token=T0'',
                ReqBody = Some ''{}'', Header = [(''Content-Type'', ''application/json'')]\<rparr>,
         EvDecode, EvClose])
   \<and> run (json_env (\<lambda>req. Inr \<lparr>StatusCode = 200, Body = ''<html>''\<rparr>)
            (\<lambda>stream. ErrorString ''invalid character'')
            (unmarshal_struct \<lparr>Deals = [], HasMore = False, NextPage = [], Total = 0\<rparr>
               (\<lambda>v. Inl (ErrorString ''json: cannot unmarshal''))))
       example_client (ListDealsFilterCall example_deals_filter)
     = (Inl (WrapError ''failed to decode api response: error decoding list deals response: invalid character''
               [ErrDecodeResponse, ErrorString ''invalid character'']),
        [EvDo \<lparr>Method = ''GET'', URL = ''https://crm.example/api/v1/deals?limit=5&token=abc&token=T0'',
                ReqBody = None, Header = [(''Content-Type'', ''application/json'')]\<rparr>,
         EvDecode, EvClose])
   \<and> run (json_env (\<lambda>req. Inr \<lparr>StatusCode = 200, Body = ''<html>''\<rparr>)
            (\<lambda>stream. ErrorString ''invalid character'')
            (unmarshal_struct \<lparr>Deals = [], HasMore = False, NextPage = [], Total = 0\<rparr>
               (\<lambda>v. Inl (ErrorString ''json: cannot unmarshal''))))
       example_client (CreateDealCall ())
     = (Inl (WrapError ''failed to decode api response: error decoding create deal response: invalid character''
               [ErrDecodeResponse, ErrorString ''invalid character'']),
        [EvDo \<lparr>Method = ''POST'', URL = ''https://crm.example/api/v1/deals?token=T0'',
                ReqBody = Some ''{}'', Header = [(''Content-Type'', ''application/json'')]\<rparr>,
         EvDecode, EvClose])
   \<and> run (json_env (\<lambda>req. Inr \<lparr>StatusCode = 200, Body = ''<html>''\<rparr>)
            (\<lambda>stream. ErrorString ''invalid character'')
            (unmarshal_struct \<lparr>Deals = [], HasMore = False, NextPage = [], Total = 0\<rparr>
               (\<lambda>v. Inl (ErrorString ''json: cannot unmarshal''))))
       example_client (UpdateDealCall ''42'' ())
     = (Inl (WrapError ''failed to decode api response: error decoding update deal response: invalid character''
               [ErrDecodeResponse, ErrorString ''invalid character'']),
        [EvDo \<lparr>Method = ''PUT'', URL = ''https://crm.example/api/v1/deals/42?token=T0'',
                ReqBody = Some ''{}'', Header = [(''Content-Type'', ''application/json'')]\<rparr>,
         EvDecode, EvClose])
   \<and> run (json_env (\<lambda>req. Inr \<lparr>StatusCode = 200, Body = ''{}'' @ [CHR 0x0A]\<rparr>)
            (\<lambda>stream. ErrorString ''invalid character'')
            (unmarshal_struct \<lparr>Deals = [], HasMore = False, NextPage = [], Total = 0\<rparr>
               (\<lambda>v. Inl (ErrorString ''json: cannot unmarshal''))))
       example_client (ListContactsFilterCall example_contacts_filter)
     = (Inr \<lparr>Deals = [], HasMore = False, NextPage = [], Total = 0\<rparr>,
        [EvDo \<lparr>Method = ''GET'', URL = ''https://crm.example/api/v1/contacts?limit=5&page=1&token=T0'',
                ReqBody = None, Header = [(''Content-Type'', ''application/json'')]\<rparr>,
         EvDecode, EvClose])
   \<and> first_value ''<html>'' = None
   \<and> Valid (''{}'' @ [CHR 0x0A])
   \<and> StatusCode \<lparr>StatusCode = 200, Body = ''<html>''\<rparr> \<in> acceptable (CreateDealCall ())"
  using undecodable_body_is_decode_error
      [where env = "json_env (\<lambda>req. Inr \<lparr>StatusCode = 200, Body = ''<html>''\<rparr>)
            (\<lambda>stream. ErrorString ''invalid character'')
            (unmarshal_struct \<lparr>Deals = [], HasMore = False, NextPage = [], Total = 0\<rparr>
               (\<lambda>v. Inl (ErrorString ''json: cannot unmarshal'')))"
         and s = example_client and c = "ListContactsFilterCall example_contacts_filter" and body = "None"
         and resp = "\<lparr>StatusCode = 200, Body = ''<html>''\<rparr>"]
    undecodable_body_is_decode_error
      [where env = "json_env (\<lambda>req. Inr \<lparr>StatusCode = 200, Body = ''<html>''\<rparr>)
            (\<lambda>stream. ErrorString ''invalid character'')
            (unmarshal_struct \<lparr>Deals = [], HasMore = False, NextPage = [], Total = 0\<rparr>
               (\<lambda>v. Inl (ErrorString ''json: cannot unmarshal'')))"
         and s = example_client and c = "CreateContactCall ()" and body = "Some ''{}''"
         and resp = "\<lparr>StatusCode = 200, Body = ''<html>''\<rparr>"]
    undecodable_body_is_decode_error
      [where env = "json_env (\<lambda>req. Inr \<lparr>StatusCode = 200, Body = ''<html>''\<rparr>)
            (\<lambda>stream. ErrorString ''invalid character'')
            (unmarshal_struct \<lparr>Deals = [], HasMore = False, NextPage = [], Total = 0\<rparr>
               (\<lambda>v. Inl (ErrorString ''json: cannot unmarshal'')))"
         and s = example_client and c = "UpdateContactCall ''7'' ()" and body = "Some ''{}''"
         and resp = "\<lparr>StatusCode = 200, Body = ''<html>''\<rparr>"]
    undecodable_body_is_decode_error
      [where env = "json_env (\<lambda>req. Inr \<lparr>StatusCode = 200, Body = ''<html>''\<rparr>)
            (\<lambda>stream. ErrorString ''invalid character'')
            (unmarshal_struct \<lparr>Deals = [], HasMore = False, NextPage = [], Total = 0\<rparr>
               (\<lambda>v. Inl (ErrorString ''json: cannot unmarshal'')))"
         and s = example_client and c = "ListDealsFilterCall example_deals_filter" and body = "None"
         and resp = "\<lparr>StatusCode = 200, Body = ''<html>''\<rparr>"]
    undecodable_body_is_decode_error
      [where env = "json_env (\<lambda>req. Inr \<lparr>StatusCode = 200, Body = ''<html>''\<rparr>)
            (\<lambda>stream. ErrorString ''invalid character'')
            (unmarshal_struct \<lparr>Deals = [], HasMore = False, NextPage = [], Total = 0\<rparr>
               (\<lambda>v. Inl (ErrorString ''json: cannot unmarshal'')))"
         and s = example_client and c = "CreateDealCall ()" and body = "Some ''{}''"
         and resp = "\<lparr>StatusCode = 200, Body = ''<html>''\<rparr>"]
    undecodable_body_is_decode_error
      [where env = "json_env (\<lambda>req. Inr \<lparr>StatusCode = 200, Body = ''<html>''\<rparr>)
            (\<lambda>stream. ErrorString ''invalid character'')
            (unmarshal_struct \<lparr>Deals = [], HasMore = False, NextPage = [], Total = 0\<rparr>
               (\<lambda>v. Inl (ErrorString ''json: cannot unmarshal'')))"
         and s = example_client and c = "UpdateDealCall ''42'' ()" and body = "Some ''{}''"
         and resp = "\<lparr>StatusCode = 200, Body = ''<html>''\<rparr>"]
    undecodable_body_is_decode_error
      [where env = "json_env (\<lambda>req. Inr \<lparr>StatusCode = 200, Body = ''{}'' @ [CHR 0x0A]\<rparr>)
            (\<lambda>stream. ErrorString ''invalid character'')
            (unmarshal_struct \<lparr>Deals = [], HasMore = False, NextPage = [], Total = 0\<rparr>
               (\<lambda>v. Inl (ErrorString ''json: cannot unmarshal'')))"
         and s = example_client and c = "ListContactsFilterCall example_contacts_filter" and body = "None"
         and resp = "\<lparr>StatusCode = 200, Body = ''{}'' @ [CHR 0x0A]\<rparr>"]
  by (simp add: Valid_def first_value_def isSpace_def isDigit_def scan_literal_def maxNestingDepth_def
        Decoder_Decode_def unmarshal_struct_def json_env_def pipeline_defs eval_defs
        reflect_ListContactsFilterRequest_def reflect_ListDealsFilterRequest_def filter_field_def
        example_contacts_filter_def example_deals_filter_def built_request_def serialized_def
        fullPath_def)

text \<open>
  Claim C2 as stated asks for a decode error whenever the body is not valid JSON for the
  target type, and never a zero-valued payload. The body \<^verbatim>\<open>{}<html>\<close> is not valid JSON, and
  the deals listing answered with it and status 200 returns the zero-valued payload and no
  error.
\<close>

theorem first_value_decoded_counterexample:
  "\<not> Valid ''{}<html>''
   \<and> run (json_env (\<lambda>req. Inr \<lparr>StatusCode = 200, Body = ''{}<html>''\<rparr>)
              (\<lambda>stream. ErrorString ''invalid character'')
              (unmarshal_struct \<lparr>Deals = [], HasMore = False, NextPage = [], Total = 0\<rparr>
                 (\<lambda>v. Inl (ErrorString ''json: cannot unmarshal''))))
         example_client (ListDealsFilterCall example_deals_filter)
       = (Inr \<lparr>Deals = [], HasMore = False, NextPage = [], Total = 0\<rparr>,
          [EvDo \<lparr>Method = ''GET'', URL = ''https://crm.example/api/v1/deals?limit=5&token=abc&token=T0'',
                  ReqBody = None, Header = [(''Content-Type'', ''application/json'')]\<rparr>,
           EvDecode, EvClose])"
  by (simp add: Valid_def first_value_def isSpace_def maxNestingDepth_def Decoder_Decode_def unmarshal_struct_def
        json_env_def pipeline_defs eval_defs reflect_ListDealsFilterRequest_def filter_field_def
        example_deals_filter_def)

section \<open>Serialization failures\<close>

text \<open>
  Claim C3, as the code has it. When a call has a request body and \<^verbatim>\<open>json.Marshal\<close> fails
  on it, \<^verbatim>\<open>request\<close> returns the library's error as it is and the call wraps it: the
  caller gets an error wrapping \<^verbatim>\<open>ErrRequestFailed\<close> and the cause, never the bare cause,
  and nothing is sent. This is the class a transport failure gets as well: the package
  has no sentinel for serialization.
\<close>

theorem marshal_failure_is_request_failed:
  "(payload c = Some p \<and> Marshal env p = Inl cause \<longrightarrow>
      (\<exists>e. run env s c = (Inl e, [])
         \<and> e = WrapError (''http request execution failed: error making request to '' @ action c @ '': ''
                   @ Error cause) [ErrRequestFailed, cause]
         \<and> Is e ErrRequestFailed \<and> Is e cause \<and> e \<noteq> cause))
   \<and> (run env s c = (r, log) \<and> EvDo req \<in> set log \<and> Do env req = Inl cause \<longrightarrow>
        r = Inl (WrapError (''http request execution failed: error making request to '' @ action c @ '': ''
                   @ Error cause) [ErrRequestFailed, cause]))"
proof -
  have 1: "\<exists>e. run env s c = (Inl e, [])
         \<and> e = WrapError (''http request execution failed: error making request to '' @ action c @ '': ''
                   @ Error cause) [ErrRequestFailed, cause]
         \<and> Is e ErrRequestFailed \<and> Is e cause \<and> e \<noteq> cause"
    if "payload c = Some p" "Marshal env p = Inl cause"
    using that
    by (simp add: run_finish request_marshal_fails finish_def RequestError_def Is_refl
          error_not_wrapped_in_itself)
  have 2: "r = Inl (WrapError (''http request execution failed: error making request to '' @ action c @ '': ''
                   @ Error cause) [ErrRequestFailed, cause])"
    if run: "run env s c = (r, log)" and ev: "EvDo req \<in> set log" and d: "Do env req = Inl cause"
  proof -
    obtain res log0 where rq: "request env s (payload c) (method_of c) (endpoint_of env c) = (res, log0)"
      by (cases "request env s (payload c) (method_of c) (endpoint_of env c)")
    from request_cases [OF rq] show ?thesis
    proof
      assume "log0 = [] \<and> (\<exists>err. res = Inl err)"
      with run ev rq show ?thesis by (auto simp: run_finish finish_def)
    next
      assume "\<exists>req'. log0 = [EvDo req'] \<and> res = Do env req'"
      then obtain req' where l: "log0 = [EvDo req']" and res: "res = Do env req'" by blast
      show ?thesis
      proof (cases res)
        case (Inl err)
        with run rq l have rl: "r = Inl (RequestError (action c) err)" "log = [EvDo req']"
          by (auto simp: run_finish finish_def)
        with ev have "req = req'" by simp
        with res Inl d have "err = cause" by simp
        with rl show ?thesis by (simp add: RequestError_def)
      next
        case (Inr resp)
        with run rq l have "log = EvDo req' # snd (handled env (action c) (acceptable c) resp)"
          by (auto simp: run_finish finish_def)
        moreover have "EvDo req \<notin> set (snd (handled env (action c) (acceptable c) resp))"
          by (simp add: handled_def split: sum.splits)
        ultimately have "req = req'" using ev by auto
        with res Inr d show ?thesis by simp
      qed
    qed
  qed
  from 1 2 show ?thesis by blast
qed

theorem marshal_failure_is_request_failed_witness:
  "payload (CreateDealCall ()) = Some ()
   \<and> Marshal (example_env (\<lambda>p. Inl (ErrorString ''json: unsupported type: chan int''))
                (\<lambda>req. Inr \<lparr>StatusCode = 200, Body = Inr ''{}''\<rparr>)) ()
        = Inl (ErrorString ''json: unsupported type: chan int'')
   \<and> run (example_env (\<lambda>p. Inl (ErrorString ''json: unsupported type: chan int''))
                (\<lambda>req. Inr \<lparr>StatusCode = 200, Body = Inr ''{}''\<rparr>)) example_client (CreateDealCall ())
       = (Inl (WrapError ''http request execution failed: error making request to create deal: json: unsupported type: chan int''
                [ErrRequestFailed, ErrorString ''json: unsupported type: chan int'']), [])
   \<and> fst (run (example_env (\<lambda>p. Inr ''{}'') (\<lambda>req. Inl (ErrorString ''dial tcp: connection refused'')))
             example_client (CreateDealCall ()))
       = Inl (WrapError ''http request execution failed: error making request to create deal: dial tcp: connection refused''
                [ErrRequestFailed, ErrorString ''dial tcp: connection refused''])"
  using marshal_failure_is_request_failed
    [of "CreateDealCall ()" "()" "example_env (\<lambda>p. Inl (ErrorString ''json: unsupported type: chan int''))
                (\<lambda>req. Inr \<lparr>StatusCode = 200, Body = Inr ''{}''\<rparr>)"
        "ErrorString ''json: unsupported type: chan int''" example_client]
    marshal_failure_is_request_failed
    [of "CreateDealCall ()" "()" "example_env (\<lambda>p. Inr ''{}'') (\<lambda>req. Inl (ErrorString ''dial tcp: connection refused''))"
        "ErrorString ''dial tcp: connection refused''" example_client
        "Inl (WrapError ''http request execution failed: error making request to create deal: dial tcp: connection refused''
                [ErrRequestFailed, ErrorString ''dial tcp: connection refused''])"
        "[EvDo \<lparr>Method = ''POST'', URL = ''https://crm.example/api/v1/deals?token=T0'',
                ReqBody = Some ''{}'', Header = [(''Content-Type'', ''application/json'')]\<rparr>]"
        "\<lparr>Method = ''POST'', URL = ''https://crm.example/api/v1/deals?token=T0'',
                ReqBody = Some ''{}'', Header = [(''Content-Type'', ''application/json'')]\<rparr>"]
  by (simp add: pipeline_defs eval_defs)

text \<open>
  Claim C3 as stated asks for a class of its own, distinct from the transport failures.
  A serialization failure and a transport failure with the same cause give the caller
  the same error.
\<close>

theorem serialization_error_class_counterexample:
  "fst (CreateDeal (example_env (\<lambda>p. Inl (ErrorString ''json: unsupported type: chan int''))
                     (\<lambda>req. Inr \<lparr>StatusCode = 200, Body = Inr ''{}''\<rparr>)) example_client ())
     = Inl (WrapError ''http request execution failed: error making request to create deal: json: unsupported type: chan int''
              [ErrRequestFailed, ErrorString ''json: unsupported type: chan int''])
   \<and> fst (CreateDeal (example_env (\<lambda>p. Inr ''{}'')
                     (\<lambda>req. Inl (ErrorString ''json: unsupported type: chan int''))) example_client ())
     = Inl (WrapError ''http request execution failed: error making request to create deal: json: unsupported type: chan int''
              [ErrRequestFailed, ErrorString ''json: unsupported type: chan int''])"
  by (simp add: pipeline_defs eval_defs)

section \<open>The request URL\<close>

text \<open>
  Claim C4, as the code has it. The URL of the request a call sends is the base URL, a
  slash, the endpoint, a separator, \<^verbatim>\<open>token=\<close> and the client's token as it is. The
  separator is \<^verbatim>\<open>&\<close> when the base URL joined with the endpoint contains a question mark
  and \<^verbatim>\<open>?\<close> otherwise; when the base URL has no question mark this is the rule on the
  endpoint alone. The same holds of each of the six calls with its endpoint, and a
  request is sent whenever the body serializes and the method and URL are accepted.
\<close>

theorem request_url:
  "(request env s reqBody method endpoint = (res, log) \<and> EvDo req \<in> set log \<longrightarrow>
      URL req = baseUrl s @ ''/'' @ endpoint
                @ (if CHR ''?'' \<in> set (baseUrl s @ ''/'' @ endpoint) then ''&'' else ''?'')
                @ ''token='' @ token s
      \<and> (CHR ''?'' \<notin> set (baseUrl s) \<longrightarrow>
            URL req = baseUrl s @ ''/'' @ endpoint
                      @ (if CHR ''?'' \<in> set endpoint then ''&'' else ''?'') @ ''token='' @ token s)
      \<and> Method req = method \<and> log = [EvDo req] \<and> res = Do env req)
   \<and> (run env s c = (r, log') \<and> EvDo req' \<in> set log' \<longrightarrow>
      URL req' = baseUrl s @ ''/'' @ endpoint_of env c
                @ (if CHR ''?'' \<in> set (baseUrl s @ ''/'' @ endpoint_of env c) then ''&'' else ''?'')
                @ ''token='' @ token s)
   \<and> ((reqBody = None \<or> (\<exists>p b. reqBody = Some p \<and> Marshal env p = Inr b))
        \<and> NewRequest_rejects env method
              (baseUrl s @ ''/'' @ endpoint
                @ (if CHR ''?'' \<in> set (baseUrl s @ ''/'' @ endpoint) then ''&'' else ''?'')
                @ ''token='' @ token s) = None \<longrightarrow>
        (\<exists>q. snd (request env s reqBody method endpoint) = [EvDo q]))"
proof -
  have 1: "URL req = baseUrl s @ ''/'' @ endpoint
                @ (if CHR ''?'' \<in> set (baseUrl s @ ''/'' @ endpoint) then ''&'' else ''?'')
                @ ''token='' @ token s
      \<and> (CHR ''?'' \<notin> set (baseUrl s) \<longrightarrow>
            URL req = baseUrl s @ ''/'' @ endpoint
                      @ (if CHR ''?'' \<in> set endpoint then ''&'' else ''?'') @ ''token='' @ token s)
      \<and> Method req = method \<and> log = [EvDo req] \<and> res = Do env req"
    if "request env s reqBody method endpoint = (res, log)" "EvDo req \<in> set log"
    using request_sent [OF that] by auto
  have 2: "URL req' = baseUrl s @ ''/'' @ endpoint_of env c
                @ (if CHR ''?'' \<in> set (baseUrl s @ ''/'' @ endpoint_of env c) then ''&'' else ''?'')
                @ ''token='' @ token s"
    if run: "run env s c = (r, log')" and ev: "EvDo req' \<in> set log'"
  proof -
    obtain res0 log0 where rq: "request env s (payload c) (method_of c) (endpoint_of env c) = (res0, log0)"
      by (cases "request env s (payload c) (method_of c) (endpoint_of env c)")
    have "EvDo req' \<notin> set (snd (handled env (action c) (acceptable c) resp))" for resp
      by (simp add: handled_def split: sum.splits)
    with run ev rq have "EvDo req' \<in> set log0"
      by (auto simp: run_finish finish_def split: sum.splits)
    from request_sent [OF rq this] show ?thesis by auto
  qed
  have 3: "\<exists>q. snd (request env s reqBody method endpoint) = [EvDo q]"
    if "reqBody = None \<or> (\<exists>p b. reqBody = Some p \<and> Marshal env p = Inr b)"
      "NewRequest_rejects env method
              (baseUrl s @ ''/'' @ endpoint
                @ (if CHR ''?'' \<in> set (baseUrl s @ ''/'' @ endpoint) then ''&'' else ''?'')
                @ ''token='' @ token s) = None"
    using that
    by (auto simp: request_def NewRequestWithContext_def Let_def Contains_char)
  from 1 2 3 show ?thesis by blast
qed


theorem request_url_witness:
  "request (example_env (\<lambda>p. Inr ''{}'') (\<lambda>req. Inl (ErrorString ''timeout'')))
       example_client None ''GET'' ''deals?limit=5''
     = (Inl (ErrorString ''timeout''),
        [EvDo \<lparr>Method = ''GET'', URL = ''https://crm.example/api/v1/deals?limit=5&token=T0'',
                ReqBody = None, Header = [(''Content-Type'', ''application/json'')]\<rparr>])
   \<and> request (example_env (\<lambda>p. Inr ''{}'') (\<lambda>req. Inl (ErrorString ''timeout'')))
       example_client (Some ()) ''POST'' ''deals''
     = (Inl (ErrorString ''timeout''),
        [EvDo \<lparr>Method = ''POST'', URL = ''https://crm.example/api/v1/deals?token=T0'',
                ReqBody = Some ''{}'', Header = [(''Content-Type'', ''application/json'')]\<rparr>])
   \<and> CHR ''?'' \<notin> set (baseUrl example_client)
   \<and> snd (run (example_env (\<lambda>p. Inr ''{}'') (\<lambda>req. Inl (ErrorString ''timeout'')))
              example_client (UpdateContactCall ''7'' ()))
     = [EvDo \<lparr>Method = ''PUT'', URL = ''https://crm.example/api/v1/contacts/7?token=T0'',
                ReqBody = Some ''{}'', Header = [(''Content-Type'', ''application/json'')]\<rparr>]"
  using request_url
    [of "example_env (\<lambda>p. Inr ''{}'') (\<lambda>req. Inl (ErrorString ''timeout''))" example_client
        None "''GET''" "''deals?limit=5''" "Inl (ErrorString ''timeout'')"
        "[EvDo \<lparr>Method = ''GET'', URL = ''https://crm.example/api/v1/deals?limit=5&token=T0'',
                ReqBody = None, Header = [(''Content-Type'', ''application/json'')]\<rparr>]"
        "\<lparr>Method = ''GET'', URL = ''https://crm.example/api/v1/deals?limit=5&token=T0'',
                ReqBody = None, Header = [(''Content-Type'', ''application/json'')]\<rparr>"
        "UpdateContactCall ''7'' ()"
        "Inl (WrapError ''http request execution failed: error making request to update contact: timeout''
                [ErrRequestFailed, ErrorString ''timeout''])"
        "[EvDo \<lparr>Method = ''PUT'', URL = ''https://crm.example/api/v1/contacts/7?token=T0'',
                ReqBody = Some ''{}'', Header = [(''Content-Type'', ''application/json'')]\<rparr>]"
        "\<lparr>Method = ''PUT'', URL = ''https://crm.example/api/v1/contacts/7?token=T0'',
                ReqBody = Some ''{}'', Header = [(''Content-Type'', ''application/json'')]\<rparr>"]
    request_url
    [of "example_env (\<lambda>p. Inr ''{}'') (\<lambda>req. Inl (ErrorString ''timeout''))" example_client
        "Some ()" "''POST''" "''deals''" "Inl (ErrorString ''timeout'')"
        "[EvDo \<lparr>Method = ''POST'', URL = ''https://crm.example/api/v1/deals?token=T0'',
                ReqBody = Some ''{}'', Header = [(''Content-Type'', ''application/json'')]\<rparr>]"
        "\<lparr>Method = ''POST'', URL = ''https://crm.example/api/v1/deals?token=T0'',
                ReqBody = Some ''{}'', Header = [(''Content-Type'', ''application/json'')]\<rparr>"]
  by (simp add: pipeline_defs eval_defs)

text \<open>
  Claim C4 as stated decides the separator on the endpoint alone. With a base URL that
  carries a query string, an endpoint without one is followed by \<^verbatim>\<open>&\<close>.
\<close>

theorem base_url_with_query_counterexample:
  "CHR ''?'' \<notin> set ''deals''
   \<and> snd (request (example_env (\<lambda>p. Inr ''{}'') (\<lambda>req. Inl (ErrorString ''timeout'')))
              \<lparr>baseUrl = ''https://proxy.example/forward?to=crm'', token = ''T0''\<rparr> None ''GET'' ''deals'')
     = [EvDo \<lparr>Method = ''GET'', URL = ''https://proxy.example/forward?to=crm/deals&token=T0'',
                ReqBody = None, Header = [(''Content-Type'', ''application/json'')]\<rparr>]"
  by (simp add: pipeline_defs eval_defs)

section \<open>Parameter names\<close>

text \<open>
  Claim C5. A field whose \<^verbatim>\<open>query\<close> tag is present, not empty and not \<^verbatim>\<open>-\<close> adds its
  values under the tag, and under no other key; a field without such a tag adds them
  under its declared name. In particular a field with an overriding tag different from its
  declared name leaves the values under its declared name as they were. For a whole
  struct, the result is the \<^verbatim>\<open>&\<close>-joined list of escaped \<^verbatim>\<open>key=value\<close> pairs in which the
  values under a key are those of the fields with that parameter name, in declaration
  order.
\<close>

theorem query_parameter_name:
  "(map_of (Tag f) ''query'' = Some t \<and> t \<noteq> [] \<and> t \<noteq> ''-'' \<longrightarrow>
      index (field_step queryParams f) k = index queryParams k @ (if k = t then spec_values (Value f) else []))
   \<and> (map_of (Tag f) ''query'' \<in> {None, Some [], Some ''-''} \<longrightarrow>
      index (field_step queryParams f) k
        = index queryParams k @ (if k = field.Name f then spec_values (Value f) else []))
   \<and> (map_of (Tag f) ''query'' = Some t \<and> t \<noteq> [] \<and> t \<noteq> ''-'' \<and> t \<noteq> field.Name f \<longrightarrow>
      index (field_step queryParams f) (field.Name f) = index queryParams (field.Name f))
   \<and> StructToQueryString (VStruct fs) = Inr (join ''&'' (map pair_text (spec_pairs fs)))
   \<and> map snd (filter (\<lambda>p. fst p = k) (spec_pairs fs))
        = concat (map (\<lambda>f. spec_values (Value f)) (filter (\<lambda>f. spec_name f = k) fs))"
proof -
  have tagged: "spec_name f = t" if "map_of (Tag f) ''query'' = Some t" "t \<noteq> []" "t \<noteq> ''-''"
    using that by (simp add: spec_name_def)
  have untagged: "spec_name f = field.Name f" if "map_of (Tag f) ''query'' \<in> {None, Some [], Some ''-''}"
    using that by (auto simp: spec_name_def)
  have 1: "map_of (Tag f) ''query'' = Some t \<and> t \<noteq> [] \<and> t \<noteq> ''-'' \<longrightarrow>
      index (field_step queryParams f) k = index queryParams k @ (if k = t then spec_values (Value f) else [])"
    using tagged by (simp add: index_field_step)
  have 2: "map_of (Tag f) ''query'' \<in> {None, Some [], Some ''-''} \<longrightarrow>
      index (field_step queryParams f) k
        = index queryParams k @ (if k = field.Name f then spec_values (Value f) else [])"
    using untagged by (simp add: index_field_step)
  have 3: "map_of (Tag f) ''query'' = Some t \<and> t \<noteq> [] \<and> t \<noteq> ''-'' \<and> t \<noteq> field.Name f \<longrightarrow>
      index (field_step queryParams f) (field.Name f) = index queryParams (field.Name f)"
    using tagged by (auto simp: index_field_step)
  have 4: "map snd (filter (\<lambda>p. fst p = k) (spec_pairs fs))
        = concat (map (\<lambda>f. spec_values (Value f)) (filter (\<lambda>f. spec_name f = k) fs))"
    by (simp only: spec_pairs_key contrib_filter)
  from 1 2 3 4 StructToQueryString_spec [of fs] show ?thesis by blast
qed

theorem query_parameter_name_witness:
  "map_of (Tag (Field ''Field1'' [(''query'', ''custom'')] (VString ''v''))) ''query'' = Some ''custom''
   \<and> index (field_step [(''Field1'', [''w''])] (Field ''Field1'' [(''query'', ''custom'')] (VString ''v''))) ''custom'' = [''v'']
   \<and> index (field_step [(''Field1'', [''w''])] (Field ''Field1'' [(''query'', ''custom'')] (VString ''v''))) ''Field1'' = [''w'']
   \<and> map_of (Tag (Field ''Other'' [(''query'', ''-'')] (VInt Size_default 7))) ''query'' \<in> {None, Some [], Some ''-''}
   \<and> index (field_step [(''Field1'', [''w''])] (Field ''Other'' [(''query'', ''-'')] (VInt Size_default 7))) ''Other'' = [''7'']
   \<and> StructToQueryString (VStruct [Field ''Field1'' [(''query'', ''custom'')] (VString ''v''),
                                   Field ''Other'' [(''query'', ''-'')] (VInt Size_default 7)])
       = Inr ''Other=7&custom=v''"
  using query_parameter_name
      [of "Field ''Field1'' [(''query'', ''custom'')] (VString ''v'')" "''custom''" "[(''Field1'', [''w''])]" "''custom''"
          "[Field ''Field1'' [(''query'', ''custom'')] (VString ''v''),
            Field ''Other'' [(''query'', ''-'')] (VInt Size_default 7)]"]
    query_parameter_name
      [of "Field ''Other'' [(''query'', ''-'')] (VInt Size_default 7)" "''x''" "[(''Field1'', [''w''])]" "''Other''" "[]"]
  by (simp add: eval_defs)

section \<open>Zero values\<close>

text \<open>
  Claim C6. A struct whose fields are all at their zero value (empty text, integer zero,
  false, empty or nil sequence) encodes to the empty string, without error. More
  generally the result is empty exactly when no field is a non-empty text, a non-zero
  integer (of a signed kind), a true boolean or a non-empty slice; these are the only
  fields that change the collected parameters, and a true boolean adds the text
  \<^verbatim>\<open>true\<close>.
\<close>

theorem zero_fields_encode_to_empty:
  "((\<forall>f \<in> set fs. is_zero (Value f)) \<longrightarrow> StructToQueryString (VStruct fs) = Inr [])
   \<and> (StructToQueryString (VStruct fs) = Inr [] \<longleftrightarrow> (\<forall>f \<in> set fs. \<not> contributes (Value f)))
   \<and> (field_step queryParams f = queryParams \<longleftrightarrow> \<not> contributes (Value f))
   \<and> (contributes (Value f) \<longrightarrow> index (field_step queryParams f) (spec_name f) \<noteq> index queryParams (spec_name f))
   \<and> (Value f = VBool True \<longrightarrow>
        index (field_step queryParams f) (spec_name f) = index queryParams (spec_name f) @ [''true''])"
proof -
  have "(\<forall>f \<in> set fs. is_zero (Value f)) \<longrightarrow> (\<forall>f \<in> set fs. \<not> contributes (Value f))"
    using is_zero_not_contributes by blast
  moreover have "contributes (Value f) \<longrightarrow>
      index (field_step queryParams f) (spec_name f) \<noteq> index queryParams (spec_name f)"
    by (simp add: index_field_step spec_values_empty_iff)
  moreover have "Value f = VBool True \<longrightarrow>
      index (field_step queryParams f) (spec_name f) = index queryParams (spec_name f) @ [''true'']"
    by (simp add: index_field_step)
  ultimately show ?thesis
    using query_empty_iff [of fs] field_step_unchanged_iff [of queryParams f] by blast
qed

theorem zero_fields_encode_to_empty_witness:
  "is_zero (Value (Field ''Name'' [(''query'', ''name'')] (VString [])))
   \<and> is_zero (Value (Field ''Count'' [] (VInt Size64 0)))
   \<and> is_zero (Value (Field ''Active'' [(''query'', ''active'')] (VBool False)))
   \<and> is_zero (Value (Field ''Ids'' [] (VSlice [])))
   \<and> StructToQueryString (VStruct [Field ''Name'' [(''query'', ''name'')] (VString []),
         Field ''Count'' [] (VInt Size64 0), Field ''Active'' [(''query'', ''active'')] (VBool False),
         Field ''Ids'' [] (VSlice [])]) = Inr []
   \<and> contributes (Value (Field ''Active'' [(''query'', ''active'')] (VBool True)))
   \<and> field_step [] (Field ''Active'' [(''query'', ''active'')] (VBool True)) = [(''active'', [''true''])]
   \<and> field_step [] (Field ''Active'' [(''query'', ''active'')] (VBool True)) \<noteq> []"
  using zero_fields_encode_to_empty
      [of "[Field ''Name'' [(''query'', ''name'')] (VString []), Field ''Count'' [] (VInt Size64 0),
            Field ''Active'' [(''query'', ''active'')] (VBool False), Field ''Ids'' [] (VSlice [])]"
          "[]" "Field ''Active'' [(''query'', ''active'')] (VBool True)"]
  by (simp add: eval_defs)

section \<open>Integer fields\<close>

text \<open>
  Claim C7, as the code has it. A field of a signed integer kind (\<^verbatim>\<open>int\<close>, \<^verbatim>\<open>int8\<close>,
  \<^verbatim>\<open>int16\<close>, \<^verbatim>\<open>int32\<close>, \<^verbatim>\<open>int64\<close>) adds one value under its parameter name exactly
  when it is not zero; the value is the base-10 text of the integer (reading it back
  gives the integer) and escaping leaves it as it is. Within any struct, a zero field can
  be dropped without changing the result, and a non-zero field appears as \<^verbatim>\<open>name=text\<close>
  among the parameters. A field of an unsigned integer kind adds nothing, whatever its
  value.
\<close>

theorem signed_integer_fields:
  "(Value f = VInt w i \<longrightarrow>
      index (field_step queryParams f) k
        = index queryParams k @ (if k = spec_name f \<and> i \<noteq> 0 then [FormatInt i] else []))
   \<and> read_decimal (FormatInt i) = Some i
   \<and> QueryEscape (FormatInt i) = FormatInt i
   \<and> (Value f = VInt w 0 \<longrightarrow>
        StructToQueryString (VStruct (fs @ f # fs')) = StructToQueryString (VStruct (fs @ fs')))
   \<and> (Value f = VInt w i \<and> i \<noteq> 0 \<longrightarrow>
        (\<exists>ps. StructToQueryString (VStruct (fs @ f # fs')) = Inr (join ''&'' ps)
            \<and> QueryEscape (spec_name f) @ ''='' @ FormatInt i \<in> set ps))
   \<and> (Value f = VUint w n \<longrightarrow> field_step queryParams f = queryParams)"
proof -
  have 1: "Value f = VInt w i \<longrightarrow>
      index (field_step queryParams f) k
        = index queryParams k @ (if k = spec_name f \<and> i \<noteq> 0 then [FormatInt i] else [])"
    by (simp add: index_field_step)
  have 2: "Value f = VInt w 0 \<longrightarrow>
        StructToQueryString (VStruct (fs @ f # fs')) = StructToQueryString (VStruct (fs @ fs'))"
  proof
    assume "Value f = VInt w 0"
    then have "field_step q f = q" for q
      by (simp add: field_step_unchanged_iff)
    then show "StructToQueryString (VStruct (fs @ f # fs')) = StructToQueryString (VStruct (fs @ fs'))"
      by (simp add: StructToQueryString_def fields_loop_append)
  qed
  have 3: "\<exists>ps. StructToQueryString (VStruct (fs @ f # fs')) = Inr (join ''&'' ps)
            \<and> QueryEscape (spec_name f) @ ''='' @ FormatInt i \<in> set ps"
    if v: "Value f = VInt w i" and nz: "i \<noteq> 0"
  proof -
    from v nz have "(spec_name f, FormatInt i) \<in> set (spec_pairs (fs @ f # fs'))"
      by (simp add: in_spec_pairs)
    then have "pair_text (spec_name f, FormatInt i) \<in> set (map pair_text (spec_pairs (fs @ f # fs')))"
      by (simp only: set_map) (rule imageI)
    then have "QueryEscape (spec_name f) @ ''='' @ FormatInt i
                 \<in> set (map pair_text (spec_pairs (fs @ f # fs')))"
      by (simp only: pair_text_def fst_conv snd_conv QueryEscape_FormatInt)
    with StructToQueryString_spec [of "fs @ f # fs'"] show ?thesis by blast
  qed
  have 4: "Value f = VUint w n \<longrightarrow> field_step queryParams f = queryParams"
    by (simp add: field_step_unchanged_iff)
  from 1 2 3 4 read_decimal_FormatInt [of i] QueryEscape_FormatInt [of i] show ?thesis by blast
qed

theorem signed_integer_fields_witness:
  "Value (Field ''Page'' [(''query'', ''page'')] (VInt Size32 (- 12))) = VInt Size32 (- 12)
   \<and> index (field_step [] (Field ''Page'' [(''query'', ''page'')] (VInt Size32 (- 12)))) ''page'' = [''-12'']
   \<and> read_decimal ''-12'' = Some (- 12)
   \<and> StructToQueryString (VStruct [Field ''Q'' [] (VString ''a''),
         Field ''Page'' [(''query'', ''page'')] (VInt Size32 (- 12))]) = Inr ''Q=a&page=-12''
   \<and> StructToQueryString (VStruct [Field ''Q'' [] (VString ''a''),
         Field ''Page'' [(''query'', ''page'')] (VInt Size32 0)]) = Inr ''Q=a''
   \<and> field_step [] (Field ''Count'' [(''query'', ''count'')] (VUint Size32 5)) = []"
  using signed_integer_fields
      [of "Field ''Page'' [(''query'', ''page'')] (VInt Size32 (- 12))" Size32 "- 12" "[]" "''page''"
          "[Field ''Q'' [] (VString ''a'')]" "[]" 5]
    signed_integer_fields
      [of "Field ''Page'' [(''query'', ''page'')] (VInt Size32 0)" Size32 0 "[]" "''page''"
          "[Field ''Q'' [] (VString ''a'')]" "[]" 5]
    signed_integer_fields
      [of "Field ''Count'' [(''query'', ''count'')] (VUint Size32 5)" Size32 0 "[]" "''count''" "[]" "[]" 5]
  by (simp add: eval_defs read_decimal_def digit_value_def)

text \<open>
  Claim C7 as stated fails for the unsigned kinds, for which the switch has no case: an
  unsigned field of value 5 is not in the result.
\<close>

theorem unsigned_integer_field_counterexample:
  "(5::nat) \<noteq> 0
   \<and> StructToQueryString (VStruct [Field ''Count'' [(''query'', ''count'')] (VUint Size32 5)]) = Inr []"
  by (simp add: eval_defs)

section \<open>Errors of the encoder\<close>

text \<open>
  Claim C8. \<^verbatim>\<open>StructToQueryString\<close> returns an error exactly when its input is not a
  struct, and the error is then \<^verbatim>\<open>input is not a struct\<close>; on every struct it returns
  a query string. A field whose kind is none of string, signed integer, boolean and slice
  leaves the parameters collected so far as they are, so that the result of a struct is
  the result of the struct without such fields.
\<close>

theorem StructToQueryString_error_iff_not_struct:
  "((\<exists>err. StructToQueryString data = Inl err) \<longleftrightarrow> Kind data \<noteq> KStruct)
   \<and> (Kind data \<noteq> KStruct \<longrightarrow> StructToQueryString data = Inl (ErrorString ''input is not a struct''))
   \<and> (Kind data = KStruct \<longrightarrow> (\<exists>s. StructToQueryString data = Inr s))
   \<and> (\<not> encodable (Kind (Value f)) \<longrightarrow> field_step queryParams f = queryParams)
   \<and> StructToQueryString (VStruct fs) =
       StructToQueryString (VStruct (filter (\<lambda>f. encodable (Kind (Value f))) fs))"
  by (cases data) (simp_all add: StructToQueryString_def field_step_skip fields_loop_filter)

theorem StructToQueryString_error_iff_not_struct_witness:
  "Kind (VOther Pointer ''0xc000012345'') \<noteq> KStruct
   \<and> StructToQueryString (VOther Pointer ''0xc000012345'') = Inl (ErrorString ''input is not a struct'')
   \<and> Kind (VStruct [Field ''Rate'' [(''query'', ''rate'')] (VOther Float64 ''1.5''),
                    Field ''Q'' [(''query'', ''q'')] (VString ''a b'')]) = KStruct
   \<and> \<not> encodable (Kind (Value (Field ''Rate'' [(''query'', ''rate'')] (VOther Float64 ''1.5''))))
   \<and> field_step [(''q'', [''x''])] (Field ''Rate'' [(''query'', ''rate'')] (VOther Float64 ''1.5''))
       = [(''q'', [''x''])]
   \<and> StructToQueryString (VStruct [Field ''Rate'' [(''query'', ''rate'')] (VOther Float64 ''1.5''),
                                   Field ''Q'' [(''query'', ''q'')] (VString ''a b'')])
       = Inr ''q=a+b''"
  using StructToQueryString_error_iff_not_struct
    [of "VOther Pointer ''0xc000012345''" "Field ''Rate'' [(''query'', ''rate'')] (VOther Float64 ''1.5'')"
        "[(''q'', [''x''])]"
        "[Field ''Rate'' [(''query'', ''rate'')] (VOther Float64 ''1.5''),
          Field ''Q'' [(''query'', ''q'')] (VString ''a b'')]"]
  by (simp add: StructToQueryString_def field_step_def Tag_Get_def Add_def index_def Encode_def
      write_key_def write_pair_def QueryEscape_def escape_char_def shouldEscape_def)

section \<open>Encoding, decoding and encoding again\<close>

text \<open>
  Claim C9. Take a struct whose fields have the names Go allows (not empty, not \<^verbatim>\<open>-\<close>).
  Its query string decodes, with \<^verbatim>\<open>url.ParseQuery\<close> and without error, to the (key,
  value) pairs that were encoded; the record equivalent to the decoded parameters
  encodes to the same query string again, so to the same pairs.
\<close>

theorem query_round_trip:
  assumes "\<forall>f \<in> set fs. field.Name f \<noteq> [] \<and> field.Name f \<noteq> ''-''"
  shows "\<exists>s m. StructToQueryString (VStruct fs) = Inr s
           \<and> ParseQuery s = (m, None)
           \<and> pairs_of m = pairs_of (fields_loop [] fs)
           \<and> StructToQueryString (equivalent_record m) = Inr s
           \<and> pairs_of (fields_loop [] (fields_of_values 0 m)) = pairs_of (fields_loop [] fs)"
proof -
  let ?s = "join ''&'' (map pair_text (spec_pairs fs))"
  let ?m = "foldl (\<lambda>m p. Add m (fst p) (snd p)) [] (spec_pairs fs)"
  let ?fs' = "fields_of_values 0 ?m"
  have enc: "StructToQueryString (VStruct fs) = Inr ?s"
    by (rule StructToQueryString_spec)
  have dec: "ParseQuery ?s = (?m, None)"
    by (rule ParseQuery_Encode)
  have wfm: "wf_values ?m"
    by (simp add: wf_foldl_Add wf_empty)
  have wf1: "wf_values (fields_loop [] fs)" and wf2: "wf_values (fields_loop [] ?fs')"
    by (simp_all add: wf_fields_loop wf_empty)
  have im: "index ?m k = contrib fs k" for k
    by (simp add: index_foldl_Add index_Nil spec_pairs_key)
  have same: "pairs_of ?m = pairs_of (fields_loop [] fs)"
    using wfm wf1 by (rule pairs_of_cong) (simp add: im index_fields_loop_contrib)
  have keys: "\<forall>k \<in> fst ` set ?m. k \<noteq> [] \<and> k \<noteq> ''-''"
  proof
    fix k assume "k \<in> fst ` set ?m"
    then have "contrib fs k \<noteq> []"
      using wf_index_keys [OF wfm, of k] by (simp add: im)
    then have "k \<in> set (map spec_name fs)" by (rule contrib_nonempty_name)
    then obtain f where "f \<in> set fs" "k = spec_name f" by auto
    with assms spec_name_usable [of f] show "k \<noteq> [] \<and> k \<noteq> ''-''" by simp
  qed
  have "index (fields_loop [] ?fs') k = index ?m k" for k
  proof -
    have "index (fields_loop [] ?fs') k = contrib ?fs' k"
      by (rule index_fields_loop_contrib)
    also have "\<dots> = concat (map (\<lambda>(k', vs). if k' = k then vs else []) ?m)"
      using keys by (rule contrib_fields_of_values)
    also have "\<dots> = index ?m k"
      using wfm by (intro index_distinct) (simp add: wf_values_def)
    finally show ?thesis .
  qed
  with wf2 wfm have again: "pairs_of (fields_loop [] ?fs') = pairs_of ?m"
    by (rule pairs_of_cong)
  have "StructToQueryString (equivalent_record ?m) = Inr (join ''&'' (map pair_text (pairs_of (fields_loop [] ?fs'))))"
    by (simp add: equivalent_record_def StructToQueryString_def Encode_join)
  also have "\<dots> = Inr (join ''&'' (map pair_text (pairs_of ?m)))"
    by (simp only: again)
  also have "\<dots> = Inr (join ''&'' (map pair_text (pairs_of (fields_loop [] fs))))"
    by (simp only: same)
  also have "\<dots> = Inr ?s"
    by (simp only: pairs_of_fields_loop)
  finally have re: "StructToQueryString (equivalent_record ?m) = Inr ?s" .
  from enc dec same re again show ?thesis by (metis (no_types))
qed

theorem query_round_trip_witness:
  "field.Name (Field ''Q'' [(''query'', ''q'')] (VString ''a b&c'')) \<noteq> []
   \<and> field.Name (Field ''Q'' [(''query'', ''q'')] (VString ''a b&c'')) \<noteq> ''-''
   \<and> field.Name (Field ''Ids'' [] (VSlice [VInt Size64 1, VInt Size64 2])) \<noteq> []
   \<and> field.Name (Field ''Ids'' [] (VSlice [VInt Size64 1, VInt Size64 2])) \<noteq> ''-''
   \<and> StructToQueryString (VStruct [Field ''Q'' [(''query'', ''q'')] (VString ''a b&c''),
          Field ''Ids'' [] (VSlice [VInt Size64 1, VInt Size64 2])]) = Inr ''Ids=1&Ids=2&q=a+b%26c''
   \<and> ParseQuery ''Ids=1&Ids=2&q=a+b%26c'' = ([(''Ids'', [''1'', ''2'']), (''q'', [''a b&c''])], None)
   \<and> equivalent_record [(''Ids'', [''1'', ''2'']), (''q'', [''a b&c''])]
        = VStruct [Field ''F0'' [(''query'', ''Ids'')] (VSlice [VString ''1'', VString ''2'']),
                   Field ''F1'' [(''query'', ''q'')] (VSlice [VString ''a b&c''])]
   \<and> StructToQueryString (equivalent_record [(''Ids'', [''1'', ''2'']), (''q'', [''a b&c''])])
        = Inr ''Ids=1&Ids=2&q=a+b%26c''"
  using query_round_trip
    [of "[Field ''Q'' [(''query'', ''q'')] (VString ''a b&c''),
          Field ''Ids'' [] (VSlice [VInt Size64 1, VInt Size64 2])]"]
  by (simp add: eval_defs parse_defs)

section \<open>The token of a listing filter\<close>

text \<open>
  Claim C10. When the filter of a listing call has a non-empty \<^verbatim>\<open>Token\<close>, the URL of the
  request is the base URL, a slash, the listing endpoint, a question mark, and the
  parameters joined by \<^verbatim>\<open>&\<close>: first those encoded from the filter, of which exactly one
  has the key \<^verbatim>\<open>token\<close> and carries the filter's token, then the \<^verbatim>\<open>token=\<close> parameter
  that \<^verbatim>\<open>request\<close> appends with the client's token.
\<close>

theorem listing_sends_token_twice:
  "(ListDealsFilterRequest.Token fd \<noteq> [] \<and> run env s (ListDealsFilterCall fd) = (r, log)
      \<and> EvDo req \<in> set log \<longrightarrow>
      (\<exists>pairs. StructToQueryString (reflect_ListDealsFilterRequest fd) = Inr (join ''&'' (map pair_text pairs))
         \<and> filter (\<lambda>p. fst p = ''token'') pairs = [(''token'', ListDealsFilterRequest.Token fd)]
         \<and> URL req = baseUrl s @ ''/'' @ listDealsEndpoint env @ ''?''
                      @ join ''&'' (map pair_text pairs @ [''token='' @ token s])))
   \<and> (ListContactsFilterRequest.Token fc \<noteq> [] \<and> run env s (ListContactsFilterCall fc) = (r', log')
      \<and> EvDo req' \<in> set log' \<longrightarrow>
      (\<exists>pairs. StructToQueryString (reflect_ListContactsFilterRequest fc) = Inr (join ''&'' (map pair_text pairs))
         \<and> filter (\<lambda>p. fst p = ''token'') pairs = [(''token'', ListContactsFilterRequest.Token fc)]
         \<and> URL req' = baseUrl s @ ''/'' @ listContactsEndpoint env @ ''?''
                      @ join ''&'' (map pair_text pairs @ [''token='' @ token s])))"
proof -
  have deals: "\<exists>pairs. StructToQueryString (reflect_ListDealsFilterRequest fd) = Inr (join ''&'' (map pair_text pairs))
         \<and> filter (\<lambda>p. fst p = ''token'') pairs = [(''token'', ListDealsFilterRequest.Token fd)]
         \<and> URL req = baseUrl s @ ''/'' @ listDealsEndpoint env @ ''?''
                      @ join ''&'' (map pair_text pairs @ [''token='' @ token s])"
    if t: "ListDealsFilterRequest.Token fd \<noteq> []" and run: "run env s (ListDealsFilterCall fd) = (r, log)"
      and ev: "EvDo req \<in> set log"
  proof -
    obtain fs where fs: "reflect_ListDealsFilterRequest fd = VStruct fs"
      by (simp add: reflect_ListDealsFilterRequest_def)
    let ?pairs = "spec_pairs fs"
    have q: "StructToQueryString (reflect_ListDealsFilterRequest fd) = Inr (join ''&'' (map pair_text ?pairs))"
      by (simp add: fs StructToQueryString_spec)
    have f: "filter (\<lambda>p. fst p = ''token'') ?pairs = [(''token'', ListDealsFilterRequest.Token fd)]"
      by (simp add: spec_pairs_filter_key contrib_deals_token [OF t fs])
    then have ne: "?pairs \<noteq> []" by auto
    from run_request_log [OF run ev] obtain res log0 where
      "request env s None ''GET'' (fullPath (listDealsEndpoint env) (reflect_ListDealsFilterRequest fd)) = (res, log0)"
      "EvDo req \<in> set log0" by auto
    from listing_url [OF q ne this] q f show ?thesis by blast
  qed
  have contacts: "\<exists>pairs. StructToQueryString (reflect_ListContactsFilterRequest fc) = Inr (join ''&'' (map pair_text pairs))
         \<and> filter (\<lambda>p. fst p = ''token'') pairs = [(''token'', ListContactsFilterRequest.Token fc)]
         \<and> URL req' = baseUrl s @ ''/'' @ listContactsEndpoint env @ ''?''
                      @ join ''&'' (map pair_text pairs @ [''token='' @ token s])"
    if t: "ListContactsFilterRequest.Token fc \<noteq> []" and run: "run env s (ListContactsFilterCall fc) = (r', log')"
      and ev: "EvDo req' \<in> set log'"
  proof -
    obtain fs where fs: "reflect_ListContactsFilterRequest fc = VStruct fs"
      by (simp add: reflect_ListContactsFilterRequest_def)
    let ?pairs = "spec_pairs fs"
    have q: "StructToQueryString (reflect_ListContactsFilterRequest fc) = Inr (join ''&'' (map pair_text ?pairs))"
      by (simp add: fs StructToQueryString_spec)
    have f: "filter (\<lambda>p. fst p = ''token'') ?pairs = [(''token'', ListContactsFilterRequest.Token fc)]"
      by (simp add: spec_pairs_filter_key contrib_contacts_token [OF t fs])
    then have ne: "?pairs \<noteq> []" by auto
    from run_request_log [OF run ev] obtain res log0 where
      "request env s None ''GET'' (fullPath (listContactsEndpoint env) (reflect_ListContactsFilterRequest fc)) = (res, log0)"
      "EvDo req' \<in> set log0" by auto
    from listing_url [OF q ne this] q f show ?thesis by blast
  qed
  from deals contacts show ?thesis by blast
qed


theorem listing_sends_token_twice_witness:
  "ListDealsFilterRequest.Token example_deals_filter \<noteq> []
   \<and> run (example_env (\<lambda>p. Inr ''{}'') (\<lambda>req. Inr \<lparr>StatusCode = 200, Body = Inr ''{}''\<rparr>))
         example_client (ListDealsFilterCall example_deals_filter)
       = (Inr ''{}'',
          [EvDo \<lparr>Method = ''GET'', URL = ''https://crm.example/api/v1/deals?limit=5&token=abc&token=T0'',
                  ReqBody = None, Header = [(''Content-Type'', ''application/json'')]\<rparr>,
           EvDecode, EvClose])
   \<and> ListContactsFilterRequest.Token (example_contacts_filter\<lparr>ListContactsFilterRequest.Token := ''a b''\<rparr>) \<noteq> []
   \<and> run (example_env (\<lambda>p. Inr ''{}'') (\<lambda>req. Inr \<lparr>StatusCode = 200, Body = Inr ''{}''\<rparr>))
         example_client
         (ListContactsFilterCall (example_contacts_filter\<lparr>ListContactsFilterRequest.Token := ''a b''\<rparr>))
       = (Inr ''{}'',
          [EvDo \<lparr>Method = ''GET'',
                  URL = ''https://crm.example/api/v1/contacts?limit=5&page=1&token=a+b&token=T0'',
                  ReqBody = None, Header = [(''Content-Type'', ''application/json'')]\<rparr>,
           EvDecode, EvClose])"
  using listing_sends_token_twice
    [of example_deals_filter
        "example_env (\<lambda>p. Inr ''{}'') (\<lambda>req. Inr \<lparr>StatusCode = 200, Body = Inr ''{}''\<rparr>)"
        example_client "Inr ''{}''"
        "[EvDo \<lparr>Method = ''GET'', URL = ''https://crm.example/api/v1/deals?limit=5&token=abc&token=T0'',
                  ReqBody = None, Header = [(''Content-Type'', ''application/json'')]\<rparr>,
           EvDecode, EvClose]"
        "\<lparr>Method = ''GET'', URL = ''https://crm.example/api/v1/deals?limit=5&token=abc&token=T0'',
                  ReqBody = None, Header = [(''Content-Type'', ''application/json'')]\<rparr>"
        "example_contacts_filter\<lparr>ListContactsFilterRequest.Token := ''a b''\<rparr>"
        "Inr ''{}''"
        "[EvDo \<lparr>Method = ''GET'',
                  URL = ''https://crm.example/api/v1/contacts?limit=5&page=1&token=a+b&token=T0'',
                  ReqBody = None, Header = [(''Content-Type'', ''application/json'')]\<rparr>,
           EvDecode, EvClose]"
        "\<lparr>Method = ''GET'',
                  URL = ''https://crm.example/api/v1/contacts?limit=5&page=1&token=a+b&token=T0'',
                  ReqBody = None, Header = [(''Content-Type'', ''application/json'')]\<rparr>"]
  by (simp add: pipeline_defs eval_defs reflect_ListContactsFilterRequest_def
        reflect_ListDealsFilterRequest_def filter_field_def example_contacts_filter_def
        example_deals_filter_def)

end
